(* ===== verification/Prelude.thy ===== *)
theory Prelude
  imports Main "HOL-Library.Word" "HOL-Library.Code_Target_Nat"
begin

text \<open>
  Shared ground of the development: the parts of Go's \<^verbatim>\<open>strings\<close>, \<^verbatim>\<open>strconv\<close> and
  \<^verbatim>\<open>fmt\<close> packages the program uses, written as total functions on byte strings, and the
  list lemmas the component theories share.  A Go \<^verbatim>\<open>string\<close> is a sequence of bytes, and so is a
  HOL \<open>string\<close> (a list of 8-bit characters): \<open>length\<close> counts what Go's \<open>len\<close> counts.
\<close>

unbundle bit_operations_syntax

named_theorems go_simps \<open>evaluation rules of the modelled Go library functions\<close>
named_theorems ids_simps \<open>facts on lists keyed by an identifier\<close>

type_synonym byte = "8 word"
type_synonym u16 = "16 word"
type_synonym u32 = "32 word"
type_synonym u64 = "64 word"

text \<open>Addition and subtraction of \<^verbatim>\<open>int64\<close> values, which wrap round.\<close>

definition add64 :: "int \<Rightarrow> int \<Rightarrow> int" where
  "add64 a b = sint (of_int (a + b) :: u64)"

definition sub64 :: "int \<Rightarrow> int \<Rightarrow> int" where
  "sub64 a b = sint (of_int (a - b) :: u64)"

lemma int64_id: "- (2 ^ 63) \<le> a \<Longrightarrow> a < 2 ^ 63 \<Longrightarrow> sint (of_int a :: u64) = a"
  by (simp add: signed_of_int signed_take_bit_int_eq_self)

text \<open>\<^verbatim>\<open>v, _ := lookup()\<close>: the value found, or the zero value.\<close>

definition the_default :: "'a \<Rightarrow> 'a option \<Rightarrow> 'a" where
  "the_default d x = (case x of None \<Rightarrow> d | Some y \<Rightarrow> y)"

lemma the_default_simps [simp]: "the_default d None = d" "the_default d (Some y) = y"
  by (simp_all add: the_default_def)

section \<open>Characters\<close>

definition ccode :: "char \<Rightarrow> nat" where
  "ccode c = of_char c"

lemma ccode_char_of [simp]: "n < 256 \<Longrightarrow> ccode (char_of n) = n"
  by (simp add: ccode_def)

lemma ccode_less [simp]: "ccode c < 256"
  by (simp add: ccode_def)

lemma ccode_inj [simp]: "ccode c = ccode d \<longleftrightarrow> c = d"
  by (simp add: ccode_def)

definition is_digit :: "char \<Rightarrow> bool" where
  "is_digit c \<longleftrightarrow> 48 \<le> ccode c \<and> ccode c \<le> 57"

definition is_hex :: "char \<Rightarrow> bool" where
  "is_hex c \<longleftrightarrow> is_digit c \<or> (97 \<le> ccode c \<and> ccode c \<le> 102) \<or> (65 \<le> ccode c \<and> ccode c \<le> 70)"

definition is_alnum :: "char \<Rightarrow> bool" where
  "is_alnum c \<longleftrightarrow> is_digit c \<or> (97 \<le> ccode c \<and> ccode c \<le> 122) \<or> (65 \<le> ccode c \<and> ccode c \<le> 90)"

text \<open>Value of one hexadecimal digit (meaningful under \<open>is_hex\<close>).\<close>

definition hex_val :: "char \<Rightarrow> nat" where
  "hex_val c = (if is_digit c then ccode c - 48
                else if 97 \<le> ccode c then ccode c - 87 else ccode c - 55)"

text \<open>ASCII lower casing; bytes outside \<open>A..Z\<close> are kept.\<close>

definition lower_char :: "char \<Rightarrow> char" where
  "lower_char c = (if 65 \<le> ccode c \<and> ccode c \<le> 90 then char_of (ccode c + 32) else c)"

definition to_lower :: "string \<Rightarrow> string" where
  "to_lower s = map lower_char s"

lemma lower_char_idem [simp]: "lower_char (lower_char c) = lower_char c"
  by (auto simp: lower_char_def)

lemma to_lower_idem [simp]: "to_lower (to_lower s) = to_lower s"
  by (simp add: to_lower_def)

definition equal_fold :: "string \<Rightarrow> string \<Rightarrow> bool" where
  "equal_fold s t \<longleftrightarrow> to_lower s = to_lower t"

section \<open>strings.TrimSpace\<close>

text \<open>
  \<^verbatim>\<open>strings.TrimSpace\<close> removes the runes of Unicode's White\_Space property at both ends.
  On bytes these are six ASCII codes, two two-byte and seventeen three-byte UTF-8 sequences;
  \<open>space2\<close> and \<open>space3\<close> list the latter.
\<close>

definition space1 :: "char \<Rightarrow> bool" where
  "space1 a \<longleftrightarrow> ccode a = 32 \<or> (9 \<le> ccode a \<and> ccode a \<le> 13)"

definition space2 :: "char \<Rightarrow> char \<Rightarrow> bool" where
  "space2 a b \<longleftrightarrow> ccode a = 0xC2 \<and> (ccode b = 0x85 \<or> ccode b = 0xA0)"

definition space3 :: "char \<Rightarrow> char \<Rightarrow> char \<Rightarrow> bool" where
  "space3 a b c \<longleftrightarrow>
     (ccode a = 0xE1 \<and> ccode b = 0x9A \<and> ccode c = 0x80) \<or>
     (ccode a = 0xE2 \<and> ccode b = 0x80 \<and>
        ((0x80 \<le> ccode c \<and> ccode c \<le> 0x8A) \<or> ccode c = 0xA8 \<or> ccode c = 0xA9 \<or> ccode c = 0xAF)) \<or>
     (ccode a = 0xE2 \<and> ccode b = 0x81 \<and> ccode c = 0x9F) \<or>
     (ccode a = 0xE3 \<and> ccode b = 0x80 \<and> ccode c = 0x80)"

text \<open>Drops one leading white-space rune; the reversed string is matched backwards.\<close>

fun strip_left :: "string \<Rightarrow> string option" where
  "strip_left [] = None"
| "strip_left (a # s) =
     (if space1 a then Some s else
        (case s of [] \<Rightarrow> None
         | b # t \<Rightarrow> if space2 a b then Some t else
             (case t of [] \<Rightarrow> None
              | c # u \<Rightarrow> if space3 a b c then Some u else None)))"

fun strip_right :: "string \<Rightarrow> string option" where
  "strip_right [] = None"
| "strip_right (c # s) =
     (if space1 c then Some s else
        (case s of [] \<Rightarrow> None
         | b # t \<Rightarrow> if space2 b c then Some t else
             (case t of [] \<Rightarrow> None
              | a # u \<Rightarrow> if space3 a b c then Some u else None)))"

lemma strip_left_shorter: "strip_left s = Some t \<Longrightarrow> length t < length s"
  by (induction s rule: strip_left.induct) (auto split: if_splits list.splits)

lemma strip_right_shorter: "strip_right s = Some t \<Longrightarrow> length t < length s"
  by (induction s rule: strip_right.induct) (auto split: if_splits list.splits)

function trim_left :: "string \<Rightarrow> string" where
  "trim_left s = (case strip_left s of None \<Rightarrow> s | Some t \<Rightarrow> trim_left t)"
  by pat_completeness auto
termination
  by (relation "measure length") (auto dest: strip_left_shorter simp del: strip_left.simps)

function trim_rev :: "string \<Rightarrow> string" where
  "trim_rev s = (case strip_right s of None \<Rightarrow> s | Some t \<Rightarrow> trim_rev t)"
  by pat_completeness auto
termination
  by (relation "measure length") (auto dest: strip_right_shorter)

declare trim_left.simps [simp del] trim_rev.simps [simp del]

definition trim_space :: "string \<Rightarrow> string" where
  "trim_space s = rev (trim_rev (rev (trim_left s)))"

lemma trim_left_no_space: "strip_left s = None \<Longrightarrow> trim_left s = s"
  by (simp add: trim_left.simps)

lemma strip_left_trim_left [simp]: "strip_left (trim_left s) = None"
proof (induction s rule: trim_left.induct)
  case (1 s)
  then show ?case
    by (cases "strip_left s") (auto simp: trim_left.simps [of s])
qed

lemma strip_right_trim_rev [simp]: "strip_right (trim_rev s) = None"
proof (induction s rule: trim_rev.induct)
  case (1 s)
  then show ?case
    by (cases "strip_right s") (auto simp: trim_rev.simps [of s])
qed

lemma trim_space_plain:
  "strip_left s = None \<Longrightarrow> strip_right (rev s) = None \<Longrightarrow> trim_space s = s"
  by (simp add: trim_space_def trim_left.simps trim_rev.simps)

lemma trim_space_Nil [simp]: "trim_space [] = []"
  by (simp add: trim_space_plain)

lemma strip_left_prefix: "strip_left (s @ t) = None \<Longrightarrow> strip_left s = None"
  by (induction s rule: strip_left.induct) (auto split: if_splits list.splits)

lemma strip_right_suffix: "strip_right s = Some u \<Longrightarrow> \<exists>w. s = w @ u"
  by (induction s rule: strip_right.induct) (auto split: if_splits list.splits intro: exI [of _ "[_]"] exI [of _ "[_, _]"] exI [of _ "[_, _, _]"])

lemma trim_rev_suffix: "\<exists>w. s = w @ trim_rev s"
proof (induction s rule: trim_rev.induct)
  case (1 s)
  show ?case
  proof (cases "strip_right s")
    case (Some u)
    with 1 obtain w v where "s = v @ u" "u = w @ trim_rev u" using strip_right_suffix [OF Some] by blast
    then have "s = (v @ w) @ trim_rev u" by simp
    with Some show ?thesis by (metis option.simps(5) trim_rev.simps)
  qed (simp add: trim_rev.simps [of s])
qed

lemma trim_space_ends_None [simp]:
  "strip_left (trim_space s) = None" "strip_right (rev (trim_space s)) = None"
proof -
  obtain w where "rev (trim_left s) = w @ trim_rev (rev (trim_left s))" using trim_rev_suffix by blast
  then have "trim_left s = trim_space s @ rev w" by (metis rev_append rev_rev_ident trim_space_def)
  then show "strip_left (trim_space s) = None" by (metis strip_left_prefix strip_left_trim_left)
  show "strip_right (rev (trim_space s)) = None" by (simp add: trim_space_def)
qed

lemma trim_space_idem [simp]: "trim_space (trim_space s) = trim_space s"
  by (rule trim_space_plain) simp_all

text \<open>A string of printable ASCII characters, none of them a blank, is its own trim.\<close>

definition plain_char :: "char \<Rightarrow> bool" where
  "plain_char c \<longleftrightarrow> 33 \<le> ccode c \<and> ccode c < 127"

lemma strip_left_plain: "plain_char (hd s) \<Longrightarrow> strip_left s = None"
  by (cases s) (auto simp: plain_char_def space1_def space2_def space3_def split: list.splits)

lemma strip_right_plain: "plain_char (hd s) \<Longrightarrow> strip_right s = None"
  by (cases s) (auto simp: plain_char_def space1_def space2_def space3_def split: list.splits)

lemma trim_space_ends:
  "s \<noteq> [] \<Longrightarrow> plain_char (hd s) \<Longrightarrow> plain_char (last s) \<Longrightarrow> trim_space s = s"
  by (rule trim_space_plain) (auto intro: strip_left_plain strip_right_plain simp: hd_rev)

lemma trim_space_all_plain: "list_all plain_char s \<Longrightarrow> trim_space s = s"
  by (cases "s = []") (auto intro!: trim_space_ends simp: list_all_iff)

text \<open>\<^verbatim>\<open>strings.Fields\<close>: the maximal runs without white space; the current run is reversed.\<close>

function go_fields_acc :: "string \<Rightarrow> string \<Rightarrow> string list" where
  "go_fields_acc acc [] = (if acc = [] then [] else [rev acc])"
| "go_fields_acc acc (c # s) =
     (case strip_left (c # s) of
        Some r \<Rightarrow> (if acc = [] then [] else [rev acc]) @ go_fields_acc [] r
      | None \<Rightarrow> go_fields_acc (c # acc) s)"
  by pat_completeness auto
termination
  by (relation "measure (\<lambda>(acc, s). length s)") (auto dest: strip_left_shorter simp del: strip_left.simps)

definition go_fields :: "string \<Rightarrow> string list" where
  "go_fields s = go_fields_acc [] s"

section \<open>strings.Split, strings.Join, prefixes and containment\<close>

text \<open>\<^verbatim>\<open>strings.Split\<close> at a one-byte separator: always at least one field.\<close>

primrec split_char :: "char \<Rightarrow> string \<Rightarrow> string list" where
  "split_char d [] = [[]]"
| "split_char d (c # s) =
     (if c = d then [] # split_char d s
      else (case split_char d s of [] \<Rightarrow> [[c]] | w # ws \<Rightarrow> (c # w) # ws))"

lemma split_char_not_Nil [simp]: "split_char d s \<noteq> []"
  by (induction s) (auto split: list.splits)

lemma split_char_absent: "d \<notin> set s \<Longrightarrow> split_char d s = [s]"
  by (induction s) auto

lemma split_char_append:
  "d \<notin> set s \<Longrightarrow> split_char d (s @ d # t) = s # split_char d t"
  by (induction s) auto

lemma split_char_fields: "w \<in> set (split_char d s) \<Longrightarrow> d \<notin> set w"
  by (induction s arbitrary: w) (auto split: list.splits if_splits)

primrec join :: "string \<Rightarrow> string list \<Rightarrow> string" where
  "join sep [] = []"
| "join sep (w # ws) = (if ws = [] then w else w @ sep @ join sep ws)"

lemma join_split_char: "join [d] (split_char d s) = s"
  by (induction s) (auto split: list.splits)

lemma split_char_join:
  "ws \<noteq> [] \<Longrightarrow> \<forall>w \<in> set ws. d \<notin> set w \<Longrightarrow> split_char d (join [d] ws) = ws"
  by (induction ws) (auto simp: split_char_absent split_char_append)

definition has_prefix :: "string \<Rightarrow> string \<Rightarrow> bool" where
  "has_prefix s p \<longleftrightarrow> take (length p) s = p"

definition has_suffix :: "string \<Rightarrow> string \<Rightarrow> bool" where
  "has_suffix s p \<longleftrightarrow> has_prefix (rev s) (rev p)"

fun contains_str :: "string \<Rightarrow> string \<Rightarrow> bool" where
  "contains_str [] p = (p = [])"
| "contains_str (c # s) p = (has_prefix (c # s) p \<or> contains_str s p)"

text \<open>
  \<^verbatim>\<open>strings.Split\<close> at a separator of any length: the leftmost occurrence ends the
  current field (\<open>acc\<close>, reversed), and scanning goes on behind it.
\<close>

function split_str_acc :: "string \<Rightarrow> string \<Rightarrow> string \<Rightarrow> string list" where
  "split_str_acc sep acc [] = [rev acc]"
| "split_str_acc sep acc (c # s) =
     (if sep \<noteq> [] \<and> has_prefix (c # s) sep
      then rev acc # split_str_acc sep [] (drop (length sep) (c # s))
      else split_str_acc sep (c # acc) s)"
  by pat_completeness auto
termination
  by (relation "measure (\<lambda>(sep, acc, s). length s)") auto

definition split_str :: "string \<Rightarrow> string \<Rightarrow> string list" where
  "split_str s sep = split_str_acc sep [] s"

text \<open>\<^verbatim>\<open>strings.IndexByte\<close> and \<^verbatim>\<open>LastIndexByte\<close>, as options.\<close>

fun index_byte :: "string \<Rightarrow> char \<Rightarrow> nat option" where
  "index_byte [] d = None"
| "index_byte (c # s) d = (if c = d then Some 0 else map_option Suc (index_byte s d))"

definition last_index_byte :: "string \<Rightarrow> char \<Rightarrow> nat option" where
  "last_index_byte s d = map_option (\<lambda>i. length s - 1 - i) (index_byte (rev s) d)"

lemma index_byte_None [simp]: "index_byte s d = None \<longleftrightarrow> d \<notin> set s"
  by (induction s) auto

lemma index_byte_append: "d \<notin> set s \<Longrightarrow> index_byte (s @ d # t) d = Some (length s)"
  by (induction s) auto

lemma index_byte_Some: "index_byte s d = Some i \<Longrightarrow> i < length s \<and> s ! i = d \<and> d \<notin> set (take i s)"
  by (induction s arbitrary: i) (auto split: if_splits)

lemma last_index_byte_append:
  "d \<notin> set t \<Longrightarrow> last_index_byte (s @ d # t) d = Some (length s)"
  by (simp add: last_index_byte_def index_byte_append)

text \<open>\<^verbatim>\<open>strings.Trim(s, "[]")\<close>: brackets at both ends.\<close>

definition trim_brackets :: "string \<Rightarrow> string" where
  "trim_brackets s =
     (let b = (\<lambda>c. c = CHR ''['' \<or> c = CHR '']'') in
      rev (dropWhile b (rev (dropWhile b s))))"

section \<open>Numbers in decimal\<close>

fun nat_dec :: "nat \<Rightarrow> string" where
  "nat_dec n = (if n < 10 then [char_of (48 + n)]
                else nat_dec (n div 10) @ [char_of (48 + n mod 10)])"

declare nat_dec.simps [simp del]

definition digits_val :: "string \<Rightarrow> nat" where
  "digits_val s = foldl (\<lambda>a c. a * 10 + (ccode c - 48)) 0 s"

lemma digits_val_snoc: "digits_val (s @ [c]) = digits_val s * 10 + (ccode c - 48)"
  by (simp add: digits_val_def)

lemma digits_val_nat_dec [simp]: "digits_val (nat_dec n) = n"
proof (induction n rule: nat_dec.induct)
  case (1 n)
  then show ?case
    by (cases "n < 10") (simp_all add: nat_dec.simps [of n] digits_val_snoc, simp add: digits_val_def)
qed

lemma nat_dec_digits: "list_all is_digit (nat_dec n)"
proof (induction n rule: nat_dec.induct)
  case (1 n)
  then show ?case by (cases "n < 10") (simp_all add: nat_dec.simps [of n] is_digit_def)
qed

lemma nat_dec_not_Nil [simp]: "nat_dec n \<noteq> []"
  by (simp add: nat_dec.simps)

lemma nat_dec_inj [simp]: "nat_dec m = nat_dec n \<longleftrightarrow> m = n"
  by (metis digits_val_nat_dec)

lemma nat_dec_hd: "hd (nat_dec n) = CHR ''0'' \<Longrightarrow> n = 0"
proof (induction n rule: nat_dec.induct)
  case (1 n)
  show ?case
  proof (cases "n < 10")
    case True
    with "1.prems" have "ccode (char_of (48 + n)) = ccode CHR ''0''"
      by (simp add: nat_dec.simps)
    with True show ?thesis by (simp add: ccode_def)
  next
    case False
    with "1.prems" have "hd (nat_dec (n div 10)) = CHR ''0''"
      by (simp add: nat_dec.simps [of n])
    with False have "n div 10 = 0" using "1.IH" by blast
    with False show ?thesis by simp
  qed
qed

lemma nat_dec_no_char: "\<not> is_digit c \<Longrightarrow> c \<notin> set (nat_dec n)"
  using nat_dec_digits [of n] by (auto simp: list_all_iff)

lemma is_digit_plain: "is_digit c \<Longrightarrow> plain_char c"
  by (simp add: is_digit_def plain_char_def)

datatype num_error = ErrSyntax | ErrRange

text \<open>
  The loop of \<^verbatim>\<open>strconv.ParseUint\<close>.  Go returns a value next to the error, and callers that
  drop the error use it: 0 on a syntax error, the largest value of the width on overflow.
\<close>

fun parse_uint_loop :: "nat \<Rightarrow> nat \<Rightarrow> nat \<Rightarrow> string \<Rightarrow> nat \<times> num_error option" where
  "parse_uint_loop base mx acc [] = (acc, None)"
| "parse_uint_loop base mx acc (c # s) =
     (if \<not> (is_hex c \<and> hex_val c < base) then (0, Some ErrSyntax)
      else let n = acc * base + hex_val c in
           if mx < n then (mx, Some ErrRange) else parse_uint_loop base mx n s)"

definition parse_uint :: "nat \<Rightarrow> nat \<Rightarrow> string \<Rightarrow> nat \<times> num_error option" where
  "parse_uint base bits s =
     (if s = [] then (0, Some ErrSyntax) else parse_uint_loop base (2 ^ bits - 1) 0 s)"

definition parse_int :: "string \<Rightarrow> int \<times> num_error option" where
  "parse_int s =
     (if s = [] then (0, Some ErrSyntax)
      else let neg = (hd s = CHR ''-'');
               t = (if hd s = CHR ''+'' \<or> hd s = CHR ''-'' then tl s else s);
               r = parse_uint 10 64 t; un = int (fst r) in
           if snd r = Some ErrSyntax then (0, Some ErrSyntax)
           else if \<not> neg \<and> 2 ^ 63 \<le> un then (2 ^ 63 - 1, Some ErrRange)
           else if neg \<and> 2 ^ 63 < un then (- (2 ^ 63), Some ErrRange)
           else ((if neg then - un else un), None))"

lemma parse_uint_loop_digits:
  "list_all is_digit s \<Longrightarrow> foldl (\<lambda>a c. a * 10 + (ccode c - 48)) acc s \<le> mx \<Longrightarrow>
   parse_uint_loop 10 mx acc s = (foldl (\<lambda>a c. a * 10 + (ccode c - 48)) acc s, None)"
proof (induction s arbitrary: acc)
  case Nil
  then show ?case by simp
next
  case (Cons c s)
  have grow: "a \<le> foldl (\<lambda>a c. a * 10 + (ccode c - 48)) a s" for a :: nat
  proof (induction s arbitrary: a)
    case (Cons d t)
    have "a \<le> a * 10 + (ccode d - 48)" by simp
    also have "\<dots> \<le> foldl (\<lambda>a c. a * 10 + (ccode c - 48)) (a * 10 + (ccode d - 48)) t"
      by (rule Cons.IH)
    finally show ?case by simp
  qed simp
  have "acc * 10 + (ccode c - 48) \<le> mx"
    by (rule le_trans [OF grow]) (use Cons.prems(2) in simp)
  with Cons show ?case by (auto simp: is_hex_def hex_val_def is_digit_def Let_def)
qed

lemma parse_uint_nat_dec:
  "n < 2 ^ bits \<Longrightarrow> parse_uint 10 bits (nat_dec n) = (n, None)"
proof -
  assume n: "n < 2 ^ bits"
  have v: "foldl (\<lambda>a c. a * 10 + (ccode c - 48)) 0 (nat_dec n) = n"
    using digits_val_nat_dec [of n] by (simp only: digits_val_def)
  from n have "n \<le> 2 ^ bits - 1" by linarith
  with parse_uint_loop_digits [OF nat_dec_digits, of 0 n "2 ^ bits - 1"]
  have "parse_uint_loop 10 (2 ^ bits - 1) 0 (nat_dec n) = (n, None)" by (simp only: v)
  then show ?thesis by (simp add: parse_uint_def)
qed

lemma parse_uint_loop_bound:
  "acc \<le> mx \<Longrightarrow> fst (parse_uint_loop base mx acc s) \<le> mx"
  by (induction base mx acc s rule: parse_uint_loop.induct) (auto simp: Let_def)

lemma parse_uint_bound: "fst (parse_uint base bits s) < 2 ^ bits"
proof -
  have "fst (parse_uint base bits s) \<le> 2 ^ bits - 1"
    using parse_uint_loop_bound [of 0 "2 ^ bits - 1" base s] by (simp add: parse_uint_def)
  also have "\<dots> < 2 ^ bits" by simp
  finally show ?thesis .
qed

text \<open>
  \<^verbatim>\<open>%q\<close> (\<^verbatim>\<open>strconv.Quote\<close>) on ASCII text: double quotes, backslashes and control
  codes are escaped.  Bytes from \<open>0x80\<close> on are copied, as Go does for printable UTF-8.
\<close>

definition quote_char :: "char \<Rightarrow> string" where
  "quote_char c =
     (let n = ccode c; bs = char_of (92 :: nat) in
      if n = 34 \<or> n = 92 then [bs, c]
      else if n = 7 then [bs, CHR ''a''] else if n = 8 then [bs, CHR ''b'']
      else if n = 12 then [bs, CHR ''f''] else if n = 10 then [bs, CHR ''n'']
      else if n = 13 then [bs, CHR ''r''] else if n = 9 then [bs, CHR ''t'']
      else if n = 11 then [bs, CHR ''v'']
      else if n < 32 \<or> n = 127 then
        [bs, CHR ''x'', char_of (48 + n div 16),
         char_of (if n mod 16 < 10 then 48 + n mod 16 else 87 + n mod 16)]
      else [c])"

definition go_quote :: "string \<Rightarrow> string" where
  "go_quote s = [char_of (34 :: nat)] @ concat (map quote_char s) @ [char_of (34 :: nat)]"

text \<open>A text between single quotes, which HOL strings cannot spell directly.\<close>

definition sq :: "string \<Rightarrow> string" where
  "sq s = [char_of (39 :: nat)] @ s @ [char_of (39 :: nat)]"

section \<open>Order-preserving removal of duplicates\<close>

text \<open>
  The loop \<^verbatim>\<open>if !seen[x] { seen[x] = true; out = append(out, x) }\<close> with its \<open>seen\<close> set.
\<close>

fun dedup_seen :: "'a list \<Rightarrow> 'a list \<Rightarrow> 'a list" where
  "dedup_seen seen [] = []"
| "dedup_seen seen (x # xs) =
     (if x \<in> set seen then dedup_seen seen xs else x # dedup_seen (x # seen) xs)"

definition dedup :: "'a list \<Rightarrow> 'a list" where
  "dedup xs = dedup_seen [] xs"

lemma set_dedup_seen: "set (dedup_seen seen xs) = set xs - set seen"
  by (induction seen xs rule: dedup_seen.induct) auto

lemma distinct_dedup_seen: "distinct (dedup_seen seen xs)"
  by (induction seen xs rule: dedup_seen.induct) (auto simp: set_dedup_seen)

lemma set_dedup [simp]: "set (dedup xs) = set xs"
  by (simp add: dedup_def set_dedup_seen)

lemma distinct_dedup [simp]: "distinct (dedup xs)"
  by (simp add: dedup_def distinct_dedup_seen)

lemma dedup_Nil [simp]: "dedup [] = []"
  by (simp add: dedup_def)

lemma dedup_eq_Nil [simp]: "dedup xs = [] \<longleftrightarrow> xs = []"
  by (metis set_dedup set_empty2 empty_set)

text \<open>\<^verbatim>\<open>strings.FieldsFunc\<close> for a test of single bytes.\<close>

fun fields_func :: "(char \<Rightarrow> bool) \<Rightarrow> string \<Rightarrow> string \<Rightarrow> string list" where
  "fields_func sep acc [] = (if acc = [] then [] else [rev acc])"
| "fields_func sep acc (c # s) =
     (if sep c then (if acc = [] then fields_func sep [] s else rev acc # fields_func sep [] s)
      else fields_func sep (c # acc) s)"

section \<open>Slices searched and edited through a pointer\<close>

text \<open>
  \<^verbatim>\<open>for i := range xs { if P(xs[i]) { return &xs[i] } }\<close> followed by an assignment
  through the pointer changes the first matching element only.
\<close>

primrec upd_first :: "('a \<Rightarrow> bool) \<Rightarrow> ('a \<Rightarrow> 'a) \<Rightarrow> 'a list \<Rightarrow> 'a list" where
  "upd_first P f [] = []"
| "upd_first P f (x # xs) = (if P x then f x # xs else x # upd_first P f xs)"

text \<open>\<^verbatim>\<open>append(xs[:i], xs[i+1:]...)\<close> at the first match.\<close>

primrec del_first :: "('a \<Rightarrow> bool) \<Rightarrow> 'a list \<Rightarrow> 'a list" where
  "del_first P [] = []"
| "del_first P (x # xs) = (if P x then xs else x # del_first P xs)"

lemma length_upd_first [simp]: "length (upd_first P f xs) = length xs"
  by (induction xs) auto

lemma upd_first_id: "find P xs = None \<Longrightarrow> upd_first P f xs = xs"
  by (induction xs) (auto split: if_splits)

lemma map_upd_first_same [ids_simps]:
  "(\<And>x. g (f x) = g x) \<Longrightarrow> map g (upd_first P f xs) = map g xs"
  by (induction xs) auto

lemma set_upd_first: "set (upd_first P f xs) \<subseteq> f ` set xs \<union> set xs"
  by (induction xs) auto

lemma set_del_first: "set (del_first P xs) \<subseteq> set xs"
  by (induction xs) auto

lemma find_upd_first:
  "(\<And>x. P x \<Longrightarrow> P (f x)) \<Longrightarrow> find P (upd_first P f xs) = map_option f (find P xs)"
  by (induction xs) auto

lemma distinct_map_del_first [ids_simps]: "distinct (map g xs) \<Longrightarrow> distinct (map g (del_first P xs))"
  by (induction xs) (auto dest: set_del_first [THEN subsetD])

text \<open>
  Interface of the lookup functions: \<open>key\<close> is the field compared, \<open>norm\<close> what the
  comparison does to the requested key (the identity, or lower casing).
\<close>

locale keyed_lookup =
  fixes key :: "'a \<Rightarrow> 'k" and norm :: "'k \<Rightarrow> 'k" and lookup :: "'a list \<Rightarrow> 'k \<Rightarrow> 'a option"
  assumes lookup_Nil: "lookup [] k = None"
    and lookup_Cons: "lookup (x # xs) k = (if key x = norm k then Some x else lookup xs k)"
begin

lemma lookup_find: "lookup xs k = find (\<lambda>x. key x = norm k) xs"
  by (induction xs) (auto simp: lookup_Nil lookup_Cons)

lemma lookup_SomeD: "lookup xs k = Some x \<Longrightarrow> x \<in> set xs \<and> key x = norm k"
  by (auto simp: lookup_find find_Some_iff)

lemma lookup_None_iff: "lookup xs k = None \<longleftrightarrow> norm k \<notin> key ` set xs"
  by (force simp: lookup_find find_None_iff)

lemma lookup_distinct:
  "distinct (map key xs) \<Longrightarrow> x \<in> set xs \<Longrightarrow> norm k = key x \<Longrightarrow> lookup xs k = Some x"
  by (induction xs) (auto simp: lookup_Cons)

lemma lookup_append:
  "lookup (xs @ ys) k = (case lookup xs k of None \<Rightarrow> lookup ys k | Some x \<Rightarrow> Some x)"
  by (induction xs) (auto simp: lookup_Nil lookup_Cons)

lemma lookup_upd:
  assumes "\<And>x. key (f x) = key x"
  shows "lookup (upd_first (\<lambda>x. key x = norm j) f xs) k =
    (if norm k = norm j then map_option f (lookup xs k) else lookup xs k)"
  using assms by (induction xs) (auto simp: lookup_Nil lookup_Cons)

lemma lookup_del_distinct:
  "distinct (map key xs) \<Longrightarrow>
   lookup (del_first (\<lambda>x. key x = norm j) xs) k = (if norm k = norm j then None else lookup xs k)"
  by (induction xs) (auto simp: lookup_Nil lookup_Cons lookup_None_iff)

end

section \<open>The least unused number\<close>

text \<open>\<^verbatim>\<open>for id := base; ; id++ { if !used[id] { return id } }\<close>\<close>

function next_free :: "nat list \<Rightarrow> nat \<Rightarrow> nat" where
  "next_free used i = (if i \<notin> set used then i else next_free used (i + 1))"
  by pat_completeness auto
termination
proof (relation "measure (\<lambda>(used, i). card {x \<in> set used. i \<le> x})")
  fix used :: "nat list" and i
  assume "\<not> i \<notin> set used"
  then have "i \<in> {x \<in> set used. i \<le> x}" "i \<notin> {x \<in> set used. i + 1 \<le> x}" by auto
  moreover have "{x \<in> set used. i + 1 \<le> x} \<subseteq> {x \<in> set used. i \<le> x}" by auto
  ultimately have "{x \<in> set used. i + 1 \<le> x} \<subset> {x \<in> set used. i \<le> x}" by blast
  moreover have "finite {x \<in> set used. i \<le> x}" by simp
  ultimately show "((used, i + 1), used, i) \<in> measure (\<lambda>(used, i). card {x \<in> set used. i \<le> x})"
    by (simp add: psubset_card_mono del: finite_Collect_conjI)
qed simp

declare next_free.simps [simp del]

lemma next_free_least:
  "i \<le> next_free used i \<and> next_free used i \<notin> set used \<and> {i..<next_free used i} \<subseteq> set used"
proof (induction used i rule: next_free.induct)
  case (1 used i)
  show ?case
  proof (cases "i \<in> set used")
    case True
    have "{i..<next_free used i} = insert i {i + 1..<next_free used (i + 1)}"
      using True 1 by (auto simp: next_free.simps [of used i])
    with True 1 show ?thesis by (simp add: next_free.simps [of used i])
  qed (simp add: next_free.simps)
qed

text \<open>Interface of the allocators of routing tables: the least unused number from a base on.\<close>

locale id_allocator =
  fixes base :: nat and used :: "'s \<Rightarrow> nat list" and alloc :: "'s \<Rightarrow> nat"
  assumes least: "base \<le> alloc s \<and> alloc s \<notin> set (used s) \<and> {base..<alloc s} \<subseteq> set (used s)"
begin

lemma alloc_fresh: "alloc s \<notin> set (used s)"
  using least by blast

lemma alloc_bound: "alloc s \<le> base + length (used s)"
proof -
  have "alloc s - base = card {base..<alloc s}" by simp
  also have "\<dots> \<le> card (set (used s))" using least [of s] by (intro card_mono) auto
  also have "\<dots> \<le> length (used s)" by (rule card_length)
  finally show ?thesis by simp
qed

lemma alloc_unique: "base \<le> i \<Longrightarrow> i \<notin> set (used s) \<Longrightarrow> {base..<i} \<subseteq> set (used s) \<Longrightarrow> i = alloc s"
  using least [of s] by (metis atLeastLessThan_iff linorder_neqE_nat subset_eq)

end

end
