(* ===== verification/GoNet.thy ===== *)
theory GoNet
  imports Prelude
begin

text \<open>
  The part of Go's \<^verbatim>\<open>net\<close> package the program relies on, as executable functions:
  \<^verbatim>\<open>ParseIP\<close>, \<^verbatim>\<open>ParseCIDR\<close>, \<^verbatim>\<open>IP.String\<close>, \<^verbatim>\<open>IP.To4\<close>,
  \<^verbatim>\<open>IPNet.Contains\<close>, \<^verbatim>\<open>IPNet.String\<close> and \<^verbatim>\<open>SplitHostPort\<close>.  A
  \<^verbatim>\<open>net.IP\<close> is a list of 4 or 16 bytes; IPv4 addresses come out of the parsers in the
  16-byte form with the prefix \<^verbatim>\<open>::ffff\<close>, as in Go.  Every \<^verbatim>\<open>IPMask\<close> of the
  program comes from \<^verbatim>\<open>CIDRMask\<close>, so a network keeps its mask as the pair that
  \<^verbatim>\<open>Mask.Size\<close> returns.  The lemmas are the round trips of printing and parsing and the
  membership facts the components use.
\<close>

section \<open>Addresses\<close>

definition v4_in_v6 :: "byte list" where
  "v4_in_v6 = replicate 10 0 @ [255, 255]"

definition to4 :: "byte list \<Rightarrow> byte list option" where
  "to4 ip = (if length ip = 4 then Some ip
             else if length ip = 16 \<and> take 12 ip = v4_in_v6 then Some (drop 12 ip) else None)"

lemma length_v4_in_v6 [simp]: "length v4_in_v6 = 12"
  by (simp add: v4_in_v6_def)

lemma to4_v4 [simp]: "length b = 4 \<Longrightarrow> to4 b = Some b"
  by (simp add: to4_def)

lemma to4_mapped [simp]: "length b = 4 \<Longrightarrow> to4 (v4_in_v6 @ b) = Some b"
  by (simp add: to4_def)

lemma to4_length: "to4 ip = Some b \<Longrightarrow> length b = 4"
  by (auto simp: to4_def split: if_splits)

subsection \<open>Parsing (netip.ParseAddr, net.ParseIP)\<close>

definition parse_octet :: "string \<Rightarrow> byte option" where
  "parse_octet s =
     (if s \<noteq> [] \<and> list_all is_digit s \<and> (hd s = CHR ''0'' \<longrightarrow> length s = 1) \<and> digits_val s \<le> 255
      then Some (of_nat (digits_val s)) else None)"

definition parse_v4 :: "string \<Rightarrow> byte list option" where
  "parse_v4 s =
     (case split_char CHR ''.'' s of
        [a, b, c, d] \<Rightarrow>
          (case (parse_octet a, parse_octet b, parse_octet c, parse_octet d) of
             (Some a', Some b', Some c', Some d') \<Rightarrow> Some [a', b', c', d'] | _ \<Rightarrow> None)
      | _ \<Rightarrow> None)"

definition hex_group :: "string \<Rightarrow> nat" where
  "hex_group ds = foldl (\<lambda>a c. a * 16 + hex_val c) 0 ds"

definition group_bytes :: "nat \<Rightarrow> byte list" where
  "group_bytes n = [of_nat (n div 256), of_nat (n mod 256)]"

text \<open>
  The loop of \<^verbatim>\<open>parseIPv6\<close>: the remaining text, the bytes so far and the position of the
  ellipsis; the result also carries the text that was not consumed.
\<close>

function v6_loop :: "string \<Rightarrow> byte list \<Rightarrow> nat option \<Rightarrow> (byte list \<times> nat option \<times> string) option" where
  "v6_loop s ip ell =
     (if 16 \<le> length ip then Some (ip, ell, s)
      else let ds = takeWhile is_hex s; rest = dropWhile is_hex s; ip' = ip @ group_bytes (hex_group ds) in
        if ds = [] \<or> 4 < length ds then None
        else (case rest of
            [] \<Rightarrow> Some (ip', ell, [])
          | c # t \<Rightarrow>
              if c = CHR ''.'' then
                (if (ell = None \<and> length ip \<noteq> 12) \<or> 16 < length ip + 4 then None
                 else (case parse_v4 s of None \<Rightarrow> None | Some b \<Rightarrow> Some (ip @ b, ell, [])))
              else if c \<noteq> CHR '':'' then None
              else (case t of
                  [] \<Rightarrow> None
                | d # u \<Rightarrow>
                    if d = CHR '':'' then
                      (if ell \<noteq> None then None
                       else if u = [] then Some (ip', Some (length ip'), [])
                       else v6_loop u ip' (Some (length ip')))
                    else v6_loop t ip' ell)))"
  by pat_completeness auto
termination
  by (relation "measure (\<lambda>(s, ip, ell). 16 - length ip)") (auto simp: group_bytes_def)

declare v6_loop.simps [simp del]

definition v6_expand :: "byte list \<times> nat option \<times> string \<Rightarrow> byte list option" where
  "v6_expand r =
     (case r of (ip, ell, rest) \<Rightarrow>
        if rest \<noteq> [] then None
        else if length ip < 16 then
          (case ell of None \<Rightarrow> None
           | Some e \<Rightarrow> Some (take e ip @ replicate (16 - length ip) 0 @ drop e ip))
        else if ell \<noteq> None then None else Some ip)"

definition parse_v6_body :: "string \<Rightarrow> byte list option" where
  "parse_v6_body s =
     (if has_prefix s ''::'' then
        (if s = ''::'' then Some (replicate 16 0)
         else Option.bind (v6_loop (drop 2 s) [] (Some 0)) v6_expand)
      else Option.bind (v6_loop s [] None) v6_expand)"

text \<open>An address of \<^verbatim>\<open>netip\<close>: 4 bytes, or 16 bytes with a zone.\<close>

datatype naddr = A4 "byte list" | A6 "byte list" string

definition parse_v6 :: "string \<Rightarrow> naddr option" where
  "parse_v6 s =
     (case index_byte s CHR ''%'' of
        None \<Rightarrow> map_option (\<lambda>b. A6 b []) (parse_v6_body s)
      | Some i \<Rightarrow> if drop (i + 1) s = [] then None
                  else map_option (\<lambda>b. A6 b (drop (i + 1) s)) (parse_v6_body (take i s)))"

fun first_mark :: "string \<Rightarrow> char option" where
  "first_mark [] = None"
| "first_mark (c # s) =
     (if c = CHR ''.'' \<or> c = CHR '':'' \<or> c = CHR ''%'' then Some c else first_mark s)"

definition parse_addr :: "string \<Rightarrow> naddr option" where
  "parse_addr s =
     (if first_mark s = Some CHR ''.'' then map_option A4 (parse_v4 s)
      else if first_mark s = Some CHR '':'' then parse_v6 s else None)"

fun as16 :: "naddr \<Rightarrow> byte list" where
  "as16 (A4 b) = v4_in_v6 @ b"
| "as16 (A6 b z) = b"

fun zone :: "naddr \<Rightarrow> string" where
  "zone (A4 b) = []"
| "zone (A6 b z) = z"

fun bit_len :: "naddr \<Rightarrow> nat" where
  "bit_len (A4 b) = 32"
| "bit_len (A6 b z) = 128"

definition parse_ip :: "string \<Rightarrow> byte list option" where
  "parse_ip s =
     (case parse_addr s of None \<Rightarrow> None | Some a \<Rightarrow> if zone a = [] then Some (as16 a) else None)"

section \<open>Networks\<close>

record ipnet =
  net_ip :: "byte list"
  net_ones :: nat
  net_bits :: nat

fun mask_bytes :: "nat \<Rightarrow> nat \<Rightarrow> byte list" where
  "mask_bytes n 0 = []"
| "mask_bytes n (Suc l) =
     (if 8 \<le> n then 255 # mask_bytes (n - 8) l else NOT (drop_bit n 255) # mask_bytes 0 l)"

text \<open>\<^verbatim>\<open>net.CIDRMask\<close> and \<^verbatim>\<open>IP.Mask\<close>.\<close>

definition cidr_mask :: "nat \<Rightarrow> nat \<Rightarrow> byte list" where
  "cidr_mask ones bits = mask_bytes ones (bits div 8)"

definition and_bytes :: "byte list \<Rightarrow> byte list \<Rightarrow> byte list" where
  "and_bytes a b = map2 (AND) a b"

definition ip_mask :: "byte list \<Rightarrow> byte list \<Rightarrow> byte list" where
  "ip_mask ip m =
     (if length m = 4 \<and> length ip = 16 \<and> take 12 ip = v4_in_v6 then and_bytes (drop 12 ip) m
      else and_bytes ip m)"

definition net_mask :: "ipnet \<Rightarrow> byte list" where
  "net_mask n = cidr_mask (net_ones n) (net_bits n)"

text \<open>\<^verbatim>\<open>net.ParseCIDR\<close>: the address as written, and the masked network.\<close>

definition parse_cidr :: "string \<Rightarrow> (byte list \<times> ipnet) option" where
  "parse_cidr s =
     (case index_byte s CHR ''/'' of
        None \<Rightarrow> None
      | Some i \<Rightarrow>
          let m = drop (i + 1) s in
          (case parse_addr (take i s) of
             None \<Rightarrow> None
           | Some a \<Rightarrow>
               if zone a \<noteq> [] \<or> m = [] \<or> \<not> list_all is_digit m \<or> bit_len a < digits_val m then None
               else Some (as16 a,
                 \<lparr>net_ip = ip_mask (as16 a) (cidr_mask (digits_val m) (bit_len a)),
                  net_ones = digits_val m, net_bits = bit_len a\<rparr>)))"

text \<open>
  \<^verbatim>\<open>networkNumberAndMask\<close>: an IPv4 number is taken in its 4-byte form, and a 16-byte mask
  then loses its first 12 bytes (with a canonical mask of at least 96 ones, because the
  \<^verbatim>\<open>ffff\<close> of the prefix survived it).
\<close>

definition number_and_mask :: "ipnet \<Rightarrow> (byte list \<times> byte list \<times> nat) option" where
  "number_and_mask n =
     (case to4 (net_ip n) of
        Some b \<Rightarrow> if net_bits n = 32 then Some (b, net_mask n, net_ones n)
                  else Some (b, drop 12 (net_mask n), net_ones n - 96)
      | None \<Rightarrow> if length (net_ip n) = 16 \<and> net_bits n = 128
                then Some (net_ip n, net_mask n, net_ones n) else None)"

definition net_contains :: "ipnet \<Rightarrow> byte list \<Rightarrow> bool" where
  "net_contains n ip =
     (case number_and_mask n of
        None \<Rightarrow> False
      | Some (nn, m, ones) \<Rightarrow>
          let x = (case to4 ip of Some b \<Rightarrow> b | None \<Rightarrow> ip) in
          length x = length nn \<and> and_bytes nn m = and_bytes x m)"

section \<open>Printing\<close>

definition hex_digit :: "nat \<Rightarrow> char" where
  "hex_digit d = char_of (if d < 10 then 48 + d else 87 + d)"

fun nat_hex :: "nat \<Rightarrow> string" where
  "nat_hex n = (if n < 16 then [hex_digit n] else nat_hex (n div 16) @ [hex_digit (n mod 16)])"

declare nat_hex.simps [simp del]

definition v4_string :: "byte list \<Rightarrow> string" where
  "v4_string b = join ''.'' (map (\<lambda>x. nat_dec (unat x)) b)"

fun v6_groups :: "byte list \<Rightarrow> nat list" where
  "v6_groups (a # b # r) = (unat a * 256 + unat b) # v6_groups r"
| "v6_groups _ = []"

text \<open>
  \<^verbatim>\<open>appendTo6\<close> looks for the leftmost longest run of at least two zero groups.
  \<open>zero_run\<close> is the length of the run that starts a list.
\<close>

definition zero_run :: "nat list \<Rightarrow> nat" where
  "zero_run gs = length (takeWhile (\<lambda>g. g = 0) gs)"

fun best_run :: "nat \<Rightarrow> nat list \<Rightarrow> nat \<times> nat \<Rightarrow> nat \<times> nat" where
  "best_run i [] best = best"
| "best_run i (g # gs) best =
     (let l = zero_run (g # gs) in
      best_run (Suc i) gs (if 2 \<le> l \<and> snd best < l then (i, l) else best))"

definition v6_string :: "byte list \<Rightarrow> string" where
  "v6_string b =
     (let gs = v6_groups b; r = best_run 0 gs (0, 0) in
      if snd r = 0 then join '':'' (map nat_hex gs)
      else join '':'' (map nat_hex (take (fst r) gs)) @ ''::'' @
           join '':'' (map nat_hex (drop (fst r + snd r) gs)))"

definition ip_string :: "byte list \<Rightarrow> string" where
  "ip_string ip =
     (if ip = [] then ''<nil>''
      else case to4 ip of Some b \<Rightarrow> v4_string b
        | None \<Rightarrow> if length ip = 16 then v6_string ip
                  else ''?'' @ concat (map (\<lambda>x. [hex_digit (unat x div 16), hex_digit (unat x mod 16)]) ip))"

definition ipnet_string :: "ipnet \<Rightarrow> string" where
  "ipnet_string n =
     (case number_and_mask n of
        None \<Rightarrow> ''<nil>''
      | Some (nn, m, ones) \<Rightarrow> ip_string nn @ ''/'' @ nat_dec ones)"

section \<open>net.SplitHostPort\<close>

definition split_host_port :: "string \<Rightarrow> (string \<times> string) option" where
  "split_host_port hp =
     (case last_index_byte hp CHR '':'' of
        None \<Rightarrow> None
      | Some i \<Rightarrow>
          if hd hp = CHR ''['' then
            (case index_byte hp CHR '']'' of
               None \<Rightarrow> None
             | Some e \<Rightarrow>
                 if e + 1 \<noteq> i \<or> CHR ''['' \<in> set (drop 1 hp) \<or> CHR '']'' \<in> set (drop (e + 1) hp)
                 then None
                 else Some (take (e - 1) (drop 1 hp), drop (i + 1) hp))
          else if CHR '':'' \<in> set (take i hp) \<or> CHR ''['' \<in> set hp \<or> CHR '']'' \<in> set hp then None
          else Some (take i hp, drop (i + 1) hp))"

section \<open>Round trip of IPv4 text\<close>

lemma unat_byte [simp]: "unat (x :: byte) < 256"
  using unsigned_less [of x, where 'a = nat] by simp

lemma parse_octet_nat_dec: "parse_octet (nat_dec (unat x)) = Some (x :: byte)"
proof -
  have "unat x \<le> 255" using unat_byte [of x] by linarith
  moreover have "length (nat_dec (unat x)) = 1" if "hd (nat_dec (unat x)) = CHR ''0''"
    using nat_dec_hd [OF that] by (simp add: nat_dec.simps)
  ultimately show ?thesis by (simp add: parse_octet_def nat_dec_digits)
qed

lemma length_4E:
  assumes "length b = 4" obtains w x y z where "b = [w, x, y, z]"
  using assms by (auto simp: length_Suc_conv eval_nat_numeral)

lemma dot_not_digit [simp]: "\<not> is_digit CHR ''.''" "\<not> is_digit CHR '':''" "\<not> is_digit CHR ''/''" "\<not> is_digit CHR ''%''"
  by (simp_all add: is_digit_def ccode_def)

lemma parse_v4_string: "length b = 4 \<Longrightarrow> parse_v4 (v4_string b) = Some b"
proof (erule length_4E)
  fix w x y z assume b: "b = [w, x, y, z]"
  have "split_char CHR ''.'' (v4_string b) = map (\<lambda>x. nat_dec (unat x)) b"
    unfolding v4_string_def b by (rule split_char_join) (auto intro!: nat_dec_no_char)
  then show ?thesis by (simp add: parse_v4_def b parse_octet_nat_dec)
qed

lemma first_mark_append:
  "list_all is_hex s \<Longrightarrow> c \<in> {CHR ''.'', CHR '':'', CHR ''%''} \<Longrightarrow> first_mark (s @ c # t) = Some c"
  by (induction s) (auto simp: is_hex_def is_digit_def ccode_def)

lemma digit_hex: "list_all is_digit s \<Longrightarrow> list_all is_hex s"
  by (simp add: list_all_iff is_hex_def)

lemma parse_addr_v4_string: "length b = 4 \<Longrightarrow> parse_addr (v4_string b) = Some (A4 b)"
proof -
  assume l: "length b = 4"
  then obtain w x y z where b: "b = [w, x, y, z]" by (rule length_4E)
  have "first_mark (v4_string b) = Some CHR ''.''"
    unfolding v4_string_def b by (simp add: first_mark_append digit_hex nat_dec_digits)
  with l show ?thesis by (simp add: parse_addr_def parse_v4_string)
qed

lemma v4_string_chars: "length b = 4 \<Longrightarrow> c \<in> set (v4_string b) \<Longrightarrow> is_digit c \<or> c = CHR ''.''"
  by (erule length_4E) (use nat_dec_digits in \<open>auto simp: v4_string_def list_all_iff\<close>)

lemma ip_string_v4: "length b = 4 \<Longrightarrow> ip_string b = v4_string b"
  by (auto simp: ip_string_def)

lemma ip_string_mapped: "length b = 4 \<Longrightarrow> ip_string (v4_in_v6 @ b) = v4_string b"
  by (auto simp: ip_string_def)

lemma parse_ip_v4_string: "length b = 4 \<Longrightarrow> parse_ip (v4_string b) = Some (v4_in_v6 @ b)"
  by (simp add: parse_ip_def parse_addr_v4_string)

lemma length_mask_bytes [simp]: "length (mask_bytes n l) = l"
  by (induction l arbitrary: n) auto

lemma length_cidr_mask [simp]: "length (cidr_mask n bits) = bits div 8"
  by (simp add: cidr_mask_def)

lemma parse_cidr_v4:
  assumes "length b = 4" "n \<le> 32"
  shows "parse_cidr (v4_string b @ ''/'' @ nat_dec n) =
    Some (v4_in_v6 @ b, \<lparr>net_ip = and_bytes b (cidr_mask n 32), net_ones = n, net_bits = 32\<rparr>)"
proof -
  have slash: "CHR ''/'' \<notin> set (v4_string b)"
    using v4_string_chars [OF assms(1), of "CHR ''/''"] by auto
  have len: "length (cidr_mask n 32) = 4"
    by simp
  let ?s = "v4_string b @ CHR ''/'' # nat_dec n"
  have idx: "index_byte ?s CHR ''/'' = Some (length (v4_string b))"
    by (rule index_byte_append [OF slash])
  have parts: "take (length (v4_string b)) ?s = v4_string b"
    "drop (length (v4_string b) + 1) ?s = nat_dec n" by simp_all
  have mask: "ip_mask (v4_in_v6 @ b) (cidr_mask n 32) = and_bytes b (cidr_mask n 32)"
    using assms(1) by (simp add: ip_mask_def len)
  have "parse_cidr ?s =
    Some (v4_in_v6 @ b, \<lparr>net_ip = and_bytes b (cidr_mask n 32), net_ones = n, net_bits = 32\<rparr>)"
    unfolding parse_cidr_def idx option.case Let_def parts parse_addr_v4_string [OF assms(1)]
      zone.simps as16.simps bit_len.simps digits_val_nat_dec mask
    using assms(2) by (simp add: nat_dec_digits)
  then show ?thesis by simp
qed

section \<open>Round trip of IPv6 text\<close>

lemma hex_digit_props:
  assumes "d < 16"
  shows "is_hex (hex_digit d)" "hex_val (hex_digit d) = d"
  using assms by (auto simp: hex_digit_def is_hex_def hex_val_def is_digit_def)

lemma nat_hex_hex: "list_all is_hex (nat_hex n)"
proof (induction n rule: nat_hex.induct)
  case (1 n)
  then show ?case by (cases "n < 16") (simp_all add: nat_hex.simps [of n] hex_digit_props)
qed

lemma nat_hex_not_Nil [simp]: "nat_hex n \<noteq> []"
  by (simp add: nat_hex.simps)

lemma hex_group_nat_hex [simp]: "hex_group (nat_hex n) = n"
proof (induction n rule: nat_hex.induct)
  case (1 n)
  then show ?case
    by (cases "n < 16") (simp_all add: nat_hex.simps [of n] hex_group_def hex_digit_props)
qed

lemma nat_hex_length: "n < 16 ^ k \<Longrightarrow> 0 < k \<Longrightarrow> length (nat_hex n) \<le> k"
proof (induction n arbitrary: k rule: nat_hex.induct)
  case (1 n)
  show ?case
  proof (cases "n < 16")
    case True
    with "1.prems" show ?thesis by (simp add: nat_hex.simps)
  next
    case False
    with "1.prems" obtain j where k: "k = Suc j" "0 < j" by (cases k; cases "k - 1") auto
    with "1.prems" have "n div 16 < 16 ^ j" by (simp add: less_mult_imp_div_less mult.commute)
    with "1.IH" False k have "length (nat_hex (n div 16)) \<le> j" by blast
    with False k show ?thesis by (simp add: nat_hex.simps [of n])
  qed
qed

lemma colon_not_hex [simp]: "\<not> is_hex CHR '':''" "\<not> is_hex CHR ''.''" "\<not> is_hex CHR ''%''" "\<not> is_hex CHR ''/''"
  by (simp_all add: is_hex_def is_digit_def ccode_def)

lemma hd_nat_hex: "is_hex (hd (nat_hex n))"
  using nat_hex_hex [of n] nat_hex_not_Nil [of n] by (cases "nat_hex n") auto

text \<open>One group of the loop, as the printed text presents it.\<close>

lemma takeWhile_group:
  assumes "t = [] \<or> \<not> is_hex (hd t)"
  shows "takeWhile is_hex (nat_hex g @ t) = nat_hex g" "dropWhile is_hex (nat_hex g @ t) = t"
proof -
  have all: "\<forall>c \<in> set (nat_hex g). is_hex c" using nat_hex_hex by (auto simp: list_all_iff)
  from all show "takeWhile is_hex (nat_hex g @ t) = nat_hex g"
    using assms by (cases t) (auto simp: takeWhile_append2)
  from all show "dropWhile is_hex (nat_hex g @ t) = t"
    using assms by (cases t) (auto simp: dropWhile_append2)
qed

lemma nat_hex_le4: "g < 65536 \<Longrightarrow> \<not> 4 < length (nat_hex g)"
  using nat_hex_length [of g 4] by simp

lemma takeWhile_nat_hex [simp]:
  "takeWhile is_hex (nat_hex g) = nat_hex g" "dropWhile is_hex (nat_hex g) = []"
  "takeWhile is_hex (nat_hex g @ CHR '':'' # t) = nat_hex g"
  "dropWhile is_hex (nat_hex g @ CHR '':'' # t) = CHR '':'' # t"
  using takeWhile_group [of "[]" g] takeWhile_group [of "CHR '':'' # t" g] by simp_all

lemma v6_loop_last:
  "length ip < 16 \<Longrightarrow> g < 65536 \<Longrightarrow> v6_loop (nat_hex g) ip ell = Some (ip @ group_bytes g, ell, [])"
  by (subst v6_loop.simps) (simp add: Let_def nat_hex_le4 del: dropWhile_eq_Nil_conv takeWhile_eq_all_conv)

lemma v6_loop_group:
  assumes "length ip < 16" "g < 65536" "t \<noteq> []" "hd t \<noteq> CHR '':''"
  shows "v6_loop (nat_hex g @ CHR '':'' # t) ip ell = v6_loop t (ip @ group_bytes g) ell"
proof -
  from assms obtain d u where t: "t = d # u" "d \<noteq> CHR '':''" by (cases t) auto
  show ?thesis using assms(1,2) t(2) unfolding t(1)
    by (subst v6_loop.simps) (simp add: Let_def nat_hex_le4)
qed

lemma v6_loop_ellipsis:
  assumes "length ip < 16" "g < 65536"
  shows "v6_loop (nat_hex g @ CHR '':'' # CHR '':'' # t) ip None =
    (if t = [] then Some (ip @ group_bytes g, Some (length ip + 2), [])
     else v6_loop t (ip @ group_bytes g) (Some (length ip + 2)))"
proof -
  have "length (ip @ group_bytes g) = length ip + 2" by (simp add: group_bytes_def)
  with assms show ?thesis by (subst v6_loop.simps) (simp add: Let_def nat_hex_le4 del: length_append)
qed

definition groups_bytes :: "nat list \<Rightarrow> byte list" where
  "groups_bytes gs = concat (map group_bytes gs)"

lemma length_groups_bytes [simp]: "length (groups_bytes gs) = 2 * length gs"
  by (induction gs) (auto simp: groups_bytes_def group_bytes_def)

lemma hd_join_hex: "gs \<noteq> [] \<Longrightarrow> join '':'' (map nat_hex gs) \<noteq> [] \<and> is_hex (hd (join '':'' (map nat_hex gs)))"
  by (cases gs) (auto simp: hd_nat_hex hd_append)

lemma v6_loop_join:
  "gs \<noteq> [] \<Longrightarrow> length ip + 2 * length gs \<le> 16 \<Longrightarrow> \<forall>g \<in> set gs. g < 65536 \<Longrightarrow>
   v6_loop (join '':'' (map nat_hex gs)) ip ell = Some (ip @ groups_bytes gs, ell, [])"
proof (induction gs arbitrary: ip)
  case Nil
  then show ?case by simp
next
  case (Cons g gs)
  show ?case
  proof (cases "gs = []")
    case True
    with Cons.prems show ?thesis by (simp add: v6_loop_last groups_bytes_def)
  next
    case False
    let ?t = "join '':'' (map nat_hex gs)"
    from False have t: "?t \<noteq> []" "hd ?t \<noteq> CHR '':''" using hd_join_hex [of gs] by auto
    have "v6_loop (nat_hex g @ CHR '':'' # ?t) ip ell = v6_loop ?t (ip @ group_bytes g) ell"
      using Cons.prems t by (intro v6_loop_group) auto
    also have "\<dots> = Some ((ip @ group_bytes g) @ groups_bytes gs, ell, [])"
      using Cons.prems False by (intro Cons.IH) (auto simp: group_bytes_def)
    finally show ?thesis using False by (simp add: groups_bytes_def)
  qed
qed

lemma v6_loop_join_ellipsis:
  "ps \<noteq> [] \<Longrightarrow> length ip + 2 * length ps \<le> 16 \<Longrightarrow> \<forall>g \<in> set ps. g < 65536 \<Longrightarrow>
   v6_loop (join '':'' (map nat_hex ps) @ ''::'' @ t) ip None =
     (if t = [] then Some (ip @ groups_bytes ps, Some (length ip + 2 * length ps), [])
      else v6_loop t (ip @ groups_bytes ps) (Some (length ip + 2 * length ps)))"
proof (induction ps arbitrary: ip)
  case Nil
  then show ?case by simp
next
  case (Cons g gs)
  show ?case
  proof (cases "gs = []")
    case True
    with Cons.prems show ?thesis by (simp add: v6_loop_ellipsis groups_bytes_def)
  next
    case False
    let ?s = "join '':'' (map nat_hex gs) @ ''::'' @ t"
    from False have s: "?s \<noteq> []" "hd ?s \<noteq> CHR '':''" using hd_join_hex [of gs] by (auto simp: hd_append)
    have "v6_loop (nat_hex g @ CHR '':'' # ?s) ip None = v6_loop ?s (ip @ group_bytes g) None"
      using Cons.prems s by (intro v6_loop_group) auto
    moreover have "length (ip @ group_bytes g) + 2 * length gs = length ip + 2 * length (g # gs)"
      by (simp add: group_bytes_def)
    ultimately show ?thesis
      using Cons.prems False Cons.IH [of "ip @ group_bytes g"] by (simp add: groups_bytes_def)
  qed
qed

lemma v6_groups_bytes: "even (length b) \<Longrightarrow> groups_bytes (v6_groups b) = b"
proof (induction b rule: v6_groups.induct)
  case (1 a b r)
  have "(unat a * 256 + unat b) div 256 = unat a" "(unat a * 256 + unat b) mod 256 = unat b"
    by simp_all
  with 1 show ?case by (simp add: groups_bytes_def group_bytes_def)
qed (auto simp: groups_bytes_def)

lemma v6_groups_bound: "g \<in> set (v6_groups b) \<Longrightarrow> g < 65536"
proof (induction b rule: v6_groups.induct)
  case (1 a b r)
  have "unat a < 256" "unat b < 256" by simp_all
  then have "unat a * 256 + unat b < 65536" by linarith
  with 1 show ?case by auto
qed auto

lemma length_v6_groups: "even (length b) \<Longrightarrow> length (v6_groups b) = length b div 2"
  by (induction b rule: v6_groups.induct) auto


subsection \<open>The zero run\<close>

lemma zero_run_le: "zero_run gs \<le> length gs"
  by (simp add: zero_run_def length_takeWhile_le)

lemma zero_run_zeros: "take (zero_run gs) gs = replicate (zero_run gs) 0"
  by (induction gs) (auto simp: zero_run_def)

text \<open>What the search returns is a run of zero groups inside the list, or nothing.\<close>

lemma best_run_run:
  assumes "best_run i gs (p, l) = (p', l')"
    and "l = 0 \<or> (2 \<le> l \<and> p + l \<le> length hs \<and> take l (drop p hs) = replicate l 0)"
    and "drop i hs = gs"
  shows "l' = 0 \<or> (2 \<le> l' \<and> p' + l' \<le> length hs \<and> take l' (drop p' hs) = replicate l' 0)"
  using assms
proof (induction gs arbitrary: i p l)
  case Nil
  then show ?case by simp
next
  case (Cons g gs)
  let ?l = "zero_run (g # gs)"
  have drop_i: "drop (Suc i) hs = gs"
    using Cons.prems(3) by (metis drop_Suc list.sel(3) tl_drop)
  have len: "i + length (g # gs) = length hs"
    using Cons.prems(3) by (metis add_diff_inverse_nat drop_all length_drop less_imp_le list.distinct(1) not_le add.commute)
  show ?case
  proof (cases "2 \<le> ?l \<and> l < ?l")
    case True
    with Cons.prems(1) have "best_run (Suc i) gs (i, ?l) = (p', l')" by (simp add: Let_def)
    moreover have "i + ?l \<le> length hs" using zero_run_le [of "g # gs"] len by simp
    moreover have "take ?l (drop i hs) = replicate ?l 0" using zero_run_zeros Cons.prems(3) by simp
    ultimately show ?thesis using True drop_i by (intro Cons.IH [of "Suc i" i ?l]) auto
  next
    case False
    with Cons.prems(1) have "best_run (Suc i) gs (p, l) = (p', l')" by (auto simp: Let_def)
    then show ?thesis using Cons.prems(2) drop_i by (intro Cons.IH [of "Suc i" p l]) auto
  qed
qed

lemma groups_bytes_append [simp]: "groups_bytes (a @ b) = groups_bytes a @ groups_bytes b"
  by (simp add: groups_bytes_def)

lemma groups_bytes_Nil [simp]: "groups_bytes [] = []"
  by (simp add: groups_bytes_def)

lemma groups_bytes_zeros: "groups_bytes (replicate n 0) = replicate (2 * n) 0"
  by (induction n) (auto simp: groups_bytes_def group_bytes_def)

text \<open>The text of an address with the run \<open>gs = ps @ zeros @ ss\<close> contracted parses back.\<close>

lemma parse_v6_body_run:
  assumes "2 \<le> l" "length ps + l + length ss = 8"
    and "\<forall>g \<in> set ps. g < 65536" "\<forall>g \<in> set ss. g < 65536"
  shows "parse_v6_body (join '':'' (map nat_hex ps) @ ''::'' @ join '':'' (map nat_hex ss)) =
    Some (groups_bytes (ps @ replicate l 0 @ ss))"
proof -
  let ?t = "join '':'' (map nat_hex ss)"
  have ss: "v6_loop ?t ip (Some e) = Some (ip @ groups_bytes ss, Some e, [])"
    if "ss \<noteq> []" "length ip = 2 * length ps" for ip e
    using assms that by (intro v6_loop_join) auto
  have t: "?t = [] \<longleftrightarrow> ss = []" using hd_join_hex [of ss] by (cases "ss = []") auto
  have zeros: "16 - 2 * (length ps + length ss) = 2 * l" using assms(2) by simp
  show ?thesis
  proof (cases "ps = []")
    case True
    have "has_prefix (''::'' @ ?t) ''::''" by (simp add: has_prefix_def)
    with True ss [of "[]" 0] t zeros assms(1,2) show ?thesis
      by (auto simp: parse_v6_body_def v6_expand_def groups_bytes_zeros)
  next
    case False
    let ?s = "join '':'' (map nat_hex ps) @ ''::'' @ ?t"
    from False have "hd ?s \<noteq> CHR '':''" "?s \<noteq> []" using hd_join_hex [of ps] by (auto simp: hd_append)
    then have np: "\<not> has_prefix ?s ''::''" by (cases ?s) (auto simp: has_prefix_def)
    have "v6_loop ?s [] None = Some (groups_bytes ps @ groups_bytes ss, Some (2 * length ps), [])"
      using False assms t ss [of "groups_bytes ps" "2 * length ps"]
      by (subst v6_loop_join_ellipsis) auto
    with np zeros assms(1,2) show ?thesis
      by (simp add: parse_v6_body_def v6_expand_def groups_bytes_zeros)
  qed
qed

lemma parse_v6_body_full:
  assumes "length gs = 8" "\<forall>g \<in> set gs. g < 65536"
  shows "parse_v6_body (join '':'' (map nat_hex gs)) = Some (groups_bytes gs)"
proof -
  let ?s = "join '':'' (map nat_hex gs)"
  from assms(1) have "gs \<noteq> []" by auto
  then have "hd ?s \<noteq> CHR '':''" "?s \<noteq> []" using hd_join_hex [of gs] by auto
  then have np: "\<not> has_prefix ?s ''::''" by (cases ?s) (auto simp: has_prefix_def)
  have "v6_loop ?s [] None = Some ([] @ groups_bytes gs, None, [])"
    using assms \<open>gs \<noteq> []\<close> by (intro v6_loop_join) auto
  with np assms(1) show ?thesis by (simp add: parse_v6_body_def v6_expand_def)
qed

lemma parse_v6_body_string:
  assumes "length b = 16"
  shows "parse_v6_body (v6_string b) = Some b"
proof -
  let ?gs = "v6_groups b"
  obtain p l where r: "best_run 0 ?gs (0, 0) = (p, l)" by fastforce
  have bound: "\<forall>g \<in> set ?gs. g < 65536" by (auto intro: v6_groups_bound)
  have len: "length ?gs = 8" using assms by (simp add: length_v6_groups)
  have inv: "groups_bytes ?gs = b" using assms by (simp add: v6_groups_bytes)
  show ?thesis
  proof (cases "l = 0")
    case True
    with r len bound inv show ?thesis by (simp add: v6_string_def Let_def parse_v6_body_full)
  next
    case False
    with best_run_run [OF r, of ?gs]
    have run: "2 \<le> l" "p + l \<le> 8" "take l (drop p ?gs) = replicate l 0" using len by auto
    have split: "?gs = take p ?gs @ replicate l 0 @ drop (p + l) ?gs"
      by (metis add.commute append_take_drop_id drop_drop run(3))
    have "v6_string b = join '':'' (map nat_hex (take p ?gs)) @ ''::'' @ join '':'' (map nat_hex (drop (p + l) ?gs))"
      using r False by (simp add: v6_string_def Let_def)
    moreover have "parse_v6_body \<dots> = Some (groups_bytes (take p ?gs @ replicate l 0 @ drop (p + l) ?gs))"
      using run len bound by (intro parse_v6_body_run) (auto dest: in_set_takeD in_set_dropD)
    moreover have "groups_bytes (take p ?gs @ replicate l 0 @ drop (p + l) ?gs) = b"
      unfolding split [symmetric] by (rule inv)
    ultimately show ?thesis by (simp only:)
  qed
qed


lemma v6_string_chars:
  assumes "c \<in> set (v6_string b)" shows "is_hex c \<or> c = CHR '':''"
proof -
  have j: "is_hex c \<or> c = CHR '':''" if "c \<in> set (join '':'' (map nat_hex gs))" for c gs
    using that nat_hex_hex by (induction gs) (auto simp: list_all_iff split: if_splits)
  show ?thesis using assms j by (fastforce simp: v6_string_def Let_def split: if_splits)
qed

lemma first_mark_colon:
  "\<forall>c \<in> set s. is_hex c \<or> c = CHR '':'' \<Longrightarrow> CHR '':'' \<in> set s \<Longrightarrow> first_mark s = Some CHR '':''"
  by (induction s) (auto simp: is_hex_def is_digit_def ccode_def)

lemma v6_string_colon: "length b = 16 \<Longrightarrow> CHR '':'' \<in> set (v6_string b)"
proof -
  assume "length b = 16"
  then have "length (v6_groups b) = 8" by (simp add: length_v6_groups)
  then obtain g h gs where "v6_groups b = g # h # gs" by (auto simp: length_Suc_conv eval_nat_numeral)
  then show ?thesis by (auto simp: v6_string_def Let_def)
qed

lemma parse_addr_v6_string: "length b = 16 \<Longrightarrow> parse_addr (v6_string b) = Some (A6 b [])"
proof -
  assume l: "length b = 16"
  have "CHR ''%'' \<notin> set (v6_string b)" using v6_string_chars [of "CHR ''%''" b] by auto
  then have i: "index_byte (v6_string b) CHR ''%'' = None" by simp
  have "first_mark (v6_string b) = Some CHR '':''"
    using v6_string_chars by (intro first_mark_colon v6_string_colon l) blast
  then show ?thesis by (simp add: parse_addr_def parse_v6_def i parse_v6_body_string l del: index_byte_None)
qed

text \<open>Printing an address and parsing the text gives the address back, in its 16-byte form.\<close>

definition ip_canon :: "byte list \<Rightarrow> byte list" where
  "ip_canon ip = (if length ip = 4 then v4_in_v6 @ ip else ip)"

lemma parse_ip_ip_string:
  assumes "length ip = 4 \<or> length ip = 16"
  shows "parse_ip (ip_string ip) = Some (ip_canon ip)"
proof (cases "to4 ip")
  case None
  with assms have "length ip = 16" by auto
  with None show ?thesis by (auto simp: ip_string_def ip_canon_def parse_ip_def parse_addr_v6_string)
next
  case (Some b)
  then have l: "length b = 4" and e: "ip_canon ip = v4_in_v6 @ b"
    by (auto simp: to4_def ip_canon_def split: if_splits) (metis append_take_drop_id)
  from assms have "ip \<noteq> []" by auto
  with Some l have "ip_string ip = v4_string b" by (simp add: ip_string_def)
  with l e show ?thesis by (simp add: parse_ip_v4_string)
qed

lemma ip_string_inj:
  assumes "length a = 4 \<or> length a = 16" "length b = 4 \<or> length b = 16"
  shows "ip_string a = ip_string b \<longleftrightarrow> ip_canon a = ip_canon b"
proof
  assume "ip_string a = ip_string b"
  then show "ip_canon a = ip_canon b"
    using parse_ip_ip_string [OF assms(1)] parse_ip_ip_string [OF assms(2)] by simp
next
  have str: "ip_string c = ip_string (ip_canon c)" if "length c = 4 \<or> length c = 16" for c
    using that by (auto simp: ip_canon_def ip_string_v4 ip_string_mapped)
  assume "ip_canon a = ip_canon b"
  then show "ip_string a = ip_string b" using str [OF assms(1)] str [OF assms(2)] by simp
qed

section \<open>What the parsers deliver\<close>

lemma parse_v4_length: "parse_v4 s = Some b \<Longrightarrow> length b = 4"
  by (auto simp: parse_v4_def split: list.splits option.splits)

lemma length_group_bytes [simp]: "length (group_bytes n) = 2"
  by (simp add: group_bytes_def)

lemma v6_loop_length:
  "v6_loop s ip ell = Some (ip', ell', rest) \<Longrightarrow> even (length ip) \<Longrightarrow> length ip \<le> 16 \<Longrightarrow>
   (\<forall>e. ell = Some e \<longrightarrow> e \<le> length ip) \<Longrightarrow>
   length ip' \<le> 16 \<and> (\<forall>e. ell' = Some e \<longrightarrow> e \<le> length ip')"
proof (induction s ip ell rule: v6_loop.induct)
  case (1 s ip ell)
  show ?case
  proof (cases "16 \<le> length ip")
    case True
    with "1.prems" show ?thesis by (auto simp: v6_loop.simps [of s ip ell])
  next
    case False
    with "1.prems"(2) have room: "length ip + 2 \<le> 16" by presburger
    note step = "1.prems"(1) [unfolded v6_loop.simps [of s ip ell] Let_def]
    from step False have ds: "\<not> (takeWhile is_hex s = [] \<or> 4 < length (takeWhile is_hex s))"
      by (auto split: if_splits)
    show ?thesis
    proof (cases "dropWhile is_hex s")
      case Nil
      with step False ds "1.prems" room show ?thesis by auto
    next
      case (Cons c t)
      show ?thesis
      proof (cases "c = CHR ''.''")
        case True
        with step False ds Cons "1.prems" show ?thesis
          by (auto split: if_splits option.splits dest: parse_v4_length)
      next
        case dot: False
        show ?thesis
        proof (cases t)
          case Nil
          with step False ds Cons dot show ?thesis by (auto split: if_splits)
        next
          case t: (Cons d u)
          show ?thesis
          proof (cases "d = CHR '':''")
            case True
            with step False ds Cons dot t have "u = [] \<and> ip' = ip @ group_bytes (hex_group (takeWhile is_hex s)) \<and> ell' = Some (length ip + 2)
              \<or> u \<noteq> [] \<and> ell = None \<and> v6_loop u (ip @ group_bytes (hex_group (takeWhile is_hex s))) (Some (length (ip @ group_bytes (hex_group (takeWhile is_hex s))))) = Some (ip', ell', rest)"
              by (auto split: if_splits)
            with True Cons t ds dot False "1.IH"(1) [OF False refl refl refl _ Cons] room "1.prems" step show ?thesis
              by (auto split: if_splits)
          next
            case no: False
            have "\<forall>e. ell = Some e \<longrightarrow> e \<le> Suc (Suc (length ip))" using "1.prems"(4) by auto
            with no step False ds Cons dot t have "v6_loop t (ip @ group_bytes (hex_group (takeWhile is_hex s))) ell = Some (ip', ell', rest)"
              by (auto split: if_splits)
            with \<open>\<forall>e. ell = Some e \<longrightarrow> e \<le> Suc (Suc (length ip))\<close> no Cons t ds dot False "1.IH"(2) [OF False refl refl refl _ Cons] room "1.prems" step show ?thesis
              by (auto split: if_splits)
          qed
        qed
      qed
    qed
  qed
qed

lemma v6_expand_length: "v6_expand (ip, ell, rest) = Some b \<Longrightarrow> length ip \<le> 16 \<Longrightarrow>
   (\<forall>e. ell = Some e \<longrightarrow> e \<le> length ip) \<Longrightarrow> length b = 16"
  by (auto simp: v6_expand_def split: if_splits option.splits)

lemma parse_v6_body_length: "parse_v6_body s = Some b \<Longrightarrow> length b = 16"
proof -
  have loop: "length b = 16" if "Option.bind (v6_loop t [] ell) v6_expand = Some b" "ell = None \<or> ell = Some 0" for t ell
  proof -
    from that(1) obtain ip ell' rest where r: "v6_loop t [] ell = Some (ip, ell', rest)"
      and x: "v6_expand (ip, ell', rest) = Some b" by (auto simp: bind_eq_Some_conv)
    have "length ip \<le> 16 \<and> (\<forall>e. ell' = Some e \<longrightarrow> e \<le> length ip)"
      using v6_loop_length [OF r] that(2) by auto
    with x show ?thesis by (blast intro: v6_expand_length)
  qed
  assume "parse_v6_body s = Some b"
  then show ?thesis by (auto simp: parse_v6_body_def split: if_splits intro: loop)
qed

definition naddr_ok :: "naddr \<Rightarrow> bool" where
  "naddr_ok a = (case a of A4 b \<Rightarrow> length b = 4 | A6 b z \<Rightarrow> length b = 16)"

lemma parse_addr_ok: "parse_addr s = Some a \<Longrightarrow> naddr_ok a"
  by (auto simp: parse_addr_def parse_v6_def naddr_ok_def parse_v4_length parse_v6_body_length
      split: if_splits option.splits)

lemma as16_length [simp]: "naddr_ok a \<Longrightarrow> length (as16 a) = 16"
  by (cases a) (auto simp: naddr_ok_def)

lemma parse_ip_length: "parse_ip s = Some ip \<Longrightarrow> length ip = 16"
  by (auto simp: parse_ip_def split: option.splits if_splits dest: parse_addr_ok)

lemma length_and_bytes [simp]: "length (and_bytes a b) = min (length a) (length b)"
  by (simp add: and_bytes_def)

lemma and_bytes_idem [simp]: "length a = length m \<Longrightarrow> and_bytes (and_bytes a m) m = and_bytes a m"
  by (rule nth_equalityI) (simp_all add: and_bytes_def and.assoc)

definition ipnet_ok :: "ipnet \<Rightarrow> bool" where
  "ipnet_ok n \<longleftrightarrow> (net_bits n = 32 \<or> net_bits n = 128) \<and> net_ones n \<le> net_bits n
     \<and> length (net_ip n) = net_bits n div 8"

lemma parse_cidr_SomeE:
  assumes "parse_cidr s = Some (ip, n)"
  obtains a where "naddr_ok a" "zone a = []" "ip = as16 a" "net_bits n = bit_len a"
    "net_ones n \<le> bit_len a" "net_ip n = ip_mask (as16 a) (cidr_mask (net_ones n) (bit_len a))"
  using assms by (force simp: parse_cidr_def Let_def split: option.splits if_splits dest: parse_addr_ok)

lemma ip_mask_as16:
  "naddr_ok a \<Longrightarrow> length (ip_mask (as16 a) (cidr_mask k (bit_len a))) = bit_len a div 8"
  by (cases a) (auto simp: naddr_ok_def ip_mask_def)

lemma parse_cidr_ok: "parse_cidr s = Some (ip, n) \<Longrightarrow> length ip = 16 \<and> ipnet_ok n"
proof (erule parse_cidr_SomeE)
  fix a assume "naddr_ok a" "ip = as16 a" "net_bits n = bit_len a" "net_ones n \<le> bit_len a"
    "net_ip n = ip_mask (as16 a) (cidr_mask (net_ones n) (bit_len a))"
  then show ?thesis using ip_mask_as16 [of a "net_ones n"] as16_length [of a]
    by (cases a) (auto simp: ipnet_ok_def simp del: as16_length)
qed

lemma parse_cidr_v4E:
  assumes "parse_cidr s = Some (ip, n)" "net_bits n = 32"
  obtains b k where "length b = 4" "k \<le> 32" "ip = v4_in_v6 @ b"
    "n = \<lparr>net_ip = and_bytes b (cidr_mask k 32), net_ones = k, net_bits = 32\<rparr>"
  using assms(1)
proof (rule parse_cidr_SomeE)
  fix a assume a: "naddr_ok a" "ip = as16 a" "net_bits n = bit_len a" "net_ones n \<le> bit_len a"
    "net_ip n = ip_mask (as16 a) (cidr_mask (net_ones n) (bit_len a))"
  with assms(2) obtain b where b: "a = A4 b" "length b = 4" by (cases a) (auto simp: naddr_ok_def)
  have "net_ip n = and_bytes b (cidr_mask (net_ones n) 32)"
    unfolding a(5) b(1) as16.simps bit_len.simps using b(2) by (simp add: ip_mask_def)
  then have "n = \<lparr>net_ip = and_bytes b (cidr_mask (net_ones n) 32), net_ones = net_ones n, net_bits = 32\<rparr>"
    using assms(2) by simp
  with that a(2,4) b show ?thesis by simp
qed

text \<open>An IPv4 CIDR contains the address it was written with.\<close>

lemma parse_cidr_contains_v4:
  assumes "parse_cidr s = Some (ip, n)" "net_bits n = 32"
  shows "net_contains n ip"
  using assms
  by (rule parse_cidr_v4E) (simp add: net_contains_def number_and_mask_def net_mask_def)

lemma ipnet_string_v4:
  "net_bits n = 32 \<Longrightarrow> length (net_ip n) = 4 \<Longrightarrow>
   ipnet_string n = v4_string (net_ip n) @ ''/'' @ nat_dec (net_ones n)"
  by (simp add: ipnet_string_def number_and_mask_def ip_string_v4)

text \<open>The canonical text of an IPv4 network parses back to the same network.\<close>

lemma parse_cidr_ipnet_string_v4:
  assumes "parse_cidr s = Some (ip, n)" "net_bits n = 32"
  shows "parse_cidr (ipnet_string n) = Some (v4_in_v6 @ net_ip n, n)"
  using assms
proof (rule parse_cidr_v4E)
  fix b k assume b: "length b = 4" "k \<le> 32"
    and n: "n = \<lparr>net_ip = and_bytes b (cidr_mask k 32), net_ones = k, net_bits = 32\<rparr>"
  then have l: "length (net_ip n) = 4" by simp
  with b n show ?thesis
    using parse_cidr_v4 [of "net_ip n" k] by (simp add: ipnet_string_v4)
qed

section \<open>Networks as intervals\<close>

text \<open>
  The number a byte list stands for, most significant byte first, and the arithmetic reading
  of a mask: it rounds down to a multiple of a power of two.  Membership in a network is
  then equality of quotients, so a network is an interval of addresses.
\<close>

definition bytes_val :: "byte list \<Rightarrow> nat" where
  "bytes_val b = foldl (\<lambda>a x. a * 256 + unat x) 0 b"

lemma foldl_bytes: "foldl (\<lambda>a x. a * 256 + unat (x :: byte)) n b = n * 256 ^ length b + bytes_val b"
proof (induction b arbitrary: n)
  case Nil
  then show ?case by (simp add: bytes_val_def)
next
  case (Cons x b)
  have "bytes_val (x # b) = unat x * 256 ^ length b + bytes_val b"
    using Cons.IH [of "unat x"] by (simp add: bytes_val_def)
  moreover have "foldl (\<lambda>a x. a * 256 + unat x) n (x # b) = (n * 256 + unat x) * 256 ^ length b + bytes_val b"
    using Cons.IH [of "n * 256 + unat x"] by simp
  ultimately show ?case by (simp add: algebra_simps)
qed

lemma bytes_val_Nil [simp]: "bytes_val [] = 0"
  by (simp add: bytes_val_def)

lemma bytes_val_Cons [simp]: "bytes_val (x # b) = unat x * 256 ^ length b + bytes_val b"
  using foldl_bytes [of "unat x" b] by (simp add: bytes_val_def)

lemma bytes_val_append [simp]: "bytes_val (a @ b) = bytes_val a * 256 ^ length b + bytes_val b"
  by (induction a) (auto simp: power_add algebra_simps)

lemma bytes_val_less: "bytes_val b < 256 ^ length b"
proof (induction b)
  case (Cons x b)
  have "unat x * 256 ^ length b + bytes_val b < (unat x + 1) * 256 ^ length b"
    using Cons by simp
  also have "\<dots> \<le> 256 * 256 ^ length b"
    using unat_byte [of x] by (intro mult_right_mono) (linarith, simp)
  finally show ?case by simp
qed simp

lemma bytes_val_inj: "length a = length b \<Longrightarrow> bytes_val a = bytes_val b \<longleftrightarrow> a = b"
proof (induction a b rule: list_induct2)
  case (Cons x a y b)
  have la: "bytes_val a < 256 ^ length b" and lb: "bytes_val b < 256 ^ length b"
    using bytes_val_less [of a] bytes_val_less [of b] Cons.hyps by simp_all
  show ?case
  proof
    assume eq: "bytes_val (x # a) = bytes_val (y # b)"
    then have eq': "unat x * 256 ^ length b + bytes_val a = unat y * 256 ^ length b + bytes_val b"
      using Cons.hyps by simp
    then have "(unat x * 256 ^ length b + bytes_val a) div 256 ^ length b
        = (unat y * 256 ^ length b + bytes_val b) div 256 ^ length b" by (rule arg_cong)
    then have u: "unat x = unat y" using la lb by simp
    with eq' have "bytes_val a = bytes_val b" by simp
    with Cons.IH have "a = b" by blast
    with u show "x # a = y # b" by (simp add: unsigned_word_eqI)
  qed simp
qed simp

lemma byte_255_mask: "(255 :: byte) = mask 8"
  by (simp add: mask_eq_exp_minus_1)

lemma bit_byte_255: "bit (255 :: byte) n \<longleftrightarrow> n < 8"
  unfolding byte_255_mask by (auto simp: bit_simps simp del: mask_numeral)

lemma unat_and_not_mask: "unat ((b :: byte) AND NOT (mask k)) = unat b div 2 ^ k * 2 ^ k"
proof -
  have "unat (b AND NOT (mask k)) = push_bit k (drop_bit k (unat b))"
    by (rule bit_eqI) (auto simp: bit_simps dest: bit_imp_le_length)
  then show ?thesis by (simp add: push_bit_eq_mult drop_bit_eq_div)
qed

lemma drop_bit_255: "n \<le> 8 \<Longrightarrow> drop_bit n (255 :: byte) = mask (8 - n)"
  unfolding byte_255_mask
  by (intro bit_word_eqI) (auto simp: bit_drop_bit_eq bit_mask_iff simp del: mask_numeral)

lemma and_255 [simp]: "(b :: byte) AND 255 = b"
  unfolding byte_255_mask
  by (intro bit_word_eqI) (simp add: bit_and_iff bit_mask_iff del: mask_numeral)

lemma and_not_255 [simp]: "(b :: byte) AND - 256 = 0"
proof -
  have "(- 256 :: byte) = 0" by simp
  then show ?thesis by (simp only: bit.conj_zero_right)
qed

lemma and_bytes_Cons [simp]: "and_bytes (x # a) (m # ms) = (x AND m) # and_bytes a ms"
  by (simp add: and_bytes_def)

lemma and_bytes_Nil [simp]: "and_bytes [] m = []" "and_bytes a [] = []"
  by (simp_all add: and_bytes_def)

lemma bytes_val_mask0: "length x = l \<Longrightarrow> bytes_val (and_bytes x (mask_bytes 0 l)) = 0"
proof (induction l arbitrary: x)
  case (Suc l)
  then show ?case by (cases x) auto
qed simp

lemma bytes_val_mask:
  "length x = l \<Longrightarrow> n \<le> 8 * l \<Longrightarrow>
   bytes_val (and_bytes x (mask_bytes n l)) = bytes_val x div 2 ^ (8 * l - n) * 2 ^ (8 * l - n)"
proof (induction l arbitrary: x n)
  case 0
  then show ?case by simp
next
  case (Suc l)
  then obtain b y where x: "x = b # y" "length y = l" by (cases x) auto
  show ?case
  proof (cases "8 \<le> n")
    case True
    let ?h = "8 * l - (n - 8)"
    have h: "8 * Suc l - n = ?h" "?h \<le> 8 * l" using True Suc.prems(2) by auto
    have p: "(256 :: nat) ^ l = 2 ^ (8 * l - ?h) * 2 ^ ?h"
      using h by (simp add: power_mult flip: power_add)
    have ih: "bytes_val (and_bytes y (mask_bytes (n - 8) l)) = bytes_val y div 2 ^ ?h * 2 ^ ?h"
      using Suc.IH [of y "n - 8"] x(2) True Suc.prems(2) by simp
    have "(unat b * 256 ^ l + bytes_val y) div 2 ^ ?h = unat b * 2 ^ (8 * l - ?h) + bytes_val y div 2 ^ ?h"
      unfolding p by (simp add: mult.assoc [symmetric] div_mult_self3)
    then show ?thesis using True x ih h(1)
      by (simp add: add_mult_distrib p mult.assoc)
  next
    case False
    let ?k = "8 - n"
    have h: "8 * Suc l - n = 8 * l + ?k" using False by simp
    have y: "bytes_val y < 256 ^ l" using bytes_val_less [of y] x(2) by simp
    have p: "(2 :: nat) ^ (8 * l + ?k) = 256 ^ l * 2 ^ ?k" by (simp add: power_add power_mult)
    have "(unat b * 256 ^ l + bytes_val y) div 2 ^ (8 * l + ?k) = unat b div 2 ^ ?k"
      unfolding p div_mult2_eq using y by simp
    moreover have "unat (b AND NOT (drop_bit n 255)) = unat b div 2 ^ ?k * 2 ^ ?k"
      using False by (simp add: drop_bit_255 unat_and_not_mask)
    ultimately show ?thesis using False x h p by (simp add: bytes_val_mask0 mult.assoc mult.commute mult.left_commute)
  qed
qed

text \<open>Masked numbers agree exactly when the quotients do.\<close>

lemma and_bytes_mask_eq_iff:
  assumes "length a = l" "length b = l" "n \<le> 8 * l"
  shows "and_bytes a (mask_bytes n l) = and_bytes b (mask_bytes n l) \<longleftrightarrow>
    bytes_val a div 2 ^ (8 * l - n) = bytes_val b div 2 ^ (8 * l - n)"
proof -
  have "and_bytes a (mask_bytes n l) = and_bytes b (mask_bytes n l) \<longleftrightarrow>
    bytes_val (and_bytes a (mask_bytes n l)) = bytes_val (and_bytes b (mask_bytes n l))"
    using assms by (simp add: bytes_val_inj)
  also have "\<dots> \<longleftrightarrow> bytes_val a div 2 ^ (8 * l - n) = bytes_val b div 2 ^ (8 * l - n)"
    using assms by (simp add: bytes_val_mask)
  finally show ?thesis .
qed

end
