(* ===== verification/Models.thy ===== *)
theory Models
  imports GoNet
begin

text \<open>
  The data model of \<^verbatim>\<open>internal/models/models.go\<close>: one record per struct, in the order
  of the source, the lookups and cascades over them, the field predicates the validators
  share, and gateway resolution by longest prefix.  \<^verbatim>\<open>uint16\<close>/\<^verbatim>\<open>uint32\<close> fields are
  words; \<^verbatim>\<open>uint\<close> table numbers are \<open>nat\<close> (they are only compared and counted up from a
  base, never near the width); \<^verbatim>\<open>time.Time\<close> is the number of nanoseconds since Go's zero
  time.
\<close>

type_synonym gotime = int

text \<open>Nanoseconds since Go's zero time, and \<^verbatim>\<open>time.Unix(sec, 0)\<close>.\<close>

definition second :: gotime where
  "second = 10 ^ 9"

definition unix_time :: "int \<Rightarrow> gotime" where
  "unix_time sec = (62135596800 + sec) * second"


section \<open>Records\<close>

record passkey =
  pk_id :: string
  pk_name :: string
  pk_public_key :: string
  pk_algorithm :: int
  pk_sign_count :: u32
  pk_aaguid :: string
  pk_created :: gotime
  pk_last_used :: "gotime option"

record vpn_gateway =
  g_id :: string
  g_name :: string
  g_interface :: string
  g_private_key :: string
  g_address :: string
  g_mtu :: u16
  g_dns :: string
  g_public_key :: string
  g_preshared_key :: string
  g_allowed_ips :: string
  g_endpoint :: string
  g_keepalive :: u16
  g_enabled :: bool
  g_auto_start :: bool
  g_table :: nat
  g_created :: gotime
  g_updated :: gotime

record zt_network =
  zn_id :: string
  zn_name :: string
  zn_managed :: bool
  zn_global :: bool
  zn_default :: bool
  zn_dns :: bool

record zt_config =
  zt_enabled :: bool
  zt_port :: u16
  zt_disable_masq :: bool
  zt_exclude_adv :: bool
  zt_networks :: "zt_network list"

record server_config =
  s_private_key :: string
  s_listen_port :: u16
  s_address :: string
  s_endpoint :: string
  s_dns :: string
  s_mtu :: u16
  s_table :: string
  s_fwmark :: string
  s_pre_up :: string
  s_post_up :: string
  s_pre_down :: string
  s_post_down :: string
  s_bgp_enabled :: bool
  s_bgp_address :: string
  s_bgp_port :: u16
  s_bgp_asn :: u32
  s_require_passkey :: bool
  s_passkeys :: "passkey list"

record route_filter =
  rf_prefix :: string
  rf_matcher :: string
  rf_action :: string

record bgp_peer =
  b_id :: string
  b_name :: string
  b_enabled :: bool
  b_connect :: bool
  b_redistribute :: bool
  b_max_received :: u16
  b_max_advertised :: u16
  b_peer_ip :: string
  b_peer_port :: u16
  b_peer_asn :: u32
  b_route_filters :: "route_filter list"
  b_export_filters :: "route_filter list"
  b_created :: gotime
  b_updated :: gotime

record net_device =
  nd_ip :: string
  nd_mac :: string
  nd_hostname :: string
  nd_vendor :: string
  nd_interface :: string
  nd_online :: bool
  nd_last_seen :: gotime

record device_rule =
  dr_ip :: string
  dr_gateway :: string
  dr_enabled :: bool

record peer =
  p_id :: string
  p_name :: string
  p_private_key :: string
  p_public_key :: string
  p_preshared_key :: string
  p_allowed_ips :: string
  p_endpoint :: string
  p_keepalive :: u16
  p_dns :: string
  p_client_allowed_ips :: string
  p_is_exit :: bool
  p_exit_id :: string
  p_exit_all :: bool
  p_exit_routes :: "string list"
  p_advertised :: "string list"
  p_policy_routes :: "string list"
  p_strict :: bool
  p_table :: nat
  p_policy_table :: nat
  p_gateway_id :: string
  p_devices :: "net_device list"
  p_device_rules :: "device_rule list"
  p_enabled :: bool
  p_created :: gotime
  p_updated :: gotime
  p_last_seen :: gotime
  p_rx :: int
  p_tx :: int

record app_config =
  cfg_server :: server_config
  cfg_peers :: "peer list"
  cfg_bgp_peers :: "bgp_peer list"
  cfg_zerotier :: zt_config
  cfg_gateways :: "vpn_gateway list"

record gateway_net =
  gn_device :: string
  gn_cidr :: string

text \<open>Go's zero values: every struct literal of the source starts from one of these.\<close>

definition zero_peer :: peer where
  "zero_peer = \<lparr>p_id = [], p_name = [], p_private_key = [], p_public_key = [], p_preshared_key = [],
     p_allowed_ips = [], p_endpoint = [], p_keepalive = 0, p_dns = [], p_client_allowed_ips = [],
     p_is_exit = False, p_exit_id = [], p_exit_all = False, p_exit_routes = [], p_advertised = [],
     p_policy_routes = [], p_strict = False, p_table = 0, p_policy_table = 0, p_gateway_id = [],
     p_devices = [], p_device_rules = [], p_enabled = False, p_created = 0, p_updated = 0,
     p_last_seen = 0, p_rx = 0, p_tx = 0\<rparr>"

definition zero_gateway :: vpn_gateway where
  "zero_gateway = \<lparr>g_id = [], g_name = [], g_interface = [], g_private_key = [], g_address = [],
     g_mtu = 0, g_dns = [], g_public_key = [], g_preshared_key = [], g_allowed_ips = [],
     g_endpoint = [], g_keepalive = 0, g_enabled = False, g_auto_start = False, g_table = 0,
     g_created = 0, g_updated = 0\<rparr>"

definition zero_server :: server_config where
  "zero_server = \<lparr>s_private_key = [], s_listen_port = 0, s_address = [], s_endpoint = [], s_dns = [],
     s_mtu = 0, s_table = [], s_fwmark = [], s_pre_up = [], s_post_up = [], s_pre_down = [],
     s_post_down = [], s_bgp_enabled = False, s_bgp_address = [], s_bgp_port = 0, s_bgp_asn = 0,
     s_require_passkey = False, s_passkeys = []\<rparr>"

definition zero_zerotier :: zt_config where
  "zero_zerotier = \<lparr>zt_enabled = False, zt_port = 0, zt_disable_masq = False,
     zt_exclude_adv = False, zt_networks = []\<rparr>"

definition zero_bgp_peer :: bgp_peer where
  "zero_bgp_peer = \<lparr>b_id = [], b_name = [], b_enabled = False, b_connect = False, b_redistribute = False,
     b_max_received = 0, b_max_advertised = 0, b_peer_ip = [], b_peer_port = 0, b_peer_asn = 0,
     b_route_filters = [], b_export_filters = [], b_created = 0, b_updated = 0\<rparr>"

definition zero_config :: app_config where
  "zero_config = \<lparr>cfg_server = zero_server, cfg_peers = [], cfg_bgp_peers = [],
     cfg_zerotier = zero_zerotier, cfg_gateways = []\<rparr>"

lemmas zero_defs = zero_peer_def zero_gateway_def zero_server_def zero_zerotier_def
  zero_bgp_peer_def zero_config_def

section \<open>Lookups\<close>

definition find_peer_by_id :: "peer list \<Rightarrow> string \<Rightarrow> peer option" where
  "find_peer_by_id peers i = find (\<lambda>p. p_id p = i) peers"

definition find_bgp_peer_by_id :: "bgp_peer list \<Rightarrow> string \<Rightarrow> bgp_peer option" where
  "find_bgp_peer_by_id peers i = find (\<lambda>p. b_id p = i) peers"

definition find_vpn_gateway_by_id :: "vpn_gateway list \<Rightarrow> string \<Rightarrow> vpn_gateway option" where
  "find_vpn_gateway_by_id gs i = find (\<lambda>g. g_id g = i) gs"

definition find_zerotier_network :: "zt_network list \<Rightarrow> string \<Rightarrow> zt_network option" where
  "find_zerotier_network ns i = find (\<lambda>n. equal_fold (zn_id n) i) ns"

interpretation peers: keyed_lookup p_id id find_peer_by_id
  by unfold_locales (simp_all add: find_peer_by_id_def)

interpretation bgp_peers: keyed_lookup b_id id find_bgp_peer_by_id
  by unfold_locales (simp_all add: find_bgp_peer_by_id_def)

interpretation gateways: keyed_lookup g_id id find_vpn_gateway_by_id
  by unfold_locales (simp_all add: find_vpn_gateway_by_id_def)

interpretation networks: keyed_lookup "\<lambda>n. to_lower (zn_id n)" to_lower find_zerotier_network
  by unfold_locales (simp_all add: find_zerotier_network_def equal_fold_def)

definition zerotier_port :: "zt_config \<Rightarrow> u16" where
  "zerotier_port z = (if zt_port z = 0 then 9993 else zt_port z)"

text \<open>\<^verbatim>\<open>CascadeClearExitNode\<close> and \<^verbatim>\<open>ExitNodePeers\<close>.\<close>

definition cascade_clear_exit_node :: "peer list \<Rightarrow> string \<Rightarrow> peer list" where
  "cascade_clear_exit_node peers i =
     map (\<lambda>p. if p_exit_id p = i then p\<lparr>p_exit_id := []\<rparr> else p) peers"

definition exit_node_peers :: "peer list \<Rightarrow> peer list" where
  "exit_node_peers peers = filter (\<lambda>p. p_is_exit p \<and> p_enabled p) peers"

section \<open>Field predicates shared by the validators\<close>

text \<open>
  Base64 with padding, as \<^verbatim>\<open>encoding/base64\<close> decodes it: carriage returns and newlines
  are skipped anywhere, padding is mandatory and ends the input.
\<close>

definition b64_std :: "char \<Rightarrow> nat option" where
  "b64_std c =
     (if 65 \<le> ccode c \<and> ccode c \<le> 90 then Some (ccode c - 65)
      else if 97 \<le> ccode c \<and> ccode c \<le> 122 then Some (ccode c - 71)
      else if is_digit c then Some (ccode c + 4)
      else if c = CHR ''+'' then Some 62 else if c = CHR ''/'' then Some 63 else None)"

definition b64_url :: "char \<Rightarrow> nat option" where
  "b64_url c =
     (if c = CHR ''-'' then Some 62 else if c = CHR ''_'' then Some 63
      else if c = CHR ''+'' \<or> c = CHR ''/'' then None else b64_std c)"

fun b64_quanta :: "(char \<Rightarrow> nat option) \<Rightarrow> string \<Rightarrow> byte list option" where
  "b64_quanta dec [] = Some []"
| "b64_quanta dec (a # b # c # d # r) =
     (case (dec a, dec b) of
        (Some x, Some y) \<Rightarrow>
          if c = CHR ''='' \<and> d = CHR ''='' \<and> r = [] then Some [of_nat (x * 4 + y div 16)]
          else (case dec c of
              None \<Rightarrow> None
            | Some z \<Rightarrow>
                if d = CHR ''='' \<and> r = [] then
                  Some [of_nat (x * 4 + y div 16), of_nat (y mod 16 * 16 + z div 4)]
                else (case dec d of
                    None \<Rightarrow> None
                  | Some w \<Rightarrow>
                      (case b64_quanta dec r of
                         None \<Rightarrow> None
                       | Some bs \<Rightarrow> Some (of_nat (x * 4 + y div 16) # of_nat (y mod 16 * 16 + z div 4)
                                          # of_nat (z mod 4 * 64 + w) # bs))))
      | _ \<Rightarrow> None)"
| "b64_quanta dec _ = None"

definition b64_decode :: "(char \<Rightarrow> nat option) \<Rightarrow> string \<Rightarrow> byte list option" where
  "b64_decode dec s = b64_quanta dec (filter (\<lambda>c. ccode c \<noteq> 10 \<and> ccode c \<noteq> 13) s)"

definition is_valid_base64_key :: "string \<Rightarrow> bool" where
  "is_valid_base64_key s =
     (let t = trim_space s in length t = 44 \<and> b64_decode b64_std t \<noteq> None)"

definition is_cidr :: "string \<Rightarrow> bool" where
  "is_cidr s = (parse_cidr s \<noteq> None)"

definition is_valid_cidr_list :: "string \<Rightarrow> bool" where
  "is_valid_cidr_list s =
     list_all (\<lambda>part. trim_space part \<noteq> [] \<and> is_cidr (trim_space part)) (split_char CHR '','' s)"

text \<open>The host name pattern: dot-separated labels that start and end with a letter or digit.\<close>

definition is_label :: "string \<Rightarrow> bool" where
  "is_label w \<longleftrightarrow> w \<noteq> [] \<and> is_alnum (hd w) \<and> is_alnum (last w)
     \<and> list_all (\<lambda>c. is_alnum c \<or> c = CHR ''-'') w"

definition matches_hostname :: "string \<Rightarrow> bool" where
  "matches_hostname s = list_all is_label (split_char CHR ''.'' s)"

definition is_valid_dns_list :: "string \<Rightarrow> bool" where
  "is_valid_dns_list s =
     list_all (\<lambda>part. trim_space part \<noteq> [] \<and>
        (parse_ip (trim_space part) \<noteq> None \<or> matches_hostname (trim_space part)))
       (split_char CHR '','' s)"

definition is_valid_endpoint :: "string \<Rightarrow> bool" where
  "is_valid_endpoint s =
     (case split_host_port s of
        None \<Rightarrow> False
      | Some (host, port) \<Rightarrow>
          host \<noteq> [] \<and> snd (parse_int port) = None \<and>
          1 \<le> fst (parse_int port) \<and> fst (parse_int port) \<le> 65535)"

definition is_valid_table :: "string \<Rightarrow> bool" where
  "is_valid_table s \<longleftrightarrow> s = ''off'' \<or> s = ''auto'' \<or>
     (snd (parse_int s) = None \<and> 0 \<le> fst (parse_int s))"

definition is_valid_fwmark :: "string \<Rightarrow> bool" where
  "is_valid_fwmark s \<longleftrightarrow> s = ''off'' \<or>
     (if has_prefix s ''0x'' \<or> has_prefix s ''0X'' then snd (parse_uint 16 32 (drop 2 s)) = None
      else snd (parse_uint 10 32 s) = None)"

definition is_name_char :: "char \<Rightarrow> bool" where
  "is_name_char c \<longleftrightarrow> is_alnum c \<or> c \<in> {CHR '' '', CHR ''_'', CHR ''.'', CHR ''-''}"

definition matches_name :: "string \<Rightarrow> bool" where
  "matches_name s \<longleftrightarrow> s \<noteq> [] \<and> list_all is_name_char s"

definition matches_network_id :: "string \<Rightarrow> bool" where
  "matches_network_id s \<longleftrightarrow> length s = 16 \<and> list_all is_hex s"

section \<open>Address lists\<close>

text \<open>
  \<^verbatim>\<open>PeerIPs\<close> and \<^verbatim>\<open>PeerSources\<close>: the host addresses, and the source selectors, of a
  comma-separated CIDR list; entries that do not parse are skipped, repeats dropped.
\<close>

definition entry_ip :: "string \<Rightarrow> string list" where
  "entry_ip cidr =
     (case parse_cidr (trim_space cidr) of None \<Rightarrow> [] | Some (ip, n) \<Rightarrow> [ip_string ip])"

definition peer_ips :: "string \<Rightarrow> string list" where
  "peer_ips cidrs = dedup (concat (map entry_ip (split_char CHR '','' cidrs)))"

definition entry_selector :: "string \<Rightarrow> string list" where
  "entry_selector cidr =
     (case parse_cidr (trim_space cidr) of
        None \<Rightarrow> []
      | Some (ip, n) \<Rightarrow> [if net_ones n = net_bits n then ip_string ip else ipnet_string n])"

definition peer_sources :: "string \<Rightarrow> string list" where
  "peer_sources cidrs = dedup (concat (map entry_selector (split_char CHR '','' cidrs)))"

definition first_ip :: "string \<Rightarrow> string" where
  "first_ip cidrs = (case peer_ips cidrs of [] \<Rightarrow> [] | i # _ \<Rightarrow> i)"

text \<open>\<^verbatim>\<open>effectiveAllowedPrefixes\<close>: what a peer claims on the WireGuard interface.\<close>

definition entry_network :: "string \<Rightarrow> string list" where
  "entry_network v =
     (case parse_cidr (trim_space v) of None \<Rightarrow> [] | Some (ip, n) \<Rightarrow> [ipnet_string n])"

definition effective_allowed_values :: "peer \<Rightarrow> string list" where
  "effective_allowed_values p =
     (if p_is_exit p \<and> p_exit_all p then [''0.0.0.0/0'', ''::/0'']
      else split_char CHR '','' (p_allowed_ips p)
           @ (if p_is_exit p then p_exit_routes p else []) @ p_advertised p)"

definition effective_allowed_prefixes :: "peer \<Rightarrow> string list" where
  "effective_allowed_prefixes p = concat (map entry_network (effective_allowed_values p))"

section \<open>Gateways of policy routes\<close>

definition WGDevice :: string where
  "WGDevice = ''wg0''"

definition gateway_nets_add :: "string \<Rightarrow> string \<Rightarrow> gateway_net list" where
  "gateway_nets_add device cidr =
     (let c = trim_space cidr in
      if c \<noteq> [] \<and> is_cidr c then [\<lparr>gn_device = device, gn_cidr = c\<rparr>] else [])"

definition gateway_nets :: "string \<Rightarrow> gateway_net list \<Rightarrow> gateway_net list" where
  "gateway_nets server_addr zt =
     concat (map (gateway_nets_add WGDevice) (split_char CHR '','' server_addr))
     @ concat (map (\<lambda>n. gateway_nets_add (gn_device n) (gn_cidr n)) zt)"

text \<open>\<^verbatim>\<open>describeGateways\<close>: "a (x), b (y) or c (z)".\<close>

definition describe_gateways :: "gateway_net list \<Rightarrow> string" where
  "describe_gateways nets =
     (let parts = map (\<lambda>n. gn_cidr n @ '' ('' @ gn_device n @ '')'') nets in
      case parts of
        [] \<Rightarrow> ''a directly connected subnet''
      | [x] \<Rightarrow> x
      | _ \<Rightarrow> join '', '' (butlast parts) @ '' or '' @ last parts)"

datatype gw_error = ErrGatewayUnresolved | ErrGatewayAmbiguous | ErrGatewayInvalid

record gw_scan =
  gs_best :: int
  gs_device :: string
  gs_ambiguous :: bool

text \<open>One pass of the loop of \<^verbatim>\<open>ResolveGateway\<close>.\<close>

definition gw_step :: "byte list \<Rightarrow> gateway_net \<Rightarrow> gw_scan \<Rightarrow> gw_scan" where
  "gw_step ip n st =
     (case parse_cidr (trim_space (gn_cidr n)) of
        None \<Rightarrow> st
      | Some (_, net) \<Rightarrow>
          if \<not> net_contains net ip then st
          else if gs_best st < int (net_ones net) then
            \<lparr>gs_best = int (net_ones net), gs_device = gn_device n, gs_ambiguous = False\<rparr>
          else if int (net_ones net) = gs_best st \<and> gn_device n \<noteq> gs_device st then
            st\<lparr>gs_ambiguous := True\<rparr>
          else st)"

definition gw_scan_all :: "byte list \<Rightarrow> gateway_net list \<Rightarrow> gw_scan" where
  "gw_scan_all ip nets =
     foldl (\<lambda>st n. gw_step ip n st) \<lparr>gs_best = - 1, gs_device = [], gs_ambiguous = False\<rparr> nets"

text \<open>The error carries the text of \<^verbatim>\<open>err.Error()\<close> next to its kind.\<close>

definition resolve_gateway :: "string \<Rightarrow> gateway_net list \<Rightarrow> (gw_error \<times> string) + string" where
  "resolve_gateway gateway nets =
     (case parse_ip (trim_space gateway) of
        None \<Rightarrow> Inl (ErrGatewayInvalid, ''invalid gateway IP'')
      | Some ip \<Rightarrow>
          let st = gw_scan_all ip nets in
          if gs_ambiguous st then
            Inl (ErrGatewayAmbiguous,
              ''gateway is ambiguous across multiple networks: gateway '' @ gateway @
              '' matches multiple devices with prefix length /'' @ nat_dec (nat (gs_best st)))
          else if gs_best st = - 1 then
            Inl (ErrGatewayUnresolved,
              ''gateway is not on-link for any known network: gateway '' @ gateway @
              '' is not inside '' @ describe_gateways nets)
          else Inr (gs_device st))"

definition device_for_gateway :: "string \<Rightarrow> gateway_net list \<Rightarrow> string" where
  "device_for_gateway gateway nets =
     (case resolve_gateway gateway nets of Inl _ \<Rightarrow> [] | Inr dev \<Rightarrow> dev)"

section \<open>Longest prefix match\<close>

text \<open>The prefix length with which a known network covers an address, if it does.\<close>

definition link_len :: "byte list \<Rightarrow> gateway_net \<Rightarrow> nat option" where
  "link_len ip n =
     (case parse_cidr (trim_space (gn_cidr n)) of
        None \<Rightarrow> None
      | Some (_, net) \<Rightarrow> if net_contains net ip then Some (net_ones net) else None)"

lemma gw_step_link:
  "gw_step ip n st = (case link_len ip n of
     None \<Rightarrow> st
   | Some k \<Rightarrow> if gs_best st < int k then \<lparr>gs_best = int k, gs_device = gn_device n, gs_ambiguous = False\<rparr>
             else if int k = gs_best st \<and> gn_device n \<noteq> gs_device st then st\<lparr>gs_ambiguous := True\<rparr>
             else st)"
  by (simp add: gw_step_def link_len_def split: option.split)

text \<open>The scan invariant: nothing matched so far, or the best match is recorded together with
  whether another device reaches the same length.\<close>

definition scan_ok :: "byte list \<Rightarrow> gateway_net set \<Rightarrow> gw_scan \<Rightarrow> bool" where
  "scan_ok ip N st \<longleftrightarrow>
     (if gs_best st = - 1 then \<not> gs_ambiguous st \<and> (\<forall>n \<in> N. link_len ip n = None)
      else \<exists>k. gs_best st = int k
        \<and> (\<exists>n \<in> N. link_len ip n = Some k \<and> gn_device n = gs_device st)
        \<and> (\<forall>n \<in> N. \<forall>j. link_len ip n = Some j \<longrightarrow> j \<le> k)
        \<and> (gs_ambiguous st \<longleftrightarrow> (\<exists>n \<in> N. link_len ip n = Some k \<and> gn_device n \<noteq> gs_device st)))"

lemma scan_ok_step: "scan_ok ip N st \<Longrightarrow> scan_ok ip (insert n N) (gw_step ip n st)"
proof (cases "link_len ip n")
  case None
  then show "scan_ok ip N st \<Longrightarrow> ?thesis" by (simp add: scan_ok_def gw_step_link)
next
  case (Some k)
  assume ok: "scan_ok ip N st"
  consider "gs_best st = - 1" | m where "gs_best st = int m" using ok by (auto simp: scan_ok_def split: if_splits)
  then show ?thesis
  proof cases
    case 1
    with ok Some show ?thesis by (auto simp: scan_ok_def gw_step_link)
  next
    case 2
    consider "m < k" | "k = m" | "k < m" by linarith
    then show ?thesis
    proof cases
      case 1
      with ok Some 2 show ?thesis by (fastforce simp: scan_ok_def gw_step_link)
    qed (use ok Some 2 in \<open>auto simp: scan_ok_def gw_step_link\<close>)
  qed
qed

lemma scan_ok_all: "scan_ok ip (set nets) (gw_scan_all ip nets)"
proof (induction nets rule: rev_induct)
  case Nil
  then show ?case by (simp add: gw_scan_all_def scan_ok_def)
next
  case (snoc n nets)
  have "gw_scan_all ip (nets @ [n]) = gw_step ip n (gw_scan_all ip nets)" by (simp add: gw_scan_all_def)
  with snoc scan_ok_step show ?case by fastforce
qed

text \<open>C17: a gateway resolves to a device exactly when some known network of that device covers
  it and no network of another device covers it with the same or a longer prefix.\<close>

theorem resolve_gateway_iff:
  assumes "parse_ip (trim_space gateway) = Some ip"
  shows "resolve_gateway gateway nets = Inr dev \<longleftrightarrow>
    (\<exists>n \<in> set nets. \<exists>k. link_len ip n = Some k \<and> gn_device n = dev
       \<and> (\<forall>m \<in> set nets. \<forall>j. link_len ip m = Some j \<longrightarrow> j < k \<or> j = k \<and> gn_device m = dev))"
proof -
  let ?st = "gw_scan_all ip nets"
  have ok: "scan_ok ip (set nets) ?st" by (rule scan_ok_all)
  have r: "resolve_gateway gateway nets = Inr dev \<longleftrightarrow>
      \<not> gs_ambiguous ?st \<and> gs_best ?st \<noteq> - 1 \<and> gs_device ?st = dev"
    using assms by (auto simp: resolve_gateway_def Let_def)
  show ?thesis
  proof (cases "gs_best ?st = - 1")
    case True
    with ok r show ?thesis by (auto simp: scan_ok_def)
  next
    case False
    with ok obtain k n where k: "gs_best ?st = int k"
      "n \<in> set nets" "link_len ip n = Some k" "gn_device n = gs_device ?st"
      "\<forall>n \<in> set nets. \<forall>j. link_len ip n = Some j \<longrightarrow> j \<le> k"
      "gs_ambiguous ?st \<longleftrightarrow> (\<exists>n \<in> set nets. link_len ip n = Some k \<and> gn_device n \<noteq> gs_device ?st)"
      by (auto simp: scan_ok_def)
    show ?thesis unfolding r
    proof (intro iffI bexI exI conjI ballI allI impI)
      assume "\<exists>n \<in> set nets. \<exists>k. link_len ip n = Some k \<and> gn_device n = dev
        \<and> (\<forall>m \<in> set nets. \<forall>j. link_len ip m = Some j \<longrightarrow> j < k \<or> j = k \<and> gn_device m = dev)"
      then obtain n' k' where n': "n' \<in> set nets" "link_len ip n' = Some k'"
        "\<And>m j. m \<in> set nets \<Longrightarrow> link_len ip m = Some j \<Longrightarrow> j < k' \<or> j = k' \<and> gn_device m = dev" by blast
      from n'(3) [OF k(2,3)] k(5) n'(1,2) have "k' = k" by fastforce
      then have all: "gn_device m = dev" if "m \<in> set nets" "link_len ip m = Some k" for m
        using n'(3) [OF that] by simp
      from all [OF k(2,3)] k(4) show d: "gs_device ?st = dev" by simp
      show "\<not> gs_ambiguous ?st" unfolding k(6) d using all by blast
    qed (use False k in \<open>auto intro: le_neq_implies_less\<close>)
  qed
qed

theorem resolve_gateway_iff_witness:
  "resolve_gateway ''10.9.0.1'' [\<lparr>gn_device = ''wg0'', gn_cidr = ''10.0.0.1/8''\<rparr>,
     \<lparr>gn_device = ''zt0'', gn_cidr = ''10.9.0.7/16''\<rparr>] = Inr ''zt0''"
proof -
  let ?a = "\<lparr>gn_device = ''wg0'', gn_cidr = ''10.0.0.1/8''\<rparr>"
  let ?b = "\<lparr>gn_device = ''zt0'', gn_cidr = ''10.9.0.7/16''\<rparr>"
  have ip: "parse_ip (trim_space ''10.9.0.1'') = Some (v4_in_v6 @ [10, 9, 0, 1])" by code_simp
  have "link_len (v4_in_v6 @ [10, 9, 0, 1]) ?a = Some 8" "link_len (v4_in_v6 @ [10, 9, 0, 1]) ?b = Some 16"
    by code_simp+
  then show ?thesis by (subst resolve_gateway_iff [OF ip]) simp
qed

end
