(* ===== verification/Validation.thy ===== *)
theory Validation
  imports Models
begin

text \<open>
  The validators of \<^verbatim>\<open>internal/models/models.go\<close>.  Every validator returns the list of all
  its errors, in the order of the source; a configuration is accepted when the list is empty.
  The maps with which \<^verbatim>\<open>ValidateConfig\<close> detects duplicates (\<^verbatim>\<open>previous, ok := m[k]\<close>)
  are modelled by \<open>claim_all\<close>; \<open>config_ok\<close> is the declarative reading of an accepted
  configuration, and the last section proves the validator equivalent to it.
\<close>

section \<open>Errors\<close>

record validation_error =
  ve_field :: string
  ve_msg :: string

definition verr :: "string \<Rightarrow> string \<Rightarrow> validation_error" where
  "verr f m = \<lparr>ve_field = f, ve_msg = m\<rparr>"

definition errors_text :: "validation_error list \<Rightarrow> string" where
  "errors_text ve = join ''; '' (map (\<lambda>e. ve_field e @ '': '' @ ve_msg e) ve)"

definition has_field :: "validation_error list \<Rightarrow> string \<Rightarrow> bool" where
  "has_field ve f = list_ex (\<lambda>e. ve_field e = f) ve"

text \<open>\<^verbatim>\<open>if bad { errs = append(errs, ...) }\<close>.\<close>

definition check :: "bool \<Rightarrow> string \<Rightarrow> string \<Rightarrow> validation_error list" where
  "check bad f m = (if bad then [verr f m] else [])"

lemma check_Nil [simp]: "check bad f m = [] \<longleftrightarrow> \<not> bad"
  by (simp add: check_def)

definition indexed :: "string \<Rightarrow> nat \<Rightarrow> string \<Rightarrow> string" where
  "indexed p i f = p @ ''['' @ nat_dec i @ '']'' @ f"

definition blank :: "string \<Rightarrow> bool" where
  "blank s \<longleftrightarrow> trim_space s = []"

text \<open>The name check shared by peers and BGP peers, and the optional/required key checks.\<close>

definition name_errors :: "string \<Rightarrow> validation_error list" where
  "name_errors n =
     (if blank n then [verr ''name'' ''required'']
      else if 64 < length n then [verr ''name'' ''maximum 64 characters'']
      else check (\<not> matches_name n) ''name'' ''only letters, numbers, spaces, dashes, dots, underscores'')"

definition required_key_errors :: "string \<Rightarrow> string \<Rightarrow> validation_error list" where
  "required_key_errors f k =
     (if k = [] then [verr f ''required'']
      else check (\<not> is_valid_base64_key k) f ''must be a 44-character base64 key'')"

section \<open>Server\<close>

text \<open>The passkey loop carries the credential IDs seen so far.\<close>

fun passkey_errors :: "nat \<Rightarrow> string list \<Rightarrow> passkey list \<Rightarrow> validation_error list" where
  "passkey_errors i seen [] = []"
| "passkey_errors i seen (pk # pks) =
     (if blank (pk_name pk) then [verr (indexed ''passkeys'' i ''.name'') ''required'']
      else check (64 < length (pk_name pk)) (indexed ''passkeys'' i ''.name'') ''maximum 64 characters'')
     @ (if blank (pk_id pk) then [verr (indexed ''passkeys'' i ''.id'') ''required'']
        else check (pk_id pk \<in> set seen) (indexed ''passkeys'' i ''.id'') ''duplicate credential ID'')
     @ check (blank (pk_public_key pk)) (indexed ''passkeys'' i ''.publicKey'') ''required''
     @ passkey_errors (i + 1)
         (if blank (pk_id pk) \<or> pk_id pk \<in> set seen then seen else pk_id pk # seen) pks"

definition validate_server :: "server_config \<Rightarrow> validation_error list" where
  "validate_server s =
     required_key_errors ''privateKey'' (s_private_key s)
     @ check (s_listen_port s = 0) ''listenPort'' ''required and must be > 0''
     @ (if s_address s = [] then [verr ''address'' ''required'']
        else check (\<not> is_valid_cidr_list (s_address s)) ''address'' ''must be valid CIDR (e.g. 10.0.0.1/24)'')
     @ check (s_endpoint s \<noteq> [] \<and> \<not> is_valid_endpoint (s_endpoint s)) ''endpoint'' ''must be host:port''
     @ check (s_dns s \<noteq> [] \<and> \<not> is_valid_dns_list (s_dns s)) ''dns'' ''must be comma-separated IPs or hostnames''
     @ check (s_mtu s \<noteq> 0 \<and> s_mtu s < 1280) ''mtu'' ''must be 1280-65535''
     @ check (s_table s \<noteq> [] \<and> \<not> is_valid_table (s_table s)) ''table'' (''must be '' @ sq ''off'' @ '', '' @ sq ''auto'' @ '', or a numeric value'')
     @ check (s_fwmark s \<noteq> [] \<and> \<not> is_valid_fwmark (s_fwmark s)) ''fwMark'' (''must be a number, hex (0x...), or '' @ sq ''off'')
     @ check (4096 < length (s_pre_up s)) ''preUp'' ''maximum 4096 characters''
     @ check (4096 < length (s_post_up s)) ''postUp'' ''maximum 4096 characters''
     @ check (4096 < length (s_pre_down s)) ''preDown'' ''maximum 4096 characters''
     @ check (4096 < length (s_post_down s)) ''postDown'' ''maximum 4096 characters''
     @ (if s_bgp_enabled s then
          check (s_bgp_address s \<noteq> [] \<and> parse_ip (s_bgp_address s) = None) ''bgpListenAddress'' ''must be a valid IP address''
          @ check (s_bgp_port s = 0) ''bgpListenPort'' ''must be > 0''
          @ check (s_bgp_asn s = 0) ''bgpAsn'' ''required when BGP is enabled''
        else [])
     @ check (s_require_passkey s \<and> s_passkeys s = []) ''requirePasskey''
         ''cannot require passkey login when no passkeys are configured''
     @ passkey_errors 0 [] (s_passkeys s)"

section \<open>ZeroTier\<close>

fun zt_network_errors :: "nat \<Rightarrow> string list \<Rightarrow> zt_network list \<Rightarrow> validation_error list" where
  "zt_network_errors i seen [] = []"
| "zt_network_errors i seen (n # ns) =
     (let key = to_lower (trim_space (zn_id n)); field = indexed ''ztNetworks'' i ''.id'' in
      (if key = [] then [verr field ''required'']
       else if \<not> matches_network_id key then
         [verr field (''must be 16 hexadecimal characters: '' @ zn_id n)]
       else check (key \<in> set seen) field (''duplicate network: '' @ zn_id n))
      @ check (64 < length (zn_name n)) (indexed ''ztNetworks'' i ''.name'') ''maximum 64 characters''
      @ zt_network_errors (i + 1)
          (if key = [] \<or> \<not> matches_network_id key \<or> key \<in> set seen then seen else key # seen) ns)"

definition validate_zerotier :: "zt_config \<Rightarrow> validation_error list" where
  "validate_zerotier z =
     check (zt_port z \<noteq> 0 \<and> zt_port z < 1024) ''ztPort'' ''must be 1024-65535, or empty for the default (9993)''
     @ zt_network_errors 0 [] (zt_networks z)"

section \<open>VPN gateways and BGP peers\<close>

text \<open>\<^verbatim>\<open>ValidateVPNGateway\<close> stops at its first error.\<close>

definition validate_vpn_gateway :: "vpn_gateway \<Rightarrow> string option" where
  "validate_vpn_gateway g =
     (if blank (g_id g) then Some ''gateway ID is required''
      else if blank (g_name g) then Some ''gateway name is required''
      else if blank (g_interface g) then Some ''gateway interface is required''
      else if \<not> is_valid_base64_key (g_private_key g) then Some ''gateway private key is invalid''
      else if \<not> is_valid_cidr_list (g_address g) then Some ''gateway address is invalid''
      else if \<not> is_valid_base64_key (g_public_key g) then Some ''gateway public key is invalid''
      else if \<not> is_valid_cidr_list (g_allowed_ips g) then Some ''gateway AllowedIPs are invalid''
      else if \<not> is_valid_endpoint (g_endpoint g) then Some ''gateway endpoint is invalid''
      else if g_mtu g \<noteq> 0 \<and> g_mtu g < 1280 then Some ''gateway MTU must be at least 1280''
      else None)"

fun route_filter_errors :: "string \<Rightarrow> nat \<Rightarrow> route_filter list \<Rightarrow> validation_error list" where
  "route_filter_errors p i [] = []"
| "route_filter_errors p i (f # fs) =
     (if rf_prefix f = [] then [verr (indexed p i ''.prefix'') ''required'']
      else check (\<not> is_cidr (rf_prefix f)) (indexed p i ''.prefix'') ''invalid CIDR'')
     @ check (rf_matcher f \<noteq> ''exact'' \<and> rf_matcher f \<noteq> ''orlonger'') (indexed p i ''.matcher'')
         (''must be '' @ sq ''exact'' @ '' or '' @ sq ''orlonger'')
     @ check (rf_action f \<noteq> ''accept'' \<and> rf_action f \<noteq> ''reject'') (indexed p i ''.action'')
         (''must be '' @ sq ''accept'' @ '' or '' @ sq ''reject'')
     @ route_filter_errors p (i + 1) fs"

definition validate_bgp_peer :: "bgp_peer \<Rightarrow> validation_error list" where
  "validate_bgp_peer p =
     name_errors (b_name p)
     @ (if b_peer_ip p = [] then [verr ''bgpPeerIP'' ''required'']
        else check (parse_ip (b_peer_ip p) = None) ''bgpPeerIP'' ''must be a valid IP address'')
     @ (if b_peer_port p = 0 then [verr ''bgpPeerPort'' ''must be > 0'']
        else check (b_peer_port p \<noteq> 179) ''bgpPeerPort''
               ''the embedded BGP engine currently supports peer port 179 only'')
     @ check (b_peer_asn p = 0) ''bgpPeerAsn'' ''required''
     @ check (128 < b_max_received p) ''bgpMaxReceivedPrefixLength'' ''must be between 0 and 128''
     @ check (128 < b_max_advertised p) ''bgpMaxAdvertisedPrefixLength'' ''must be between 0 and 128''
     @ route_filter_errors ''routeFilters'' 0 (b_route_filters p)
     @ route_filter_errors ''exportFilters'' 0 (b_export_filters p)"

section \<open>Peers\<close>

definition cidr_errors :: "string \<Rightarrow> string list \<Rightarrow> validation_error list" where
  "cidr_errors f routes = concat (map (\<lambda>r. check (\<not> is_cidr r) f (''invalid CIDR: '' @ r)) routes)"

text \<open>One policy route \<^verbatim>\<open>CIDR via IP\<close>; with known networks its gateway must resolve.\<close>

definition gateway_errors :: "gateway_net list \<Rightarrow> byte list \<Rightarrow> validation_error list" where
  "gateway_errors nets gw =
     (if nets = [] then [] else
      case resolve_gateway (ip_string gw) nets of
        Inr _ \<Rightarrow> []
      | Inl (e, msg) \<Rightarrow>
          if e = ErrGatewayAmbiguous then [verr ''policyRoutes'' msg]
          else [verr ''policyRoutes'' (''gateway '' @ ip_string gw @
                  '' is not directly reachable: it must be inside '' @ describe_gateways nets)])"

definition policy_route_errors :: "gateway_net list \<Rightarrow> string \<Rightarrow> validation_error list" where
  "policy_route_errors nets pr =
     (case split_str pr '' via '' of
        [dst, via] \<Rightarrow>
          check (\<not> is_cidr (trim_space dst)) ''policyRoutes'' (''invalid CIDR: '' @ dst)
          @ (case parse_ip (trim_space via) of
               None \<Rightarrow> [verr ''policyRoutes'' (''invalid Gateway IP: '' @ via)]
             | Some gw \<Rightarrow> gateway_errors nets gw)
      | _ \<Rightarrow> [verr ''policyRoutes'' (''invalid format (must be '' @ sq ''CIDR via IP'' @ ''): '' @ pr)])"

definition validate_peer :: "gateway_net list \<Rightarrow> peer \<Rightarrow> validation_error list" where
  "validate_peer nets p =
     name_errors (p_name p)
     @ required_key_errors ''privateKey'' (p_private_key p)
     @ required_key_errors ''publicKey'' (p_public_key p)
     @ check (p_preshared_key p \<noteq> [] \<and> \<not> is_valid_base64_key (p_preshared_key p)) ''presharedKey''
         ''must be a 44-character base64 key''
     @ (if p_allowed_ips p = [] then [verr ''allowedIPs'' ''required'']
        else check (\<not> is_valid_cidr_list (p_allowed_ips p)) ''allowedIPs'' ''must be comma-separated CIDRs'')
     @ check (p_endpoint p \<noteq> [] \<and> \<not> is_valid_endpoint (p_endpoint p)) ''endpoint'' ''must be host:port''
     @ check (p_client_allowed_ips p \<noteq> [] \<and> \<not> is_valid_cidr_list (p_client_allowed_ips p))
         ''clientAllowedIPs'' ''must be comma-separated CIDRs''
     @ check (p_dns p \<noteq> [] \<and> \<not> is_valid_dns_list (p_dns p)) ''dns'' ''must be comma-separated IPs or hostnames''
     @ check (p_is_exit p \<and> p_exit_id p \<noteq> []) ''exitNodeID''
         ''a peer cannot be both an exit node and use an exit node''
     @ (if p_is_exit p \<and> \<not> p_exit_all p then cidr_errors ''exitNodeRoutes'' (p_exit_routes p) else [])
     @ cidr_errors ''advertisedRoutes'' (p_advertised p)
     @ concat (map (policy_route_errors nets) (p_policy_routes p))
     @ check (p_strict p \<and> p_policy_routes p = [] \<and> p_exit_id p = []) ''strictPolicyRouting''
         (''requires at least one policy route (or an exit node); '' @
          ''otherwise all traffic from this peer would be blocked'')"

definition validate_exit_node_refs :: "peer list \<Rightarrow> validation_error list" where
  "validate_exit_node_refs peers =
     (let exits = map p_id (filter (\<lambda>p. p_enabled p \<and> p_is_exit p) peers) in
      concat (map (\<lambda>p. check (p_exit_id p \<noteq> [] \<and> p_exit_id p \<notin> set exits) ''exitNodeID''
         (''references missing, disabled, or non-exit peer '' @ go_quote (p_exit_id p))) peers))"

section \<open>The whole configuration\<close>

text \<open>
  \<^verbatim>\<open>if previous, ok := m[k]; ok { report } else { m[k] = owner }\<close>, for a list of keys.
  A claim is the key, its owner, and the error to report against the previous owner.
\<close>

type_synonym 'k claim = "'k \<times> string \<times> (string \<Rightarrow> validation_error)"

fun claim_all :: "('k \<Rightarrow> string option) \<Rightarrow> 'k claim list \<Rightarrow> ('k \<Rightarrow> string option) \<times> validation_error list" where
  "claim_all m [] = (m, [])"
| "claim_all m ((k, owner, report) # cs) =
     (case m k of
        Some previous \<Rightarrow> (case claim_all m cs of (m', es) \<Rightarrow> (m', report previous # es))
      | None \<Rightarrow> claim_all (m(k := Some owner)) cs)"

text \<open>The gateway loop; empty identifiers and interfaces and table 0 are never claimed.\<close>

record gateway_maps =
  gm_ids :: "string \<Rightarrow> string option"
  gm_ifaces :: "string \<Rightarrow> string option"
  gm_tables :: "nat \<Rightarrow> string option"

definition gateway_id_claim :: "vpn_gateway \<Rightarrow> string claim list" where
  "gateway_id_claim g = (if g_id g = [] then [] else [(g_id g, g_name g, \<lambda>previous.
     verr ''vpnGateway.id'' (''gateway '' @ go_quote (g_name g) @ '' duplicates ID used by '' @ go_quote previous))])"

definition gateway_iface_claim :: "vpn_gateway \<Rightarrow> string claim list" where
  "gateway_iface_claim g = (if g_interface g = [] then [] else [(g_interface g, g_name g, \<lambda>previous.
     verr ''vpnGateway.interface'' (''gateway '' @ go_quote (g_name g) @ '' reuses interface '' @
       go_quote (g_interface g) @ '' used by '' @ go_quote previous))])"

definition gateway_table_claim :: "vpn_gateway \<Rightarrow> nat claim list" where
  "gateway_table_claim g = (if g_table g = 0 then [] else [(g_table g, g_name g, \<lambda>previous.
     verr ''vpnGateway.routingTableID'' (''gateway '' @ go_quote (g_name g) @ '' reuses routing table '' @
       nat_dec (g_table g) @ '' used by '' @ go_quote previous))])"

definition gateway_field_errors :: "vpn_gateway \<Rightarrow> validation_error list" where
  "gateway_field_errors g =
     (let q = ''gateway '' @ go_quote (g_name g) in
      check (g_private_key g \<noteq> [] \<and> \<not> is_valid_base64_key (g_private_key g)) ''vpnGateway.privateKey''
        (q @ '' has an invalid private key'')
      @ check (g_address g \<noteq> [] \<and> \<not> is_valid_cidr_list (g_address g)) ''vpnGateway.address''
          (q @ '' has an invalid address'')
      @ check (g_public_key g \<noteq> [] \<and> \<not> is_valid_base64_key (g_public_key g)) ''vpnGateway.publicKey''
          (q @ '' has an invalid public key'')
      @ check (g_preshared_key g \<noteq> [] \<and> \<not> is_valid_base64_key (g_preshared_key g)) ''vpnGateway.presharedKey''
          (q @ '' has an invalid preshared key'')
      @ check (g_allowed_ips g \<noteq> [] \<and> \<not> is_valid_cidr_list (g_allowed_ips g)) ''vpnGateway.allowedIPs''
          (q @ '' has invalid AllowedIPs'')
      @ check (g_endpoint g \<noteq> [] \<and> \<not> is_valid_endpoint (g_endpoint g)) ''vpnGateway.endpoint''
          (q @ '' has an invalid endpoint''))"

fun gateway_loop :: "gateway_maps \<Rightarrow> vpn_gateway list \<Rightarrow> validation_error list" where
  "gateway_loop st [] = []"
| "gateway_loop st (g # gs) =
     (let (ids, e1) = claim_all (gm_ids st) (gateway_id_claim g);
          (ifs, e2) = claim_all (gm_ifaces st) (gateway_iface_claim g);
          (tabs, e3) = claim_all (gm_tables st) (gateway_table_claim g) in
      check (blank (g_id g)) ''vpnGateway.id'' ''required''
      @ check (blank (g_name g)) ''vpnGateway.name'' ''required''
      @ e1 @ e2 @ e3 @ gateway_field_errors g
      @ gateway_loop \<lparr>gm_ids = ids, gm_ifaces = ifs, gm_tables = tabs\<rparr> gs)"

definition gateway_ref_errors :: "vpn_gateway list \<Rightarrow> peer list \<Rightarrow> validation_error list" where
  "gateway_ref_errors gs peers =
     concat (map (\<lambda>p. check (p_gateway_id p \<noteq> [] \<and> find_vpn_gateway_by_id gs (p_gateway_id p) = None)
       ''vpnGatewayID'' (''peer '' @ go_quote (p_name p) @ '' references missing VPN gateway '' @
          go_quote (p_gateway_id p))) peers)"

text \<open>The peer loop.\<close>

record peer_maps =
  pm_ids :: "string \<Rightarrow> string option"
  pm_keys :: "string \<Rightarrow> string option"
  pm_prefixes :: "string \<Rightarrow> string option"
  pm_tables :: "nat \<Rightarrow> string option"

definition peer_table_claims :: "peer \<Rightarrow> nat claim list" where
  "peer_table_claims p =
     concat (map (\<lambda>(i, field, role).
       (let owner = ''peer '' @ go_quote (p_name p) @ '' '' @ role in
        if i = 0 then [] else [(i, owner, \<lambda>previous.
          verr field (owner @ '' reuses table '' @ nat_dec i @ '' assigned to '' @ previous))]))
      [(p_table p, ''routingTableID'', ''exit-node table''),
       (p_policy_table p, ''policyRoutingTableID'', ''policy table'')])"

definition peer_prefix_claims :: "peer \<Rightarrow> string claim list" where
  "peer_prefix_claims p =
     (if p_enabled p then
        map (\<lambda>prefix. (prefix, p_name p, \<lambda>previous.
          verr ''allowedIPs'' (''peer '' @ go_quote previous @ '' and '' @ go_quote (p_name p) @
            '' both claim '' @ prefix))) (effective_allowed_prefixes p)
      else [])"

definition peer_id_claim :: "peer \<Rightarrow> string claim list" where
  "peer_id_claim p = [(p_id p, p_name p, \<lambda>previous.
     verr ''id'' (''peer '' @ go_quote (p_name p) @ '' duplicates ID used by '' @ go_quote previous))]"

definition peer_key_claim :: "peer \<Rightarrow> string claim list" where
  "peer_key_claim p = [(p_public_key p, p_name p, \<lambda>previous.
     verr ''publicKey'' (''peer '' @ go_quote (p_name p) @ '' duplicates key used by '' @ go_quote previous))]"

fun peer_loop :: "peer_maps \<Rightarrow> peer list \<Rightarrow> validation_error list" where
  "peer_loop st [] = []"
| "peer_loop st (p # ps) =
     (let (ids, e1) = claim_all (pm_ids st) (peer_id_claim p);
          (keys, e2) = claim_all (pm_keys st) (peer_key_claim p);
          (tabs, e3) = claim_all (pm_tables st) (peer_table_claims p);
          (prefs, e4) = claim_all (pm_prefixes st) (peer_prefix_claims p) in
      e1 @ e2
      @ check (p_is_exit p \<and> p_table p = 0) ''routingTableID''
          (''exit-node peer '' @ go_quote (p_name p) @ '' has no routing table'')
      @ check (p_policy_routes p \<noteq> [] \<and> p_policy_table p = 0) ''policyRoutingTableID''
          (''peer '' @ go_quote (p_name p) @ '' has policy routes but no routing table'')
      @ e3 @ e4
      @ peer_loop \<lparr>pm_ids = ids, pm_keys = keys, pm_prefixes = prefs, pm_tables = tabs\<rparr> ps)"

text \<open>The BGP peer loop.\<close>

definition bgp_id_claim :: "bgp_peer \<Rightarrow> string claim list" where
  "bgp_id_claim p = [(b_id p, b_name p, \<lambda>previous.
     verr ''id'' (''BGP peer '' @ go_quote (b_name p) @ '' duplicates ID used by '' @ go_quote previous))]"

definition bgp_ip_claim :: "bgp_peer \<Rightarrow> string claim list" where
  "bgp_ip_claim p =
     (if \<not> b_enabled p then [] else
      case parse_ip (trim_space (b_peer_ip p)) of
        None \<Rightarrow> []
      | Some ip \<Rightarrow> [(ip_string ip, b_name p, \<lambda>previous.
          verr ''bgpPeerIP'' (''BGP peer '' @ go_quote (b_name p) @ '' duplicates address used by '' @
            go_quote previous))])"

fun bgp_loop :: "(string \<Rightarrow> string option) \<Rightarrow> (string \<Rightarrow> string option) \<Rightarrow> bgp_peer list \<Rightarrow> validation_error list" where
  "bgp_loop ids ips [] = []"
| "bgp_loop ids ips (p # ps) =
     (let (ids', e1) = claim_all ids (bgp_id_claim p); (ips', e2) = claim_all ips (bgp_ip_claim p) in
      e1 @ e2 @ bgp_loop ids' ips' ps)"

definition no_gateway_maps :: gateway_maps where
  "no_gateway_maps = \<lparr>gm_ids = \<lambda>_. None, gm_ifaces = \<lambda>_. None, gm_tables = \<lambda>_. None\<rparr>"

definition no_peer_maps :: peer_maps where
  "no_peer_maps = \<lparr>pm_ids = \<lambda>_. None, pm_keys = \<lambda>_. None, pm_prefixes = \<lambda>_. None, pm_tables = \<lambda>_. None\<rparr>"

definition validate_config :: "app_config \<Rightarrow> validation_error list" where
  "validate_config cfg =
     validate_server (cfg_server cfg) @ validate_zerotier (cfg_zerotier cfg)
     @ concat (map (validate_peer []) (cfg_peers cfg))
     @ validate_exit_node_refs (cfg_peers cfg)
     @ concat (map validate_bgp_peer (cfg_bgp_peers cfg))
     @ gateway_loop no_gateway_maps (cfg_gateways cfg)
     @ gateway_ref_errors (cfg_gateways cfg) (cfg_peers cfg)
     @ peer_loop no_peer_maps (cfg_peers cfg)
     @ bgp_loop (\<lambda>_. None) (\<lambda>_. None) (cfg_bgp_peers cfg)"

section \<open>Duplicate detection\<close>

lemma claim_all_dom: "dom (fst (claim_all m cs)) = dom m \<union> fst ` set cs"
proof (induction cs arbitrary: m)
  case (Cons c cs)
  obtain k owner report where c: "c = (k, owner, report)" by (cases c)
  show ?case
  proof (cases "m k")
    case None
    with c Cons [of "m(k \<mapsto> owner)"] show ?thesis by (simp del: fun_upd_apply)
  next
    case (Some v)
    then have "k \<in> dom m" by auto
    with Some c Cons [of m] show ?thesis by (simp add: split_beta insert_absorb)
  qed
qed simp

lemma claim_all_Nil: "snd (claim_all m cs) = [] \<longleftrightarrow> distinct (map fst cs) \<and> set (map fst cs) \<inter> dom m = {}"
proof (induction cs arbitrary: m)
  case (Cons c cs)
  obtain k owner report where c: "c = (k, owner, report)" by (cases c)
  show ?case
  proof (cases "m k")
    case None
    then have "k \<notin> dom m" by auto
    have d: "dom (m(k \<mapsto> owner)) = insert k (dom m)" by simp
    show ?thesis
      using None c \<open>k \<notin> dom m\<close> Cons [of "m(k \<mapsto> owner)", unfolded d] by (simp del: fun_upd_apply) blast
  next
    case (Some v)
    then have "k \<in> dom m" by auto
    with Some c show ?thesis by (auto simp add: split_beta)
  qed
qed simp

lemma concat_map_Nil [simp]: "concat (map f xs) = [] \<longleftrightarrow> (\<forall>x \<in> set xs. f x = [])"
  by auto

definition gateway_table_keys :: "vpn_gateway list \<Rightarrow> nat list" where
  "gateway_table_keys gs = filter (\<lambda>t. t \<noteq> 0) (map g_table gs)"

definition peer_tables :: "peer list \<Rightarrow> nat list" where
  "peer_tables ps = filter (\<lambda>t. t \<noteq> 0) (concat (map (\<lambda>p. [p_table p, p_policy_table p]) ps))"

definition claimed_prefixes :: "peer list \<Rightarrow> string list" where
  "claimed_prefixes ps = concat (map effective_allowed_prefixes (filter p_enabled ps))"

definition bgp_addresses :: "bgp_peer list \<Rightarrow> string list" where
  "bgp_addresses ps = concat (map (\<lambda>p. if b_enabled p then
     (case parse_ip (trim_space (b_peer_ip p)) of None \<Rightarrow> [] | Some ip \<Rightarrow> [ip_string ip]) else []) ps)"

lemma peer_table_claims_keys: "map fst (peer_table_claims p) = peer_tables [p]"
  by (simp add: peer_table_claims_def peer_tables_def Let_def)

lemma peer_prefix_claims_keys: "map fst (peer_prefix_claims p) = claimed_prefixes [p]"
  by (simp add: peer_prefix_claims_def claimed_prefixes_def comp_def)

lemma bgp_ip_claim_keys: "map fst (bgp_ip_claim p) = bgp_addresses [p]"
  by (simp add: bgp_ip_claim_def bgp_addresses_def split: option.split)

lemmas claim_keys = peer_table_claims_keys peer_prefix_claims_keys bgp_ip_claim_keys

lemma keys_Cons:
  "peer_tables (p # ps) = peer_tables [p] @ peer_tables ps"
  "claimed_prefixes (p # ps) = claimed_prefixes [p] @ claimed_prefixes ps"
  "bgp_addresses (b # bs) = bgp_addresses [b] @ bgp_addresses bs"
  by (simp_all add: peer_tables_def claimed_prefixes_def bgp_addresses_def)

lemma claim_all_keys:
  "map fst cs = ks \<Longrightarrow> snd (claim_all m cs) = [] \<longleftrightarrow> distinct ks \<and> set ks \<inter> dom m = {}"
  "map fst cs = ks \<Longrightarrow> dom (fst (claim_all m cs)) = dom m \<union> set ks"
  unfolding claim_all_Nil claim_all_dom by (simp_all flip: set_map)

lemma peer_loop_Nil:
  "peer_loop st ps = [] \<longleftrightarrow>
     distinct (map p_id ps) \<and> p_id ` set ps \<inter> dom (pm_ids st) = {}
     \<and> distinct (map p_public_key ps) \<and> p_public_key ` set ps \<inter> dom (pm_keys st) = {}
     \<and> distinct (peer_tables ps) \<and> set (peer_tables ps) \<inter> dom (pm_tables st) = {}
     \<and> distinct (claimed_prefixes ps) \<and> set (claimed_prefixes ps) \<inter> dom (pm_prefixes st) = {}
     \<and> (\<forall>p \<in> set ps. (p_is_exit p \<longrightarrow> p_table p \<noteq> 0) \<and> (p_policy_routes p = [] \<or> p_policy_table p \<noteq> 0))"
proof (induction ps arbitrary: st)
  case Nil
  then show ?case by (simp add: peer_tables_def claimed_prefixes_def)
next
  case (Cons p ps)
  have k: "map fst (peer_id_claim p) = [p_id p]" "map fst (peer_key_claim p) = [p_public_key p]"
    by (simp_all add: peer_id_claim_def peer_key_claim_def)
  note e = claim_all_keys [OF k(1), of "pm_ids st"] claim_all_keys [OF k(2), of "pm_keys st"]
    claim_all_keys [OF claim_keys(1), of "pm_tables st" p] claim_all_keys [OF claim_keys(2), of "pm_prefixes st" p]
  show ?case
    unfolding keys_Cons(1) [of p ps] keys_Cons(2) [of p ps]
    by (simp add: split_beta Let_def e Cons.IH Int_Un_distrib Int_Un_distrib2 conj_ac disj_ac Int_commute)
qed

lemma gateway_loop_Nil:
  "gateway_loop st gs = [] \<longleftrightarrow>
     (\<forall>g \<in> set gs. \<not> blank (g_id g) \<and> \<not> blank (g_name g) \<and> gateway_field_errors g = [])
     \<and> distinct (map g_id gs) \<and> g_id ` set gs \<inter> dom (gm_ids st) = {}
     \<and> distinct (filter (\<lambda>i. i \<noteq> []) (map g_interface gs))
     \<and> set (filter (\<lambda>i. i \<noteq> []) (map g_interface gs)) \<inter> dom (gm_ifaces st) = {}
     \<and> distinct (gateway_table_keys gs) \<and> set (gateway_table_keys gs) \<inter> dom (gm_tables st) = {}"
proof (induction gs arbitrary: st)
  case Nil
  then show ?case by (simp add: gateway_table_keys_def)
next
  case (Cons g gs)
  have k: "map fst (gateway_id_claim g) = (if g_id g = [] then [] else [g_id g])"
    "map fst (gateway_iface_claim g) = (if g_interface g = [] then [] else [g_interface g])"
    "map fst (gateway_table_claim g) = (if g_table g = 0 then [] else [g_table g])"
    by (simp_all add: gateway_id_claim_def gateway_iface_claim_def gateway_table_claim_def)
  note e = claim_all_keys [OF k(1), of "gm_ids st"] claim_all_keys [OF k(2), of "gm_ifaces st"]
    claim_all_keys [OF k(3), of "gm_tables st"]
  have b: "\<not> blank (g_id g) \<Longrightarrow> g_id g \<noteq> []" by (auto simp: blank_def)
  show ?case
    by (cases "blank (g_id g)"; cases "g_interface g = []"; cases "g_table g = 0")
      (auto simp: split_beta Let_def e Cons.IH gateway_table_keys_def dest: b)
qed

lemma bgp_loop_Nil:
  "bgp_loop ids ips ps = [] \<longleftrightarrow> distinct (map b_id ps) \<and> b_id ` set ps \<inter> dom ids = {}
     \<and> distinct (bgp_addresses ps) \<and> set (bgp_addresses ps) \<inter> dom ips = {}"
proof (induction ps arbitrary: ids ips)
  case Nil
  then show ?case by (simp add: bgp_addresses_def)
next
  case (Cons p ps)
  have k: "map fst (bgp_id_claim p) = [b_id p]" by (simp add: bgp_id_claim_def)
  note e = claim_all_keys [OF k, of ids] claim_all_keys [OF claim_keys(3), of ips p]
  show ?case unfolding keys_Cons(3) [of p ps]
    by (simp add: split_beta Let_def e Cons.IH Int_Un_distrib Int_Un_distrib2 conj_ac Int_commute)
qed

section \<open>Accepted configurations\<close>

text \<open>What an accepted configuration guarantees across its parts.\<close>

definition config_ok :: "app_config \<Rightarrow> bool" where
  "config_ok cfg \<longleftrightarrow>
     (let ps = cfg_peers cfg; gs = cfg_gateways cfg; bs = cfg_bgp_peers cfg in
      validate_server (cfg_server cfg) = [] \<and> validate_zerotier (cfg_zerotier cfg) = []
      \<and> (\<forall>p \<in> set ps. validate_peer [] p = [])
      \<and> (\<forall>b \<in> set bs. validate_bgp_peer b = [])
      \<and> (\<forall>p \<in> set ps. p_exit_id p = []
           \<or> (\<exists>q \<in> set ps. p_id q = p_exit_id p \<and> p_enabled q \<and> p_is_exit q))
      \<and> (\<forall>p \<in> set ps. p_gateway_id p = [] \<or> p_gateway_id p \<in> g_id ` set gs)
      \<and> (\<forall>p \<in> set ps. (p_is_exit p \<longrightarrow> p_table p \<noteq> 0)
           \<and> (p_policy_routes p = [] \<or> p_policy_table p \<noteq> 0))
      \<and> distinct (map p_id ps) \<and> distinct (map p_public_key ps)
      \<and> distinct (peer_tables ps) \<and> distinct (claimed_prefixes ps)
      \<and> (\<forall>g \<in> set gs. \<not> blank (g_id g) \<and> \<not> blank (g_name g) \<and> gateway_field_errors g = [])
      \<and> distinct (map g_id gs) \<and> distinct (filter (\<lambda>i. i \<noteq> []) (map g_interface gs))
      \<and> distinct (gateway_table_keys gs)
      \<and> distinct (map b_id bs) \<and> distinct (bgp_addresses bs))"

lemma exit_refs_Nil:
  "validate_exit_node_refs ps = [] \<longleftrightarrow>
     (\<forall>p \<in> set ps. p_exit_id p = [] \<or> (\<exists>q \<in> set ps. p_id q = p_exit_id p \<and> p_enabled q \<and> p_is_exit q))"
  unfolding validate_exit_node_refs_def Let_def concat_map_Nil check_Nil set_map set_filter image_iff
  by fastforce

lemma gateway_refs_Nil:
  "gateway_ref_errors gs ps = [] \<longleftrightarrow> (\<forall>p \<in> set ps. p_gateway_id p = [] \<or> p_gateway_id p \<in> g_id ` set gs)"
  unfolding gateway_ref_errors_def concat_map_Nil check_Nil gateways.lookup_None_iff by auto

lemma config_nil_ok: "validate_config cfg = [] \<longleftrightarrow> config_ok cfg"
  unfolding validate_config_def config_ok_def Let_def append_is_Nil_conv concat_map_Nil
    peer_loop_Nil gateway_loop_Nil bgp_loop_Nil exit_refs_Nil gateway_refs_Nil
  by (simp add: no_peer_maps_def no_gateway_maps_def ball_conj_distrib conj_ac)

text \<open>C10: the whole-configuration validator accepts exactly the configurations in which every part
  is valid on its own, every exit-node and gateway reference resolves, and identifiers, keys,
  routing tables, interfaces, BGP addresses and the WireGuard prefixes of enabled peers are unique.\<close>

theorem validate_config_iff: "validate_config cfg = [] \<longleftrightarrow> config_ok cfg"
  by (rule config_nil_ok)

section \<open>Single validators\<close>

lemma passkey_errors_Nil:
  "passkey_errors i seen pks = [] \<Longrightarrow>
     distinct (map pk_id pks) \<and> set (map pk_id pks) \<inter> set seen = {} \<and> (\<forall>k \<in> set pks. \<not> blank (pk_id k) \<and> \<not> blank (pk_public_key k))"
proof (induction pks arbitrary: i seen)
  case (Cons k pks)
  from Cons.prems have k: "\<not> blank (pk_id k)" "pk_id k \<notin> set seen" "\<not> blank (pk_public_key k)"
    by (auto split: if_splits)
  with Cons.prems have "passkey_errors (i + 1) (pk_id k # seen) pks = []" by simp
  from Cons.IH [OF this] k show ?case by auto
qed simp

text \<open>An accepted server configuration that requires passkey login has a passkey to log in
  with, and no two passkeys share a credential ID.\<close>

theorem validate_server_passkeys:
  assumes "validate_server s = []"
  shows "distinct (map pk_id (s_passkeys s)) \<and> (s_require_passkey s \<longrightarrow> s_passkeys s \<noteq> [])"
  using assms passkey_errors_Nil [of 0 "[]" "s_passkeys s"] by (auto simp: validate_server_def)

definition sample_key :: string where
  "sample_key = replicate 43 CHR ''A'' @ ''=''"

definition sample_server :: server_config where
  "sample_server = zero_server\<lparr>s_private_key := sample_key, s_listen_port := 51820, s_address := ''10.0.0.1/24'',
     s_require_passkey := True,
     s_passkeys := [\<lparr>pk_id = ''a'', pk_name = ''k'', pk_public_key = ''x'', pk_algorithm = -7, pk_sign_count = 0,
       pk_aaguid = [], pk_created = 0, pk_last_used = None\<rparr>]\<rparr>"

theorem validate_server_passkeys_witness:
  "distinct (map pk_id (s_passkeys sample_server)) \<and> s_passkeys sample_server \<noteq> []"
proof -
  have "validate_server sample_server = []" by code_simp
  moreover have "s_require_passkey sample_server" by code_simp
  ultimately show ?thesis using validate_server_passkeys [of sample_server] by simp
qed

lemma zt_network_errors_Nil:
  "zt_network_errors i seen ns = [] \<Longrightarrow>
     distinct (map (\<lambda>n. to_lower (trim_space (zn_id n))) ns)
     \<and> (\<lambda>n. to_lower (trim_space (zn_id n))) ` set ns \<inter> set seen = {}
     \<and> (\<forall>n \<in> set ns. matches_network_id (to_lower (trim_space (zn_id n))))"
proof (induction ns arbitrary: i seen)
  case (Cons n ns)
  let ?k = "to_lower (trim_space (zn_id n))"
  from Cons.prems have k: "matches_network_id ?k" "?k \<notin> set seen" "?k \<noteq> []"
    by (auto simp: Let_def split: if_splits)
  with Cons.prems have "zt_network_errors (i + 1) (?k # seen) ns = []" by (simp add: Let_def)
  from Cons.IH [OF this] k show ?case by auto
qed simp

end
