(* ===== verification/Wireguard.thy ===== *)
theory Wireguard
  imports Validation
begin

text \<open>
  \<^verbatim>\<open>internal/wireguard/wireguard.go\<close>: the wg-quick and wg invocations, the restart check, the
  two configuration templates and the annotated \<^verbatim>\<open>wg show\<close>.  An external program is a function
  of the invocations so far and the next one, giving its output and, on failure, the error
  text.  Key derivation (\<^verbatim>\<open>wgtypes\<close>, third party) is the parameter \<open>derive\<close>.  The text
  templates are written out with \<^verbatim>\<open>text/template\<close>'s trimming applied.
\<close>

definition nl :: string where
  "nl = [char_of (10 :: nat)]"

lemma nl_char: "char_of (10 :: nat) \<notin> set s \<Longrightarrow> nl \<noteq> s @ t \<or> s = []"
  by (cases s) (auto simp: nl_def)

section \<open>Running wg-quick\<close>

record invocation =
  iv_name :: string
  iv_args :: "string list"
  iv_stdin :: "string option"

type_synonym runner = "invocation list \<Rightarrow> invocation \<Rightarrow> string \<times> string option"

definition link_show :: invocation where
  "link_show = \<lparr>iv_name = ''ip'', iv_args = [''link'', ''show'', ''wg0''], iv_stdin = None\<rparr>"

definition strip_inv :: "string \<Rightarrow> invocation" where
  "strip_inv path = \<lparr>iv_name = ''wg-quick'', iv_args = [''strip'', path], iv_stdin = None\<rparr>"

definition sync_inv :: "string \<Rightarrow> invocation" where
  "sync_inv conf = \<lparr>iv_name = ''wg'', iv_args = [''syncconf'', ''wg0'', ''/dev/stdin''], iv_stdin = Some conf\<rparr>"

definition quick_inv :: "string \<Rightarrow> string \<Rightarrow> invocation" where
  "quick_inv verb path = \<lparr>iv_name = ''wg-quick'', iv_args = [verb, path], iv_stdin = None\<rparr>"

text \<open>The result is the log, whether the interface runs, and the error.\<close>

definition reload_wg_config :: "runner \<Rightarrow> invocation list \<Rightarrow> string \<Rightarrow> invocation list \<times> bool \<times> string option" where
  "reload_wg_config run log path =
     (case run log link_show of
        (_, Some _) \<Rightarrow> (log @ [link_show], False, None)
      | (_, None) \<Rightarrow>
          let log1 = log @ [link_show]; s = strip_inv path in
          (case run log1 s of
             (out, Some err) \<Rightarrow>
               (log1 @ [s], True, Some (''stripping WireGuard config: '' @ err @ '': '' @ trim_space out))
           | (stripped, None) \<Rightarrow>
               let log2 = log1 @ [s]; y = sync_inv stripped in
               (case run log2 y of
                  (out, Some err) \<Rightarrow>
                    (log2 @ [y], True, Some (''reloading WireGuard config: '' @ err @ '': '' @ trim_space out))
                | (_, None) \<Rightarrow> (log2 @ [y], True, None))))"

definition bring_up :: "runner \<Rightarrow> invocation list \<Rightarrow> string \<Rightarrow> invocation list \<times> string option" where
  "bring_up run log path =
     (let u = quick_inv ''up'' path in
      case run log u of
        (out, Some err) \<Rightarrow> (log @ [u], Some (''bringing up WireGuard config '' @ go_quote path @ '': '' @ err @ '': '' @ trim_space out))
      | (_, None) \<Rightarrow> (log @ [u], None))"

definition restart_wg_config :: "runner \<Rightarrow> invocation list \<Rightarrow> string \<Rightarrow> invocation list \<times> string option" where
  "restart_wg_config run log path =
     (let log1 = log @ [link_show]; d = quick_inv ''down'' path in
      case run log link_show of
        (_, Some _) \<Rightarrow> bring_up run log1 path
      | (_, None) \<Rightarrow>
          (case run log1 d of
             (out, Some err) \<Rightarrow>
               (log1 @ [d], Some (''bringing down WireGuard config '' @ go_quote path @ '': '' @ err @ '': '' @ trim_space out))
           | (_, None) \<Rightarrow> bring_up run (log1 @ [d]) path))"

section \<open>Annotated output\<close>

text \<open>\<^verbatim>\<open>strings.TrimRight(line, "\r")\<close>\<close>

definition trim_cr :: "string \<Rightarrow> string" where
  "trim_cr s = rev (dropWhile (\<lambda>c. ccode c = 13) (rev s))"

definition peer_names :: "peer list \<Rightarrow> string \<Rightarrow> string option" where
  "peer_names peers =
     foldl (\<lambda>m p. let key = trim_space (p_public_key p); name = trim_space (p_name p) in
       if key \<noteq> [] \<and> name \<noteq> [] then m(key \<mapsto> name) else m) (\<lambda>_. None) peers"

definition show_line :: "(string \<Rightarrow> string option) \<Rightarrow> string \<Rightarrow> string list" where
  "show_line names line =
     (let t = trim_cr line in
      (if has_prefix t ''peer: '' then
         (case names (trim_space (drop 6 t)) of
            Some name \<Rightarrow> if name \<noteq> [] then [''# '' @ name] else []
          | None \<Rightarrow> [])
       else []) @ [t])"

definition format_wg_show :: "string \<Rightarrow> peer list \<Rightarrow> string" where
  "format_wg_show raw peers =
     join nl (concat (map (show_line (peer_names peers)) (split_char (char_of (10 :: nat)) raw)))"

definition show_wg :: "runner \<Rightarrow> invocation list \<Rightarrow> peer list \<Rightarrow> invocation list \<times> (string + string)" where
  "show_wg run log peers =
     (let i = \<lparr>iv_name = ''wg'', iv_args = [''show''], iv_stdin = None\<rparr> in
      case run log i of
        (out, Some err) \<Rightarrow>
          (log @ [i], Inl (''wg show: '' @ err @ (if trim_space out \<noteq> [] then '': '' @ trim_space out else [])))
      | (out, None) \<Rightarrow> (log @ [i], Inr (format_wg_show out peers)))"

section \<open>Restart check\<close>

definition hook_lines :: "string \<Rightarrow> string list" where
  "hook_lines value = filter (\<lambda>l. l \<noteq> []) (map trim_space (split_char (char_of (10 :: nat)) value))"

definition changed_fields :: "server_config \<Rightarrow> server_config \<Rightarrow> string list" where
  "changed_fields a b =
     map fst (filter snd
       [(''Address'', s_address a \<noteq> s_address b),
        (''DNS'', s_dns a \<noteq> s_dns b),
        (''MTU'', s_mtu a \<noteq> s_mtu b),
        (''Table'', s_table a \<noteq> s_table b),
        (''FwMark'', s_fwmark a \<noteq> s_fwmark b),
        (''PreUp'', hook_lines (s_pre_up a) \<noteq> hook_lines (s_pre_up b)),
        (''PostUp'', hook_lines (s_post_up a) \<noteq> hook_lines (s_post_up b)),
        (''PreDown'', hook_lines (s_pre_down a) \<noteq> hook_lines (s_pre_down b)),
        (''PostDown'', hook_lines (s_post_down a) \<noteq> hook_lines (s_post_down b))])"

definition restart_needed_text :: string where
  "restart_needed_text = ''WireGuard requires a restart via Apply Config''"

definition server_restart_reason :: "server_config \<Rightarrow> server_config \<Rightarrow> string option" where
  "server_restart_reason previous nxt =
     (let fields = changed_fields previous nxt in
      if fields = [] then None
      else Some (restart_needed_text @ '' because '' @ join '', '' fields @
             '' changed; wg syncconf cannot apply wg-quick-managed settings''))"

section \<open>Keys\<close>

text \<open>\<open>derive\<close> stands for \<^verbatim>\<open>wgtypes.ParseKey\<close> followed by \<^verbatim>\<open>PublicKey().String()\<close>.\<close>

definition public_key_from_private :: "(string \<Rightarrow> string + string) \<Rightarrow> string \<Rightarrow> string + string" where
  "public_key_from_private derive private =
     (case derive private of Inl e \<Rightarrow> Inl (''parsing private key: '' @ e) | Inr pub \<Rightarrow> Inr pub)"

section \<open>wg0.conf\<close>

definition opt_line :: "string \<Rightarrow> string \<Rightarrow> string" where
  "opt_line name v = (if v = [] then [] else nl @ name @ '' = '' @ v)"

definition opt_num :: "string \<Rightarrow> u16 \<Rightarrow> string" where
  "opt_num name n = (if n = 0 then [] else nl @ name @ '' = '' @ nat_dec (unat n))"

definition list_lines :: "string \<Rightarrow> string list \<Rightarrow> string" where
  "list_lines name vs = concat (map (\<lambda>v. nl @ name @ '' = '' @ v) vs)"

definition all_prefixes :: string where
  "all_prefixes = ''0.0.0.0/0, ::/0''"

definition effective_allowed_ips :: "peer \<Rightarrow> string" where
  "effective_allowed_ips p =
     (let e = (if p_is_exit p then
                 (if p_exit_all p then all_prefixes
                  else if p_exit_routes p \<noteq> [] then p_allowed_ips p @ '', '' @ join '', '' (p_exit_routes p)
                  else p_allowed_ips p)
               else p_allowed_ips p) in
      if p_advertised p \<noteq> [] \<and> e \<noteq> all_prefixes then e @ '', '' @ join '', '' (p_advertised p) else e)"

definition render_peer :: "peer \<Rightarrow> string" where
  "render_peer p =
     nl @ ''[Peer]'' @ nl @ ''# '' @ p_name p @ nl @ ''PublicKey = '' @ p_public_key p
     @ opt_line ''PresharedKey'' (p_preshared_key p)
     @ nl @ ''AllowedIPs = '' @ effective_allowed_ips p
     @ opt_line ''Endpoint'' (p_endpoint p)
     @ opt_num ''PersistentKeepalive'' (p_keepalive p) @ nl"

definition render_interface :: "server_config \<Rightarrow> string list \<Rightarrow> string list \<Rightarrow> string" where
  "render_interface s ups downs =
     ''[Interface]'' @ nl @ ''PrivateKey = '' @ s_private_key s
     @ nl @ ''ListenPort = '' @ nat_dec (unat (s_listen_port s))
     @ nl @ ''Address = '' @ s_address s
     @ opt_line ''DNS'' (s_dns s) @ opt_num ''MTU'' (s_mtu s)
     @ opt_line ''Table'' (s_table s) @ opt_line ''FwMark'' (s_fwmark s)
     @ list_lines ''PreUp'' (hook_lines (s_pre_up s))
     @ list_lines ''PostUp'' (hook_lines (s_post_up s)) @ list_lines ''PostUp'' ups
     @ list_lines ''PostDown'' downs @ list_lines ''PostDown'' (hook_lines (s_post_down s))
     @ list_lines ''PreDown'' (hook_lines (s_pre_down s)) @ nl"

definition render_server_config :: "app_config \<Rightarrow> string list \<Rightarrow> string list \<Rightarrow> string" where
  "render_server_config cfg ups downs =
     render_interface (cfg_server cfg) ups downs
     @ concat (map render_peer (filter p_enabled (cfg_peers cfg)))"

section \<open>Client configuration\<close>

definition lan_default :: string where
  "lan_default = ''192.168.178.0/24''"

definition client_allowed :: "peer \<Rightarrow> string" where
  "client_allowed p =
     (let c = (if p_client_allowed_ips p = [] then all_prefixes else p_client_allowed_ips p) in
      if contains_str c lan_default then c else trim_space c @ '', '' @ lan_default)"

definition client_endpoint :: "server_config \<Rightarrow> string \<Rightarrow> string" where
  "client_endpoint s override =
     (if trim_space override \<noteq> [] then trim_space override
      else if trim_space (s_endpoint s) \<noteq> [] then trim_space (s_endpoint s)
      else ''SERVER_IP:'' @ nat_dec (unat (s_listen_port s)))"

definition client_conf :: "peer \<Rightarrow> string \<Rightarrow> string \<Rightarrow> string \<Rightarrow> string \<Rightarrow> string" where
  "client_conf p server_pub dns allowed endpoint =
     ''[Interface]'' @ nl @ ''PrivateKey = '' @ p_private_key p @ nl @ ''Address = '' @ p_allowed_ips p
     @ opt_line ''DNS'' dns @ nl
     @ nl @ ''[Peer]'' @ nl @ ''PublicKey = '' @ server_pub
     @ opt_line ''PresharedKey'' (p_preshared_key p)
     @ nl @ ''AllowedIPs = '' @ allowed
     @ nl @ ''Endpoint = '' @ endpoint
     @ opt_num ''PersistentKeepalive'' (p_keepalive p) @ nl"

definition render_client_config_with_endpoint ::
  "(string \<Rightarrow> string + string) \<Rightarrow> server_config \<Rightarrow> peer \<Rightarrow> string \<Rightarrow> string + string" where
  "render_client_config_with_endpoint derive s p override =
     (case public_key_from_private derive (s_private_key s) of
        Inl e \<Rightarrow> Inl (''deriving server public key: '' @ e)
      | Inr server_pub \<Rightarrow>
          Inr (client_conf p server_pub (if p_dns p = [] then s_dns s else p_dns p)
            (client_allowed p) (client_endpoint s override)))"

definition render_client_config :: "(string \<Rightarrow> string + string) \<Rightarrow> server_config \<Rightarrow> peer \<Rightarrow> string + string" where
  "render_client_config derive s p = render_client_config_with_endpoint derive s p []"

section \<open>Lines of hooks\<close>

lemma hook_lines_mem: "l \<in> set (hook_lines v) \<Longrightarrow> l \<noteq> [] \<and> trim_space l = l"
  by (auto simp: hook_lines_def)

lemma changed_fields_Nil:
  "changed_fields a b = [] \<longleftrightarrow> s_address a = s_address b \<and> s_dns a = s_dns b \<and> s_mtu a = s_mtu b
     \<and> s_table a = s_table b \<and> s_fwmark a = s_fwmark b
     \<and> hook_lines (s_pre_up a) = hook_lines (s_pre_up b) \<and> hook_lines (s_post_up a) = hook_lines (s_post_up b)
     \<and> hook_lines (s_pre_down a) = hook_lines (s_pre_down b) \<and> hook_lines (s_post_down a) = hook_lines (s_post_down b)"
  by (simp add: changed_fields_def)

text \<open>The restart check is complete.  If it asks for no restart, and the private key and the
  listen port (which \<^verbatim>\<open>wg syncconf\<close> can apply) are kept, then the interface section of
  wg0.conf is byte for byte the same, so a live reload misses nothing.\<close>

theorem no_restart_same_interface:
  assumes "server_restart_reason a b = None" "s_private_key a = s_private_key b" "s_listen_port a = s_listen_port b"
  shows "render_interface a ups downs = render_interface b ups downs"
proof -
  from assms(1) have "changed_fields a b = []" by (simp add: server_restart_reason_def Let_def split: if_splits)
  with assms(2,3) show ?thesis by (simp add: changed_fields_Nil render_interface_def)
qed

definition sample_reformatted :: server_config where
  "sample_reformatted = sample_server\<lparr>s_post_up := nl @ ''a'' @ nl\<rparr>"

theorem no_restart_same_interface_witness:
  "render_interface sample_reformatted [] [] = render_interface (sample_server\<lparr>s_post_up := ''  a''\<rparr>) [] []"
proof (rule no_restart_same_interface)
  show "server_restart_reason sample_reformatted (sample_server\<lparr>s_post_up := ''  a''\<rparr>) = None" by code_simp
qed (simp_all add: sample_reformatted_def sample_server_def)

section \<open>What a rendered peer claims\<close>

lemma split_char_sep_list:
  "\<forall>r \<in> set rs. d \<notin> set r \<Longrightarrow> d \<notin> set x \<Longrightarrow> split_char d (x @ d # '' '' @ join (d # '' '') rs)
    = x # (if rs = [] then ['' ''] else map (\<lambda>r. '' '' @ r) rs)" if "d \<noteq> CHR '' ''"
proof (induction rs arbitrary: x)
  case (Cons r rs)
  show ?case
  proof (cases "rs = []")
    case True
    with Cons.prems that show ?thesis by (simp add: split_char_append split_char_absent)
  next
    case False
    from Cons.IH [of "'' '' @ r"] Cons.prems that False show ?thesis by (simp add: split_char_append)
  qed
qed (use that in \<open>simp add: split_char_append split_char_absent\<close>)

lemma split_char_snoc:
  "\<forall>r \<in> set rs. d \<notin> set r \<Longrightarrow> rs \<noteq> [] \<Longrightarrow> d \<noteq> CHR '' '' \<Longrightarrow>
   split_char d (x @ d # '' '' @ join (d # '' '') rs) = split_char d x @ map (\<lambda>r. '' '' @ r) rs"
proof (induction x)
  case Nil
  then show ?case using split_char_sep_list [of d rs "[]"] by simp
next
  case (Cons c x)
  then show ?case by (auto split: list.splits)
qed

lemma trim_space_blank [simp]: "trim_space (CHR '' '' # r) = trim_space r"
  by (simp add: trim_space_def trim_left.simps [of "CHR '' '' # r"] space1_def ccode_def)

lemma entry_network_blank [simp]: "entry_network (CHR '' '' # r) = entry_network r"
  using trim_space_blank [of r] by (simp add: entry_network_def)

text \<open>The AllowedIPs line rendered for a peer parses to exactly the prefixes that the
  configuration validator checked for uniqueness.\<close>

theorem rendered_allowed_ips:
  assumes "\<forall>r \<in> set (p_exit_routes p @ p_advertised p). CHR '','' \<notin> set r"
    "p_advertised p = [] \<or> (p_is_exit p \<and> p_exit_all p) \<or>
       p_allowed_ips p @ (if p_is_exit p \<and> p_exit_routes p \<noteq> [] then '', '' @ join '', '' (p_exit_routes p) else []) \<noteq> all_prefixes"
  shows "concat (map entry_network (split_char CHR '','' (effective_allowed_ips p))) = effective_allowed_prefixes p"
proof -
  have add: "concat (map entry_network (split_char CHR '','' (x @ '', '' @ join '', '' rs)))
      = concat (map entry_network (split_char CHR '','' x)) @ concat (map entry_network rs)"
    if "\<forall>r \<in> set rs. CHR '','' \<notin> set r" "rs \<noteq> []" for x rs
    using split_char_snoc [OF that, of x] by (simp add: comp_def)
  have all: "split_char CHR '','' all_prefixes = [''0.0.0.0/0'', '' ::/0'']" by code_simp
  have b: "entry_network '' ::/0'' = entry_network ''::/0''" by simp
  show ?thesis
  proof (cases "p_is_exit p \<and> p_exit_all p")
    case True
    then show ?thesis
      by (simp add: effective_allowed_ips_def effective_allowed_prefixes_def effective_allowed_values_def all Let_def b)
  next
    case False
    define e where "e = p_allowed_ips p @ (if p_is_exit p \<and> p_exit_routes p \<noteq> [] then '', '' @ join '', '' (p_exit_routes p) else [])"
    have e: "concat (map entry_network (split_char CHR '','' e))
        = concat (map entry_network (split_char CHR '','' (p_allowed_ips p)))
          @ (if p_is_exit p then concat (map entry_network (p_exit_routes p)) else [])"
      using assms(1) add [of "p_exit_routes p" "p_allowed_ips p"] by (auto simp: e_def)
    have "effective_allowed_ips p = (if p_advertised p = [] then e else e @ '', '' @ join '', '' (p_advertised p))"
      using False assms(2) by (auto simp: effective_allowed_ips_def e_def Let_def)
    then have "concat (map entry_network (split_char CHR '','' (effective_allowed_ips p)))
        = concat (map entry_network (split_char CHR '','' e)) @ concat (map entry_network (p_advertised p))"
      using assms(1) add [of "p_advertised p" e] by simp
    with e False show ?thesis by (auto simp: effective_allowed_prefixes_def effective_allowed_values_def)
  qed
qed


definition sample_router :: peer where
  "sample_router = zero_peer\<lparr>p_name := ''r'', p_allowed_ips := ''10.0.0.7/32'', p_advertised := [''10.7.0.0/16'']\<rparr>"

theorem rendered_allowed_ips_witness:
  "concat (map entry_network (split_char CHR '','' (effective_allowed_ips sample_router))) = [''10.0.0.7/32'', ''10.7.0.0/16'']"
proof -
  have "concat (map entry_network (split_char CHR '','' (effective_allowed_ips sample_router))) = effective_allowed_prefixes sample_router"
  proof (rule rendered_allowed_ips)
    show "\<forall>r \<in> set (p_exit_routes sample_router @ p_advertised sample_router). CHR '','' \<notin> set r" by code_simp
    show "p_advertised sample_router = [] \<or> (p_is_exit sample_router \<and> p_exit_all sample_router) \<or>
       p_allowed_ips sample_router @ (if p_is_exit sample_router \<and> p_exit_routes sample_router \<noteq> []
         then '', '' @ join '', '' (p_exit_routes sample_router) else []) \<noteq> all_prefixes" by code_simp
  qed
  also have "effective_allowed_prefixes sample_router = [''10.0.0.7/32'', ''10.7.0.0/16'']" by code_simp
  finally show ?thesis .
qed

section \<open>Reload and restart\<close>

text \<open>A reload touches the running interface only with a configuration that wg-quick stripped
  successfully, and reports success for a running interface only after syncconf succeeded.\<close>

theorem reload_sound:
  assumes "reload_wg_config run log path = (log', running, err)"
  shows "(running \<longleftrightarrow> snd (run log link_show) = None)
    \<and> (\<forall>conf. sync_inv conf \<in> set (drop (length log) log') \<longrightarrow>
         run (log @ [link_show]) (strip_inv path) = (conf, None))
    \<and> (running \<and> err = None \<longrightarrow>
         (\<exists>conf. run (log @ [link_show]) (strip_inv path) = (conf, None)
            \<and> snd (run (log @ [link_show, strip_inv path]) (sync_inv conf)) = None))"
  using assms
  by (auto simp: reload_wg_config_def Let_def sync_inv_def strip_inv_def link_show_def
      split: prod.splits option.splits)

definition sample_runner :: runner where
  "sample_runner log i = (if iv_args i = [''syncconf'', ''wg0'', ''/dev/stdin''] then (''bad line'', Some ''exit status 1'')
     else (''[Interface]'', None))"

theorem reload_sound_witness:
  "sample_runner [link_show] (strip_inv ''/etc/wireguard/wg0.conf'') = (''[Interface]'', None)"
proof -
  let ?r = "reload_wg_config sample_runner [] ''/etc/wireguard/wg0.conf''"
  have r: "?r = (fst ?r, fst (snd ?r), snd (snd ?r))" by simp
  have "sync_inv ''[Interface]'' \<in> set (drop (length []) (fst ?r))"
    by (simp add: reload_wg_config_def sample_runner_def link_show_def strip_inv_def sync_inv_def Let_def)
  with reload_sound [OF r] show ?thesis by simp
qed

text \<open>A restart brings the interface up only when it was absent or taken down successfully,
  and reports success exactly when the final \<^verbatim>\<open>wg-quick up\<close> succeeded.\<close>

theorem restart_sound:
  assumes "restart_wg_config run log path = (log', err)"
  shows "(quick_inv ''up'' path \<in> set (drop (length log) log') \<longrightarrow>
      snd (run log link_show) \<noteq> None \<or> snd (run (log @ [link_show]) (quick_inv ''down'' path)) = None)
    \<and> (err = None \<longleftrightarrow> last log' = quick_inv ''up'' path \<and> snd (run (butlast log') (quick_inv ''up'' path)) = None)"
  using assms
  by (auto simp: restart_wg_config_def bring_up_def Let_def quick_inv_def link_show_def butlast_append
      split: prod.splits option.splits)

theorem restart_sound_witness:
  "last (fst (restart_wg_config sample_runner [] ''wg0.conf'')) = quick_inv ''up'' ''wg0.conf''"
proof -
  let ?r = "restart_wg_config sample_runner [] ''wg0.conf''"
  have r: "?r = (fst ?r, snd ?r)" by simp
  have "snd ?r = None"
    by (simp add: restart_wg_config_def bring_up_def sample_runner_def link_show_def quick_inv_def Let_def)
  with restart_sound [OF r] show ?thesis by blast
qed

section \<open>wg show\<close>

definition is_comment :: "string \<Rightarrow> bool" where
  "is_comment l \<longleftrightarrow> has_prefix l ''# ''"

lemma is_comment_hash: "is_comment (''# '' @ n) = True"
  by (simp add: is_comment_def has_prefix_def)

text \<open>Annotating \<^verbatim>\<open>wg show\<close> only inserts comment lines: without them the output is the
  original, up to carriage returns at line ends.\<close>

theorem format_wg_show_lines:
  "filter (\<lambda>l. \<not> is_comment l) (concat (map (show_line (peer_names peers)) ls))
     = filter (\<lambda>l. \<not> is_comment l) (map trim_cr ls)"
proof (induction ls)
  case (Cons l ls)
  have "filter (\<lambda>l. \<not> is_comment l) (show_line m l) = filter (\<lambda>l. \<not> is_comment l) [trim_cr l]" for m
  proof -
    have "show_line m l = [trim_cr l] \<or> (\<exists>n. show_line m l = [''# '' @ n, trim_cr l])"
      by (cases "has_prefix (trim_cr l) ''peer: ''"; cases "m (trim_space (drop 6 (trim_cr l)))") (simp_all add: show_line_def Let_def)
    then show ?thesis by (elim disjE exE) (simp_all only: filter.simps is_comment_hash not_True_eq_False if_False)
  qed
  with Cons show ?case by simp
qed simp

section \<open>Endpoints and line breaks\<close>

text \<open>A peer endpoint that the validator accepts may contain a line break, so it can add lines of
  its own, such as a hook, to the rendered wg0.conf.\<close>

theorem endpoint_line_injection:
  "is_valid_endpoint (''a'' @ nl @ ''PostUp = x #:1'')
   \<and> opt_line ''Endpoint'' (''a'' @ nl @ ''PostUp = x #:1'') = nl @ ''Endpoint = a'' @ nl @ ''PostUp = x #:1''"
  by code_simp

end
