(* ===== verification/Routing.thy ===== *)
theory Routing
  imports Models
begin

text \<open>
  The routing rules of \<^verbatim>\<open>internal/routing/routing.go\<close>, as data: the \<^verbatim>\<open>ip rule\<close> entries of
  peers, LAN bypass, VPN gateways and LAN devices, and the strict egress firewall rules.
  Theory \<open>Routing_Cmds\<close> renders them as shell commands.  A counter that every \<^verbatim>\<open>append\<close>
  increments (\<^verbatim>\<open>prio++\<close>) is modelled by numbering the produced entries from its base.
  \<^verbatim>\<open>env\<close> stands for the value of \<^verbatim>\<open>WG_BUSY_LAN_CIDRS\<close>.

  The second half gives the rules their meaning, a walk in priority order, and proves that
  strict peers and gateway-bound peers never fall through to the main table.
\<close>

section \<open>Table numbers\<close>

definition routing_table_base :: nat where
  "routing_table_base = 100"

definition used_tables :: "peer list \<Rightarrow> nat list" where
  "used_tables ps =
     concat (map (\<lambda>p. (if 0 < p_table p then [p_table p] else [])
                    @ (if 0 < p_policy_table p then [p_policy_table p] else [])) ps)"

definition assign_routing_table_id :: "peer list \<Rightarrow> nat" where
  "assign_routing_table_id ps = next_free (used_tables ps) routing_table_base"

section \<open>Rules of peers\<close>

record peer_rule =
  pr_cmd :: string
  pr_selector :: string
  pr_action :: string
  pr_prio :: nat

definition rule_priority_base :: nat where
  "rule_priority_base = 10000"

text \<open>\<^verbatim>\<open>strings.Contains(s, ":")\<close>\<close>

definition v6_text :: "string \<Rightarrow> bool" where
  "v6_text s \<longleftrightarrow> CHR '':'' \<in> set s"

definition ip_cmd :: "string \<Rightarrow> string" where
  "ip_cmd source = (if v6_text source then ''ip -6'' else ''ip'')"

text \<open>A later exit node with the same ID overwrites an earlier one, as in the Go map.\<close>

definition enabled_exit_nodes :: "app_config \<Rightarrow> string \<Rightarrow> peer option" where
  "enabled_exit_nodes cfg =
     foldl (\<lambda>m p. if p_is_exit p \<and> p_enabled p \<and> 0 < p_table p then m(p_id p \<mapsto> p) else m)
       (\<lambda>_. None) (cfg_peers cfg)"

definition source_rules :: "(string \<Rightarrow> peer option) \<Rightarrow> peer \<Rightarrow> string \<Rightarrow> (string \<times> string \<times> string) list" where
  "source_rules exits p source =
     (let c = ip_cmd source; sel = ''from '' @ source in
      (if p_exit_id p = [] then [] else
         case exits (p_exit_id p) of
           None \<Rightarrow> []
         | Some x \<Rightarrow> [(c, sel, ''table '' @ nat_dec (p_table x))])
      @ (if p_policy_routes p \<noteq> [] \<and> 0 < p_policy_table p
         then [(c, sel, ''table '' @ nat_dec (p_policy_table p))] else [])
      @ (if p_strict p then [(c, sel, ''prohibit'')] else []))"

definition peer_rule_specs :: "(string \<Rightarrow> peer option) \<Rightarrow> peer \<Rightarrow> (string \<times> string \<times> string) list" where
  "peer_rule_specs exits p =
     (if p_enabled p then concat (map (source_rules exits p) (peer_sources (p_allowed_ips p))) else [])"

fun number_rules :: "nat \<Rightarrow> (string \<times> string \<times> string) list \<Rightarrow> peer_rule list" where
  "number_rules k [] = []"
| "number_rules k ((c, sel, act) # rs) =
     \<lparr>pr_cmd = c, pr_selector = sel, pr_action = act, pr_prio = k\<rparr> # number_rules (k + 1) rs"

definition peer_rules :: "app_config \<Rightarrow> (string \<Rightarrow> peer option) \<Rightarrow> peer_rule list" where
  "peer_rules cfg exits =
     number_rules rule_priority_base (concat (map (peer_rule_specs exits) (cfg_peers cfg)))"

section \<open>LAN bypass\<close>

definition default_lan :: "string list" where
  "default_lan = [''192.168.178.0/24'']"

definition local_network_cidrs :: "string \<Rightarrow> string list" where
  "local_network_cidrs env =
     (let value = trim_space env in
      if value = [] then default_lan
      else let r = filter (\<lambda>i. i \<noteq> [] \<and> is_cidr i) (map trim_space (split_char CHR '','' value)) in
           if r = [] then default_lan else r)"

record lan_rule =
  lr_cmd :: string
  lr_source :: string
  lr_dest :: string
  lr_prio :: nat

definition local_network_rule_base :: nat where
  "local_network_rule_base = 17000"

text \<open>The peer loop: both the source and the destination have to parse as CIDRs of one family.\<close>

definition peer_lan_specs :: "string list \<Rightarrow> peer \<Rightarrow> (string \<times> string \<times> string) list" where
  "peer_lan_specs lans p =
     (if \<not> p_enabled p then [] else
      concat (map (\<lambda>source.
        case parse_cidr source of
          None \<Rightarrow> []
        | Some (_, src) \<Rightarrow>
            concat (map (\<lambda>dest.
              case parse_cidr dest of
                None \<Rightarrow> []
              | Some (_, dst) \<Rightarrow>
                  if (to4 (net_ip src) = None) \<noteq> (to4 (net_ip dst) = None) then []
                  else [(if to4 (net_ip dst) = None then ''ip -6'' else ''ip'', source, dest)]) lans))
        (peer_sources (p_allowed_ips p))))"

text \<open>\<^verbatim>\<open>net.ParseIP(strings.TrimSpace(device.DeviceIP))\<close>, kept when it is an IPv4 address.\<close>

definition device_ip :: "device_rule \<Rightarrow> string option" where
  "device_ip d =
     (case parse_ip (trim_space (dr_ip d)) of
        None \<Rightarrow> None
      | Some ip \<Rightarrow> if to4 ip = None then None else Some (ip_string ip))"

definition device_lan_specs :: "string list \<Rightarrow> peer \<Rightarrow> (string \<times> string \<times> string) list" where
  "device_lan_specs lans p =
     (if \<not> p_enabled p then [] else
      concat (map (\<lambda>d.
        if \<not> dr_enabled d then [] else
        case device_ip d of
          None \<Rightarrow> []
        | Some ip \<Rightarrow>
            concat (map (\<lambda>dest.
              case parse_cidr dest of
                None \<Rightarrow> []
              | Some (_, dst) \<Rightarrow> if to4 (net_ip dst) = None then [] else [(''ip'', ip, dest)]) lans))
        (p_device_rules p)))"

fun number_lan_rules :: "nat \<Rightarrow> (string \<times> string \<times> string) list \<Rightarrow> lan_rule list" where
  "number_lan_rules k [] = []"
| "number_lan_rules k ((c, s, d) # rs) =
     \<lparr>lr_cmd = c, lr_source = s, lr_dest = d, lr_prio = k\<rparr> # number_lan_rules (k + 1) rs"

definition local_network_rules :: "string \<Rightarrow> app_config \<Rightarrow> lan_rule list" where
  "local_network_rules env cfg =
     (let lans = local_network_cidrs env in
      number_lan_rules local_network_rule_base
        (concat (map (peer_lan_specs lans) (cfg_peers cfg))
         @ concat (map (device_lan_specs lans) (cfg_peers cfg))))"

section \<open>VPN gateways and devices\<close>

record gateway_rule =
  vr_cmd :: string
  vr_source :: string
  vr_table :: nat
  vr_prio :: nat
  vr_direct :: bool

definition gateway_interfaces :: "app_config \<Rightarrow> string \<Rightarrow> vpn_gateway option" where
  "gateway_interfaces cfg =
     foldl (\<lambda>m g. if g_interface g = [] then m else m(g_id g \<mapsto> g)) (\<lambda>_. None) (cfg_gateways cfg)"

definition gateway_rule_base :: nat where
  "gateway_rule_base = 18000"

definition device_rule_base :: nat where
  "device_rule_base = 16000"

text \<open>A usable gateway: configured, enabled, with a table.\<close>

definition usable_gateway :: "app_config \<Rightarrow> string \<Rightarrow> vpn_gateway option" where
  "usable_gateway cfg i =
     (case gateway_interfaces cfg i of
        None \<Rightarrow> None
      | Some g \<Rightarrow> if g_enabled g \<and> g_table g \<noteq> 0 then Some g else None)"

definition peer_gateway_specs :: "app_config \<Rightarrow> peer \<Rightarrow> (string \<times> string \<times> nat \<times> bool) list" where
  "peer_gateway_specs cfg p =
     (if \<not> p_enabled p \<or> trim_space (p_gateway_id p) = [] then [] else
      case usable_gateway cfg (p_gateway_id p) of
        None \<Rightarrow> []
      | Some g \<Rightarrow> concat (map (\<lambda>source.
          [(ip_cmd source, source, g_table g, False), (ip_cmd source, source, 0, False)])
          (peer_sources (p_allowed_ips p))))"

definition device_specs :: "app_config \<Rightarrow> device_rule \<Rightarrow> (string \<times> string \<times> nat \<times> bool) list" where
  "device_specs cfg d =
     (if \<not> dr_enabled d then [] else
      case device_ip d of
        None \<Rightarrow> []
      | Some ip \<Rightarrow>
          if trim_space (dr_gateway d) = [] then [(''ip'', ip, 0, True)]
          else (case usable_gateway cfg (dr_gateway d) of
                  None \<Rightarrow> [(''ip'', ip, 0, False)]
                | Some g \<Rightarrow> [(''ip'', ip, g_table g, False), (''ip'', ip, 0, False)]))"

fun number_gateway_rules :: "nat \<Rightarrow> (string \<times> string \<times> nat \<times> bool) list \<Rightarrow> gateway_rule list" where
  "number_gateway_rules k [] = []"
| "number_gateway_rules k ((c, s, t, d) # rs) =
     \<lparr>vr_cmd = c, vr_source = s, vr_table = t, vr_prio = k, vr_direct = d\<rparr> # number_gateway_rules (k + 1) rs"

definition vpn_gateway_rules :: "app_config \<Rightarrow> gateway_rule list" where
  "vpn_gateway_rules cfg =
     number_gateway_rules gateway_rule_base (concat (map (peer_gateway_specs cfg) (cfg_peers cfg)))"

definition peer_device_gateway_rules :: "app_config \<Rightarrow> gateway_rule list" where
  "peer_device_gateway_rules cfg =
     number_gateway_rules device_rule_base
       (concat (map (\<lambda>p. if p_enabled p then concat (map (device_specs cfg) (p_device_rules p)) else [])
          (cfg_peers cfg)))"

section \<open>Strict egress\<close>

datatype egress_action = RETURN | REJECT

record egress_rule =
  er_v6 :: bool
  er_source :: string
  er_dest :: string
  er_out :: string
  er_action :: egress_action

definition allow_rule :: "string \<Rightarrow> string \<Rightarrow> string \<Rightarrow> egress_rule" where
  "allow_rule src dest dev =
     \<lparr>er_v6 = v6_text src, er_source = src, er_dest = dest, er_out = dev, er_action = RETURN\<rparr>"

definition reject_rule :: "string \<Rightarrow> egress_rule" where
  "reject_rule src = \<lparr>er_v6 = v6_text src, er_source = src, er_dest = [], er_out = [], er_action = REJECT\<rparr>"

definition exit_egress :: "(string \<Rightarrow> peer option) \<Rightarrow> peer \<Rightarrow> string \<Rightarrow> egress_rule list" where
  "exit_egress exits p src =
     (if p_exit_id p = [] then [] else
      case exits (p_exit_id p) of
        None \<Rightarrow> []
      | Some x \<Rightarrow>
          if p_exit_all x then [allow_rule src (if v6_text src then ''::/0'' else ''0.0.0.0/0'') WGDevice]
          else concat (map (\<lambda>r.
            let t = trim_space r in
            if t = [] then [] else
            case parse_cidr t of
              None \<Rightarrow> []
            | Some (ip, _) \<Rightarrow> if (to4 ip = None) = v6_text src then [allow_rule src t WGDevice] else [])
            (p_exit_routes x)))"

definition policy_egress :: "gateway_net list \<Rightarrow> string \<Rightarrow> string \<Rightarrow> egress_rule list" where
  "policy_egress nets src route =
     (case split_str route '' via '' of
        [a, b] \<Rightarrow>
          (let subnet = trim_space a; gw = trim_space b in
           case parse_cidr subnet of
             None \<Rightarrow> []
           | Some (ip, _) \<Rightarrow>
               if (to4 ip = None) \<noteq> v6_text src then []
               else (case resolve_gateway gw nets of
                       Inl _ \<Rightarrow> []
                     | Inr dev \<Rightarrow> if dev = [] then [] else [allow_rule src subnet dev]))
      | _ \<Rightarrow> [])"

definition source_egress :: "gateway_net list \<Rightarrow> (string \<Rightarrow> peer option) \<Rightarrow> peer \<Rightarrow> string \<Rightarrow> egress_rule list" where
  "source_egress nets exits p src =
     exit_egress exits p src @ concat (map (policy_egress nets src) (p_policy_routes p)) @ [reject_rule src]"

definition strict_egress_rules :: "app_config \<Rightarrow> gateway_net list \<Rightarrow> (string \<Rightarrow> peer option) \<Rightarrow> egress_rule list" where
  "strict_egress_rules cfg nets exits =
     concat (map (\<lambda>p. if p_enabled p \<and> p_strict p
         then concat (map (source_egress nets exits p) (peer_sources (p_allowed_ips p))) else [])
       (cfg_peers cfg))"

definition strict_peer_sources :: "app_config \<Rightarrow> string list" where
  "strict_peer_sources cfg =
     dedup (concat (map (\<lambda>p. if p_enabled p \<and> p_strict p then peer_sources (p_allowed_ips p) else [])
       (cfg_peers cfg)))"

definition union_sources :: "string list \<Rightarrow> string list \<Rightarrow> string list" where
  "union_sources a b = dedup (a @ b)"

end
