(* ===== verification/Routing_Spec.thy ===== *)
theory Routing_Spec
  imports Routing
begin

text \<open>
  What the routing rules promise.  \<open>walk\<close> reads a list of rule actions the way the kernel
  evaluates \<^verbatim>\<open>ip rule\<close>: a table lookup that finds a route decides, one that finds none
  continues, \<^verbatim>\<open>prohibit\<close> rejects, and running off the end means falling through to the main
  table.  Which tables hold a matching route is a parameter (\<open>resolves\<close>), and so is the set
  of selectors that match a packet (\<open>applies\<close>): the theorems hold for all of them.
  \<open>chain\<close> does the same for a firewall chain.
\<close>

section \<open>Meaning of rules\<close>

datatype rule_action = Lookup string | Prohibit

datatype verdict = Routed string | Rejected | Fall_Through

fun walk :: "(string \<Rightarrow> bool) \<Rightarrow> rule_action list \<Rightarrow> verdict" where
  "walk resolves [] = Fall_Through"
| "walk resolves (Prohibit # acts) = Rejected"
| "walk resolves (Lookup t # acts) = (if resolves t then Routed t else walk resolves acts)"

lemma walk_prohibit: "Prohibit \<in> set acts \<Longrightarrow> walk resolves acts \<noteq> Fall_Through"
  by (induction resolves acts rule: walk.induct) auto

lemma walk_append:
  "walk resolves (a @ b) = (case walk resolves a of Fall_Through \<Rightarrow> walk resolves b | v \<Rightarrow> v)"
  by (induction resolves a rule: walk.induct) auto

definition action_of :: "string \<Rightarrow> rule_action" where
  "action_of a = (if a = ''prohibit'' then Prohibit else Lookup a)"

lemma action_of_table [simp]: "action_of (''table '' @ t) = Lookup (''table '' @ t)"
  by (simp add: action_of_def)

text \<open>The actions of the rules that match a packet; a rule matches by family and selector.\<close>

definition peer_actions :: "(string \<Rightarrow> string \<Rightarrow> bool) \<Rightarrow> peer_rule list \<Rightarrow> rule_action list" where
  "peer_actions applies rs =
     map (\<lambda>r. action_of (pr_action r)) (filter (\<lambda>r. applies (pr_cmd r) (pr_selector r)) rs)"

definition gateway_action :: "gateway_rule \<Rightarrow> rule_action" where
  "gateway_action r =
     (if vr_direct r then Lookup ''table main''
      else if vr_table r = 0 then Prohibit else Lookup (''table '' @ nat_dec (vr_table r)))"

definition gateway_actions :: "(string \<Rightarrow> string \<Rightarrow> bool) \<Rightarrow> gateway_rule list \<Rightarrow> rule_action list" where
  "gateway_actions applies rs =
     map gateway_action (filter (\<lambda>r. applies (vr_cmd r) (''from '' @ vr_source r)) rs)"

section \<open>Numbering\<close>

lemma number_rules_prio: "map pr_prio (number_rules k rs) = [k..<k + length rs]"
  by (induction k rs rule: number_rules.induct) (auto simp: upt_conv_Cons simp del: upt_Suc)

lemma number_rules_spec: "map (\<lambda>r. (pr_cmd r, pr_selector r, pr_action r)) (number_rules k rs) = rs"
  by (induction k rs rule: number_rules.induct) auto

lemma length_number_rules: "length (number_rules k rs) = length rs"
  by (induction k rs rule: number_rules.induct) auto

lemma number_lan_prio: "map lr_prio (number_lan_rules k rs) = [k..<k + length rs]"
  by (induction k rs rule: number_lan_rules.induct) (auto simp: upt_conv_Cons simp del: upt_Suc)

lemma number_lan_spec: "map (\<lambda>r. (lr_cmd r, lr_source r, lr_dest r)) (number_lan_rules k rs) = rs"
  by (induction k rs rule: number_lan_rules.induct) auto

lemma number_gateway_prio: "map vr_prio (number_gateway_rules k rs) = [k..<k + length rs]"
  by (induction k rs rule: number_gateway_rules.induct) (auto simp: upt_conv_Cons simp del: upt_Suc)

lemma number_gateway_spec:
  "map (\<lambda>r. (vr_cmd r, vr_source r, vr_table r, vr_direct r)) (number_gateway_rules k rs) = rs"
  by (induction k rs rule: number_gateway_rules.induct) auto

lemma peer_actions_number:
  "peer_actions applies (number_rules k rs) =
     map (\<lambda>(c, sel, act). action_of act) (filter (\<lambda>(c, sel, act). applies c sel) rs)"
  by (induction k rs rule: number_rules.induct) (auto simp: peer_actions_def)

lemma number_gateway_mem:
  "(c, s, t, d) \<in> set rs \<Longrightarrow> \<exists>r \<in> set (number_gateway_rules k rs).
     vr_cmd r = c \<and> vr_source r = s \<and> vr_table r = t \<and> vr_direct r = d"
  by (induction k rs rule: number_gateway_rules.induct) auto

section \<open>Table allocation\<close>

interpretation exit_tables: id_allocator routing_table_base used_tables assign_routing_table_id
  using next_free_least by unfold_locales (simp add: assign_routing_table_id_def)

lemma used_tables_set: "set (used_tables ps) = (p_table ` set ps \<union> p_policy_table ` set ps) - {0}"
  by (auto simp: used_tables_def)

lemma used_tables_length: "length (used_tables ps) \<le> 2 * length ps"
  by (induction ps) (auto simp: used_tables_def)

text \<open>A new routing table is the least number from 100 on that no peer uses, as exit table or
  as policy table, and the search ends within two numbers per peer.\<close>

theorem assign_routing_table_id_least:
  "routing_table_base \<le> assign_routing_table_id ps
   \<and> assign_routing_table_id ps \<notin> p_table ` set ps \<union> p_policy_table ` set ps
   \<and> {routing_table_base..<assign_routing_table_id ps} \<subseteq> p_table ` set ps \<union> p_policy_table ` set ps
   \<and> assign_routing_table_id ps \<le> routing_table_base + 2 * length ps"
proof -
  have l: "routing_table_base \<le> assign_routing_table_id ps" using exit_tables.least by blast
  then have "assign_routing_table_id ps \<noteq> 0" by (simp add: routing_table_base_def)
  moreover have "assign_routing_table_id ps \<le> routing_table_base + 2 * length ps"
    using exit_tables.alloc_bound [of ps] used_tables_length [of ps] by simp
  moreover have "assign_routing_table_id ps \<notin> set (used_tables ps)"
    "{routing_table_base..<assign_routing_table_id ps} \<subseteq> set (used_tables ps)"
    using exit_tables.least by blast+
  ultimately show ?thesis using l by (auto simp: used_tables_set)
qed

section \<open>Peers\<close>

text \<open>The decision the rules of one peer stand for.\<close>

definition peer_lookups :: "(string \<Rightarrow> peer option) \<Rightarrow> peer \<Rightarrow> string list" where
  "peer_lookups exits p =
     (case (if p_exit_id p = [] then None else exits (p_exit_id p)) of
        None \<Rightarrow> [] | Some x \<Rightarrow> [''table '' @ nat_dec (p_table x)])
     @ (if p_policy_routes p \<noteq> [] \<and> 0 < p_policy_table p then [''table '' @ nat_dec (p_policy_table p)] else [])"

definition peer_decision :: "(string \<Rightarrow> peer option) \<Rightarrow> (string \<Rightarrow> bool) \<Rightarrow> peer \<Rightarrow> verdict" where
  "peer_decision exits resolves p =
     (case find resolves (peer_lookups exits p) of
        Some t \<Rightarrow> Routed t
      | None \<Rightarrow> if p_strict p then Rejected else Fall_Through)"

lemma source_rules_selector:
  "(c, sel, act) \<in> set (source_rules exits p source) \<Longrightarrow> c = ip_cmd source \<and> sel = ''from '' @ source"
  by (auto simp: source_rules_def Let_def split: if_splits option.splits)

lemma source_rules_actions:
  "map (\<lambda>(c, sel, act). action_of act) (source_rules exits p source)
   = map Lookup (peer_lookups exits p) @ (if p_strict p then [Prohibit] else [])"
  by (auto simp: source_rules_def peer_lookups_def Let_def action_of_def split: option.splits)

lemma walk_lookups:
  "walk resolves (map Lookup ts @ acts) =
     (case find resolves ts of Some t \<Rightarrow> Routed t | None \<Rightarrow> walk resolves acts)"
  by (induction ts) auto

definition from_source :: "string \<Rightarrow> string \<times> string \<times> string \<Rightarrow> bool" where
  "from_source s r \<longleftrightarrow> fst r = ip_cmd s \<and> fst (snd r) = ''from '' @ s"

lemma filter_source_rules:
  "filter (from_source s) (source_rules exits p source) = (if source = s then source_rules exits p s else [])"
  using source_rules_selector by (fastforce simp: from_source_def filter_empty_conv filter_id_conv)

lemma filter_sources:
  "distinct sources \<Longrightarrow> filter (from_source s) (concat (map (source_rules exits p) sources))
     = (if s \<in> set sources then source_rules exits p s else [])"
  by (induction sources) (auto simp: filter_source_rules)

lemma filter_peer_specs:
  "filter (from_source s) (peer_rule_specs exits p) =
     (if p_enabled p \<and> s \<in> set (peer_sources (p_allowed_ips p)) then source_rules exits p s else [])"
  by (simp add: peer_rule_specs_def filter_sources peer_sources_def)

lemma filter_other_peers:
  "\<forall>q \<in> set ps. p_enabled q \<longrightarrow> s \<notin> set (peer_sources (p_allowed_ips q)) \<Longrightarrow>
   filter (from_source s) (concat (map (peer_rule_specs exits) ps)) = []"
  by (induction ps) (auto simp: filter_peer_specs)


definition sample_peer :: peer where
  "sample_peer = zero_peer\<lparr>p_id := ''a'', p_name := ''a'', p_enabled := True, p_strict := True,
     p_allowed_ips := ''10.0.0.2/32'', p_policy_routes := [''10.1.0.0/16 via 10.0.0.9''],
     p_policy_table := 101\<rparr>"

definition sample_config :: app_config where
  "sample_config = zero_config\<lparr>cfg_peers := [sample_peer]\<rparr>"


text \<open>C9: strict routing fails closed.  Whatever other rules match a packet of a strict peer and
  whatever routes the tables hold, the walk over the peer rules never falls through to main.\<close>

theorem strict_peer_fails_closed:
  assumes "p \<in> set (cfg_peers cfg)" "p_enabled p" "p_strict p" "s \<in> set (peer_sources (p_allowed_ips p))"
    "applies (ip_cmd s) (''from '' @ s)"
  shows "walk resolves (peer_actions applies (peer_rules cfg exits)) \<noteq> Fall_Through"
proof (rule walk_prohibit)
  have "(ip_cmd s, ''from '' @ s, ''prohibit'') \<in> set (concat (map (peer_rule_specs exits) (cfg_peers cfg)))"
    using assms by (force simp: peer_rule_specs_def source_rules_def Let_def)
  with assms(5) show "Prohibit \<in> set (peer_actions applies (peer_rules cfg exits))"
    by (force simp: peer_rules_def peer_actions_number action_of_def image_iff)
qed

theorem strict_peer_fails_closed_witness:
  "walk (\<lambda>t. False) (peer_actions (\<lambda>c sel. True) (peer_rules sample_config (\<lambda>_. None))) \<noteq> Fall_Through"
proof (rule strict_peer_fails_closed [of sample_peer _ "''10.0.0.2''"])
  show "''10.0.0.2'' \<in> set (peer_sources (p_allowed_ips sample_peer))" by code_simp
qed (simp_all add: sample_config_def sample_peer_def)

section \<open>VPN gateways and devices\<close>

lemma gateway_prohibit:
  assumes "(c, s, 0, False) \<in> set rs" "applies c (''from '' @ s)"
  shows "walk resolves (gateway_actions applies (number_gateway_rules k rs)) \<noteq> Fall_Through"
proof (rule walk_prohibit)
  from number_gateway_mem [OF assms(1)] obtain r where
    "r \<in> set (number_gateway_rules k rs)" "vr_cmd r = c" "vr_source r = s" "vr_table r = 0" "\<not> vr_direct r"
    by blast
  with assms(2) show "Prohibit \<in> set (gateway_actions applies (number_gateway_rules k rs))"
    by (force simp: gateway_actions_def gateway_action_def image_iff)
qed

text \<open>A peer bound to a usable VPN gateway never falls through to the main table, even when
  the gateway's table holds no route.\<close>

theorem gateway_peer_fails_closed:
  assumes "p \<in> set (cfg_peers cfg)" "p_enabled p" "trim_space (p_gateway_id p) \<noteq> []"
    "usable_gateway cfg (p_gateway_id p) = Some g" "s \<in> set (peer_sources (p_allowed_ips p))"
    "applies (ip_cmd s) (''from '' @ s)"
  shows "walk resolves (gateway_actions applies (vpn_gateway_rules cfg)) \<noteq> Fall_Through"
proof -
  have "(ip_cmd s, s, 0, False) \<in> set (peer_gateway_specs cfg p)"
    using assms(2-5) by (auto simp: peer_gateway_specs_def)
  with assms(1) have "(ip_cmd s, s, 0, False) \<in> set (concat (map (peer_gateway_specs cfg) (cfg_peers cfg)))"
    by auto
  from gateway_prohibit [where applies = applies, OF this assms(6)] show ?thesis by (simp add: vpn_gateway_rules_def)
qed

definition sample_gateway :: vpn_gateway where
  "sample_gateway = zero_gateway\<lparr>g_id := ''g'', g_name := ''g'', g_interface := ''wggw0'', g_enabled := True,
     g_table := 200, g_allowed_ips := ''0.0.0.0/0''\<rparr>"

definition sample_bound :: peer where
  "sample_bound = zero_peer\<lparr>p_id := ''b'', p_name := ''b'', p_enabled := True, p_gateway_id := ''g'',
     p_allowed_ips := ''10.0.0.3/32'',
     p_device_rules := [\<lparr>dr_ip = ''192.168.1.5'', dr_gateway = ''gone'', dr_enabled = True\<rparr>]\<rparr>"

definition sample_gateway_config :: app_config where
  "sample_gateway_config = zero_config\<lparr>cfg_peers := [sample_bound], cfg_gateways := [sample_gateway]\<rparr>"

theorem gateway_peer_fails_closed_witness:
  "walk (\<lambda>t. False) (gateway_actions (\<lambda>c sel. True) (vpn_gateway_rules sample_gateway_config)) \<noteq> Fall_Through"
proof (rule gateway_peer_fails_closed [of sample_bound _ sample_gateway "''10.0.0.3''"])
  show "''10.0.0.3'' \<in> set (peer_sources (p_allowed_ips sample_bound))" by code_simp
  show "usable_gateway sample_gateway_config (p_gateway_id sample_bound) = Some sample_gateway"
    by (simp add: usable_gateway_def gateway_interfaces_def sample_gateway_config_def sample_gateway_def sample_bound_def)
  show "trim_space (p_gateway_id sample_bound) \<noteq> []" by code_simp
qed (simp_all add: sample_gateway_config_def sample_bound_def)

text \<open>A LAN device that is assigned to a gateway never falls through, also when the gateway
  is missing, disabled or without a table.\<close>

theorem device_assignment_fails_closed:
  assumes "p \<in> set (cfg_peers cfg)" "p_enabled p" "d \<in> set (p_device_rules p)" "dr_enabled d"
    "device_ip d = Some ip" "trim_space (dr_gateway d) \<noteq> []" "applies ''ip'' (''from '' @ ip)"
  shows "walk resolves (gateway_actions applies (peer_device_gateway_rules cfg)) \<noteq> Fall_Through"
proof -
  have "(''ip'', ip, 0, False) \<in> set (device_specs cfg d)"
    using assms(4-6) by (simp add: device_specs_def split: option.split)
  with assms(1-3) have "(''ip'', ip, 0, False) \<in> set (concat (map (\<lambda>p. if p_enabled p
      then concat (map (device_specs cfg) (p_device_rules p)) else []) (cfg_peers cfg)))"
    by (auto intro!: bexI [of _ p])
  from gateway_prohibit [where applies = applies, OF this assms(7)] show ?thesis by (simp add: peer_device_gateway_rules_def)
qed

theorem device_assignment_fails_closed_witness:
  "walk (\<lambda>t. False) (gateway_actions (\<lambda>c sel. True) (peer_device_gateway_rules sample_gateway_config)) \<noteq> Fall_Through"
proof (rule device_assignment_fails_closed [of sample_bound _
      "\<lparr>dr_ip = ''192.168.1.5'', dr_gateway = ''gone'', dr_enabled = True\<rparr>" "''192.168.1.5''"])
  show "device_ip \<lparr>dr_ip = ''192.168.1.5'', dr_gateway = ''gone'', dr_enabled = True\<rparr> = Some ''192.168.1.5''"
    by code_simp
  show "trim_space (dr_gateway \<lparr>dr_ip = ''192.168.1.5'', dr_gateway = ''gone'', dr_enabled = True\<rparr>) \<noteq> []"
    by code_simp
qed (simp_all add: sample_gateway_config_def sample_bound_def)

section \<open>Priorities\<close>

definition all_priorities :: "string \<Rightarrow> app_config \<Rightarrow> nat list" where
  "all_priorities env cfg =
     map pr_prio (peer_rules cfg (enabled_exit_nodes cfg)) @ map vr_prio (peer_device_gateway_rules cfg)
     @ map lr_prio (local_network_rules env cfg) @ map vr_prio (vpn_gateway_rules cfg)"

lemma priorities:
  "map pr_prio (peer_rules cfg exits) = [10000..<10000 + length (peer_rules cfg exits)]"
  "map vr_prio (peer_device_gateway_rules cfg) = [16000..<16000 + length (peer_device_gateway_rules cfg)]"
  "map lr_prio (local_network_rules env cfg) = [17000..<17000 + length (local_network_rules env cfg)]"
  "map vr_prio (vpn_gateway_rules cfg) = [18000..<18000 + length (vpn_gateway_rules cfg)]"
proof -
  have *: "map f xs = [k..<k + length ys] \<Longrightarrow> map f xs = [k..<k + length xs]" for f :: "'a \<Rightarrow> nat" and xs k and ys :: "'b list"
    by (metis add_diff_cancel_left' length_map length_upt)
  show "map pr_prio (peer_rules cfg exits) = [10000..<10000 + length (peer_rules cfg exits)]"
    using * [OF number_rules_prio] by (simp add: peer_rules_def rule_priority_base_def)
  show "map vr_prio (peer_device_gateway_rules cfg) = [16000..<16000 + length (peer_device_gateway_rules cfg)]"
    using * [OF number_gateway_prio] by (simp add: peer_device_gateway_rules_def device_rule_base_def)
  show "map lr_prio (local_network_rules env cfg) = [17000..<17000 + length (local_network_rules env cfg)]"
    using * [OF number_lan_prio] by (simp add: local_network_rules_def local_network_rule_base_def Let_def)
  show "map vr_prio (vpn_gateway_rules cfg) = [18000..<18000 + length (vpn_gateway_rules cfg)]"
    using * [OF number_gateway_prio] by (simp add: vpn_gateway_rules_def gateway_rule_base_def)
qed

text \<open>As long as there are at most 6000 peer rules and 1000 device and LAN rules each, all
  generated priorities are distinct and the families are evaluated in the order peers, devices,
  LAN bypass, gateways, each in the order it was generated, before the main table.\<close>

theorem rule_priorities_sorted:
  assumes "length (peer_rules cfg (enabled_exit_nodes cfg)) \<le> 6000"
    "length (peer_device_gateway_rules cfg) \<le> 1000" "length (local_network_rules env cfg) \<le> 1000"
    "length (vpn_gateway_rules cfg) \<le> 14766"
  shows "sorted_wrt (<) (all_priorities env cfg) \<and> set (all_priorities env cfg) \<subseteq> {10000..<32766}"
  using assms by (auto simp: all_priorities_def priorities sorted_wrt_append)

theorem rule_priorities_sorted_witness:
  "sorted_wrt (<) (all_priorities [] sample_config) \<and> set (all_priorities [] sample_config) \<subseteq> {10000..<32766}"
proof (rule rule_priorities_sorted)
  have p: "cfg_peers sample_config = [sample_peer]" by (simp add: sample_config_def)
  have "length (peer_rule_specs (enabled_exit_nodes sample_config) sample_peer) = 2" by code_simp
  then show "length (peer_rules sample_config (enabled_exit_nodes sample_config)) \<le> 6000"
    by (simp add: peer_rules_def p length_number_rules)
  have "peer_lan_specs (local_network_cidrs []) sample_peer = []" by code_simp
  then show "length (local_network_rules [] sample_config) \<le> 1000"
    by (simp add: local_network_rules_def p Let_def device_lan_specs_def sample_peer_def zero_peer_def)
qed (simp_all add: peer_device_gateway_rules_def vpn_gateway_rules_def peer_gateway_specs_def
    sample_config_def sample_peer_def zero_peer_def)

section \<open>Strict egress chain\<close>

text \<open>The verdict of a chain on a packet: the action of the first rule that matches.\<close>

fun chain :: "(egress_rule \<Rightarrow> bool) \<Rightarrow> egress_rule list \<Rightarrow> egress_action option" where
  "chain m [] = None"
| "chain m (r # rs) = (if m r then Some (er_action r) else chain m rs)"

lemma chain_mem: "chain m rs = Some a \<Longrightarrow> \<exists>r \<in> set rs. m r \<and> er_action r = a"
  by (induction m rs rule: chain.induct) (auto split: if_splits)

lemma chain_None: "chain m rs = None \<longleftrightarrow> (\<forall>r \<in> set rs. \<not> m r)"
  by (induction m rs rule: chain.induct) auto

text \<open>The egress a strict peer is entitled to: over wg0 through its exit node, or over the device
  its policy route's gateway resolves to.\<close>

definition egress_allowed :: "gateway_net list \<Rightarrow> (string \<Rightarrow> peer option) \<Rightarrow> peer \<Rightarrow> egress_rule \<Rightarrow> bool" where
  "egress_allowed nets exits p r \<longleftrightarrow>
     (p_exit_id p \<noteq> [] \<and> exits (p_exit_id p) \<noteq> None \<and> er_out r = WGDevice)
     \<or> (\<exists>route a b. route \<in> set (p_policy_routes p) \<and> split_str route '' via '' = [a, b]
          \<and> er_dest r = trim_space a \<and> resolve_gateway (trim_space b) nets = Inr (er_out r) \<and> er_out r \<noteq> [])"

lemma source_egress_return:
  assumes "r \<in> set (source_egress nets exits p src)" "er_action r = RETURN"
  shows "er_source r = src \<and> egress_allowed nets exits p r"
proof -
  consider "r \<in> set (exit_egress exits p src)"
    | route where "route \<in> set (p_policy_routes p)" "r \<in> set (policy_egress nets src route)"
    using assms by (auto simp: source_egress_def reject_rule_def)
  then show ?thesis
  proof cases
    case 1
    then show ?thesis
      by (auto simp: exit_egress_def egress_allowed_def allow_rule_def Let_def split: if_splits option.splits)
  next
    case 2
    from 2(2) obtain a b where ab: "split_str route '' via '' = [a, b]"
      by (auto simp: policy_egress_def split: list.splits intro: that [OF sym])
    with 2(2) obtain dev where "resolve_gateway (trim_space b) nets = Inr dev" "dev \<noteq> []"
      "r = allow_rule src (trim_space a) dev"
      by (auto simp: policy_egress_def Let_def split: option.splits sum.splits if_splits)
    with 2(1) ab show ?thesis by (auto simp: egress_allowed_def allow_rule_def)
  qed
qed

text \<open>C15: the egress chain rejects every packet of a strict peer unless it leaves through a device
  that some strict peer owning a matching source is entitled to use; no strict packet passes
  the chain undecided.\<close>

theorem strict_egress_fails_closed:
  assumes "p \<in> set (cfg_peers cfg)" "p_enabled p" "p_strict p" "s \<in> set (peer_sources (p_allowed_ips p))"
    "m (reject_rule s)"
  shows "chain m (strict_egress_rules cfg nets exits) = Some REJECT
    \<or> (\<exists>q r. q \<in> set (cfg_peers cfg) \<and> p_enabled q \<and> p_strict q
         \<and> er_source r \<in> set (peer_sources (p_allowed_ips q)) \<and> m r \<and> egress_allowed nets exits q r)"
proof -
  let ?rs = "strict_egress_rules cfg nets exits"
  have "reject_rule s \<in> set ?rs"
    using assms(1-4) by (force simp: strict_egress_rules_def source_egress_def)
  with assms(5) have "chain m ?rs \<noteq> None" by (auto simp: chain_None)
  then obtain a where a: "chain m ?rs = Some a" by blast
  show ?thesis
  proof (cases a)
    case RETURN
    with chain_mem [OF a] obtain r q src where "m r" "er_action r = RETURN" "q \<in> set (cfg_peers cfg)"
      "p_enabled q" "p_strict q" "src \<in> set (peer_sources (p_allowed_ips q))"
      "r \<in> set (source_egress nets exits q src)"
      by (auto simp: strict_egress_rules_def split: if_splits)
    with source_egress_return show ?thesis by blast
  qed (use a in simp)
qed

theorem strict_egress_fails_closed_witness:
  "chain (\<lambda>r. er_source r = ''10.0.0.2'' \<and> er_action r = REJECT)
     (strict_egress_rules sample_config [] (\<lambda>_. None)) = Some REJECT"
proof -
  have s: "''10.0.0.2'' \<in> set (peer_sources (p_allowed_ips sample_peer))" by code_simp
  have ne: "\<not> egress_allowed [] (\<lambda>_. None) q r" if "q \<in> set (cfg_peers sample_config)" for q r
    using that by (auto simp: egress_allowed_def sample_config_def resolve_gateway_def gw_scan_all_def Let_def split: option.splits)
  have "sample_peer \<in> set (cfg_peers sample_config)" "p_enabled sample_peer" "p_strict sample_peer"
    by (simp_all add: sample_config_def sample_peer_def)
  from strict_egress_fails_closed [OF this s, of "\<lambda>r. er_source r = ''10.0.0.2'' \<and> er_action r = REJECT" "[]" "\<lambda>_. None"]
  show ?thesis using ne by (simp add: reject_rule_def) blast
qed

section \<open>LAN bypass\<close>

lemma peer_lan_specs_cidr: "(c, s, d) \<in> set (peer_lan_specs lans p) \<Longrightarrow> is_cidr s"
  by (auto simp: peer_lan_specs_def is_cidr_def split: if_splits option.splits dest: sym)

lemma is_cidr_slash: "is_cidr s \<Longrightarrow> CHR ''/'' \<in> set s"
  by (auto simp: is_cidr_def parse_cidr_def split: option.splits) (metis index_byte_None option.distinct(1))

text \<open>The LAN bypass loop over peers produces nothing for a peer all of whose selectors are
  host addresses: \<^verbatim>\<open>PeerSources\<close> drops a \<^verbatim>\<open>/32\<close> or \<^verbatim>\<open>/128\<close> mask, and the loop then fails to
  parse the selector as a CIDR and skips it.\<close>

theorem lan_bypass_skips_hosts:
  assumes "\<forall>s \<in> set (peer_sources (p_allowed_ips p)). CHR ''/'' \<notin> set s"
  shows "peer_lan_specs lans p = []"
proof (rule ccontr)
  assume "peer_lan_specs lans p \<noteq> []"
  then obtain c s d where m: "(c, s, d) \<in> set (peer_lan_specs lans p)"
    by (metis list.set_intros(1) neq_Nil_conv prod_cases3)
  then have "s \<in> set (peer_sources (p_allowed_ips p))"
    by (auto simp: peer_lan_specs_def split: if_splits option.splits)
  with assms is_cidr_slash [OF peer_lan_specs_cidr [OF m]] show False by blast
qed

theorem lan_bypass_skips_hosts_witness: "peer_lan_specs [''192.168.178.0/24''] sample_bound = []"
proof (rule lan_bypass_skips_hosts)
  show "\<forall>s \<in> set (peer_sources (p_allowed_ips sample_bound)). CHR ''/'' \<notin> set s" by code_simp
qed

end
