(* ===== verification/Routing_Cmds.thy ===== *)
theory Routing_Cmds
  imports Routing_Spec "HOL-Library.List_Lexorder" "HOL-Library.Char_ord"
begin

text \<open>
  The command side of \<^verbatim>\<open>internal/routing/routing.go\<close>: the shell commands that install and
  remove what theory \<open>Routing\<close> describes, the hooks written to \<^verbatim>\<open>wg0.conf\<close>, and
  \<^verbatim>\<open>Reconcile\<close>.  Go iterates a map of exit nodes in an unspecified order; \<open>ord\<close> is that
  order (any permutation).  The shell is a function \<open>sh\<close> of the commands executed so far and the
  next command: \<open>None\<close> is success, \<open>Some (err, out)\<close> the error and the output.
\<close>

definition squote :: string where
  "squote = [char_of (39 :: nat)]"

section \<open>Strict egress chains\<close>

definition strict_chain_v4 :: string where "strict_chain_v4 = ''WG_BUSY_STRICT4''"
definition strict_chain_v6 :: string where "strict_chain_v6 = ''WG_BUSY_STRICT6''"
definition strict_apply_comment :: string where "strict_apply_comment = ''wg-busy strict apply''"

definition egress_cmd :: "egress_rule \<Rightarrow> string" where
  "egress_cmd r =
     (if \<not> er_v6 r then
        (if er_action r = RETURN then (''iptables -w -A '' @ strict_chain_v4 @ '' -s '' @ er_source r @ '' -d '' @ er_dest r @ '' -o '' @ er_out r @ '' -j RETURN'')
         else (''iptables -w -A '' @ strict_chain_v4 @ '' -s '' @ er_source r @ '' -j REJECT --reject-with icmp-admin-prohibited''))
      else
        (if er_action r = RETURN then (''ip6tables -w -A '' @ strict_chain_v6 @ '' -s '' @ er_source r @ '' -d '' @ er_dest r @ '' -o '' @ er_out r @ '' -j RETURN'')
         else (''ip6tables -w -A '' @ strict_chain_v6 @ '' -s '' @ er_source r @ '' -j REJECT --reject-with icmp6-adm-prohibited'')))"

definition chain_setup :: "string \<Rightarrow> string \<Rightarrow> string list" where
  "chain_setup tool ch =
     [(tool @ '' -w -N '' @ ch @ '' 2>/dev/null || true''),
      (tool @ '' -w -C FORWARD -i '' @ WGDevice @ '' -j '' @ ch @ '' 2>/dev/null || '' @ tool @ '' -w -I FORWARD 1 -i '' @ WGDevice @ '' -j '' @ ch),
      (tool @ '' -w -F '' @ ch)]"

definition strict_firewall_commands :: "app_config \<Rightarrow> gateway_net list \<Rightarrow> bool \<Rightarrow> string list" where
  "strict_firewall_commands cfg nets add =
     (if add then
        chain_setup ''iptables'' strict_chain_v4 @ chain_setup ''ip6tables'' strict_chain_v6
        @ map egress_cmd (strict_egress_rules cfg nets (enabled_exit_nodes cfg))
      else
        [(''iptables -w -D FORWARD -i '' @ WGDevice @ '' -j '' @ strict_chain_v4 @ '' 2>/dev/null || true''),
         (''iptables -w -F '' @ strict_chain_v4 @ '' 2>/dev/null || true''),
         (''iptables -w -X '' @ strict_chain_v4 @ '' 2>/dev/null || true''),
         (''ip6tables -w -D FORWARD -i '' @ WGDevice @ '' -j '' @ strict_chain_v6 @ '' 2>/dev/null || true''),
         (''ip6tables -w -F '' @ strict_chain_v6 @ '' 2>/dev/null || true''),
         (''ip6tables -w -X '' @ strict_chain_v6 @ '' 2>/dev/null || true'')])"

definition guard_cmd :: "bool \<Rightarrow> string \<Rightarrow> string" where
  "guard_cmd add src =
     (let tool = (if v6_text src then ''ip6tables'' else ''iptables'');
          kind = (if v6_text src then ''icmp6-adm-prohibited'' else ''icmp-admin-prohibited'') in
      if add then (tool @ '' -w -I FORWARD 1 -i '' @ WGDevice @ '' -s '' @ src @ '' -m comment --comment '' @ squote @ strict_apply_comment @ squote @ '' -j REJECT --reject-with '' @ kind)
      else (tool @ '' -w -D FORWARD -i '' @ WGDevice @ '' -s '' @ src @ '' -m comment --comment '' @ squote @ strict_apply_comment @ squote @ '' -j REJECT --reject-with '' @ kind @ '' 2>/dev/null || true''))"

definition temporary_reject_commands :: "string list \<Rightarrow> bool \<Rightarrow> string list" where
  "temporary_reject_commands sources add = map (guard_cmd add) sources"

section \<open>ZeroTier masquerade\<close>

definition masquerade_spec :: string where
  "masquerade_spec = ''POSTROUTING -o zt+ -j MASQUERADE''"

text \<open>The networks advertised over ZeroTier: IPv4, each once, in the order of the map's iteration.\<close>

definition advertised_network :: "string \<Rightarrow> string list" where
  "advertised_network a =
     (case parse_cidr (trim_space a) of
        None \<Rightarrow> []
      | Some (ip, n) \<Rightarrow> if to4 ip = None then [] else [ipnet_string n])"

definition advertised_specs :: "gateway_net list \<Rightarrow> (string \<times> string list) list \<Rightarrow> string list" where
  "advertised_specs nets advertised =
     map (\<lambda>n. (''-s '' @ n @ '' -o zt+ -j ACCEPT''))
       (dedup (concat (map (\<lambda>(peer_ip, routes).
          if has_prefix (device_for_gateway peer_ip nets) ''zt'' then concat (map advertised_network routes) else [])
        advertised)))"

definition zerotier_masquerade ::
  "app_config \<Rightarrow> gateway_net list \<Rightarrow> (string \<times> string list) list \<Rightarrow> bool \<Rightarrow> string list" where
  "zerotier_masquerade cfg nets advertised add =
     (let z = cfg_zerotier cfg in
      if \<not> zt_enabled z \<or> zt_disable_masq z then []
      else
        let specs = (if zt_exclude_adv z then sort (advertised_specs nets advertised) else []) in
        if add then
          map (\<lambda>s. (''iptables -t nat -C POSTROUTING '' @ s @ '' 2>/dev/null || iptables -t nat -I POSTROUTING 1 '' @ s)) specs
          @ [(''iptables -t nat -C '' @ masquerade_spec @ '' 2>/dev/null || iptables -t nat -A '' @ masquerade_spec)]
        else
          (''iptables -t nat -D '' @ masquerade_spec @ '' || true'')
          # map (\<lambda>s. (''iptables -t nat -D POSTROUTING '' @ s @ '' || true'')) specs)"

section \<open>Routes\<close>

definition cidr_is_v6 :: "string \<Rightarrow> bool" where
  "cidr_is_v6 s = (case parse_cidr s of None \<Rightarrow> False | Some (ip, _) \<Rightarrow> to4 ip = None)"

definition policy_route_cmd ::
  "string \<Rightarrow> string \<Rightarrow> string \<Rightarrow> nat \<Rightarrow> gateway_net list \<Rightarrow> bool \<Rightarrow> string" where
  "policy_route_cmd action subnet gateway table nets strict =
     (let c = (if cidr_is_v6 subnet then ''ip -6'' else ''ip'') in
      if action = ''del'' then (c @ '' route del '' @ subnet @ '' table '' @ nat_dec (table) @ '' || true'')
      else
        let dev = device_for_gateway gateway nets in
        if dev = [] \<and> strict then []
        else let dev' = (if dev = [] then WGDevice else dev) in
          (c @ '' route '' @ action @ '' '' @ subnet @ '' via '' @ gateway @ '' dev '' @ dev' @ '' table '' @ nat_dec (table) @ '' || true''))"

definition policy_route_cmds :: "string \<Rightarrow> app_config \<Rightarrow> gateway_net list \<Rightarrow> string list" where
  "policy_route_cmds action cfg nets =
     concat (map (\<lambda>p.
       if \<not> p_enabled p \<or> p_policy_routes p = [] \<or> p_policy_table p = 0 \<or> peer_ips (p_allowed_ips p) = [] then []
       else concat (map (\<lambda>route.
         case split_str route '' via '' of
           [a, b] \<Rightarrow>
             (let cmd = policy_route_cmd action (trim_space a) (trim_space b) (p_policy_table p) nets (p_strict p)
              in if cmd = [] then [] else [cmd])
         | _ \<Rightarrow> []) (p_policy_routes p)))
      (cfg_peers cfg))"

text \<open>The values of the exit node map, in the iteration order \<open>ord\<close>; a table is filled once.\<close>

definition exit_node_ids :: "app_config \<Rightarrow> string list" where
  "exit_node_ids cfg =
     remdups (map p_id (filter (\<lambda>p. p_is_exit p \<and> p_enabled p \<and> 0 < p_table p) (cfg_peers cfg)))"

definition exit_node_values :: "(string list \<Rightarrow> string list) \<Rightarrow> app_config \<Rightarrow> peer list" where
  "exit_node_values ord cfg =
     concat (map (\<lambda>i. case enabled_exit_nodes cfg i of None \<Rightarrow> [] | Some p \<Rightarrow> [p]) (ord (exit_node_ids cfg)))"

definition exit_node_routes :: "string \<Rightarrow> peer \<Rightarrow> string list" where
  "exit_node_routes action x =
     (let tail = (if action = ''del'' then '' || true'' else []) in
      if p_exit_all x then
        map (\<lambda>c. (c @ '' route '' @ action @ '' default dev wg0 table '' @ nat_dec (p_table x)) @ tail) [''ip -4'', ''ip -6'']
      else concat (map (\<lambda>route. if route = [] then [] else
        [((if cidr_is_v6 route then ''ip -6'' else ''ip -4'') @ '' route '' @ action @ '' '' @ route @ '' dev wg0 table '' @ nat_dec (p_table x)) @ tail]) (p_exit_routes x)))"

fun exit_node_route_loop :: "string \<Rightarrow> nat list \<Rightarrow> peer list \<Rightarrow> string list" where
  "exit_node_route_loop action done [] = []"
| "exit_node_route_loop action done (x # xs) =
     (if p_table x \<in> set done then exit_node_route_loop action done xs
      else exit_node_routes action x @ exit_node_route_loop action (p_table x # done) xs)"

definition exit_node_route_cmds :: "(string list \<Rightarrow> string list) \<Rightarrow> string \<Rightarrow> app_config \<Rightarrow> string list" where
  "exit_node_route_cmds ord action cfg = exit_node_route_loop action [] (exit_node_values ord cfg)"

text \<open>Default routes of the gateway tables.\<close>

definition gateway_has :: "bool \<Rightarrow> string \<Rightarrow> vpn_gateway \<Rightarrow> bool" where
  "gateway_has v4 net g =
     list_ex (\<lambda>a. case parse_cidr (trim_space a) of
         None \<Rightarrow> False
       | Some (_, n) \<Rightarrow> (to4 (net_ip n) \<noteq> None) = v4 \<and> ipnet_string n = net)
       (split_char CHR '','' (g_allowed_ips g))"

definition gateway_route_commands :: "app_config \<Rightarrow> string \<Rightarrow> string list" where
  "gateway_route_commands cfg action =
     concat (map (\<lambda>g.
       if g_interface g = [] \<or> g_table g = 0 then []
       else
         let tail = (if action = ''del'' \<or> action = ''replace'' then '' 2>/dev/null || true'' else []) in
         (if gateway_has True ''0.0.0.0/0'' g
          then [(''ip route '' @ action @ '' default dev '' @ g_interface g @ '' table '' @ nat_dec (g_table g)) @ tail] else [])
         @ (if gateway_has False ''::/0'' g
            then [(''ip -6 route '' @ action @ '' default dev '' @ g_interface g @ '' table '' @ nat_dec (g_table g)) @ tail] else []))
      (cfg_gateways cfg))"

section \<open>Gateway chains\<close>

definition gateway_chain_v4 :: string where "gateway_chain_v4 = ''WG_BUSY_GW_FWD4''"
definition gateway_chain_v6 :: string where "gateway_chain_v6 = ''WG_BUSY_GW_FWD6''"
definition gateway_nat_chain_v4 :: string where "gateway_nat_chain_v4 = ''WG_BUSY_GW_NAT4''"

definition gateway_chain_setup :: "string \<Rightarrow> string \<Rightarrow> string list" where
  "gateway_chain_setup tool ch =
     [(tool @ '' -w -N '' @ ch @ '' 2>/dev/null || true''),
      (tool @ '' -w -F '' @ ch),
      (tool @ '' -w -C FORWARD -i '' @ WGDevice @ '' -j '' @ ch @ '' 2>/dev/null || '' @ tool @ '' -w -I FORWARD 1 -i '' @ WGDevice @ '' -j '' @ ch)]"

definition lan_accept :: "string list \<Rightarrow> peer \<Rightarrow> string list" where
  "lan_accept lans p =
     (if \<not> p_enabled p then [] else
      concat (map (\<lambda>src. if v6_text src then [] else
        concat (map (\<lambda>dest. if v6_text dest then [] else
          [(''iptables -w -A '' @ gateway_chain_v4 @ '' -s '' @ src @ '' -d '' @ dest @ '' -j ACCEPT''),
           (''iptables -t nat -w -A '' @ gateway_nat_chain_v4 @ '' -s '' @ src @ '' -d '' @ dest @ '' -j MASQUERADE''),
           (''iptables -w -A '' @ gateway_chain_v4 @ '' -d '' @ dest @ '' -m conntrack --ctstate ESTABLISHED,RELATED -j ACCEPT'')]) lans))
        (peer_sources (p_allowed_ips p))))"

definition gateway_accept_v4 :: "string \<Rightarrow> string \<Rightarrow> string list" where
  "gateway_accept_v4 src dev =
     [(''iptables -w -A '' @ gateway_chain_v4 @ '' -s '' @ src @ '' -o '' @ dev @ '' -j ACCEPT''),
      (''iptables -w -A '' @ gateway_chain_v4 @ '' -i '' @ dev @ '' -o '' @ WGDevice @ '' -d '' @ src @ '' -m conntrack --ctstate ESTABLISHED,RELATED -j ACCEPT''),
      (''iptables -t nat -w -A '' @ gateway_nat_chain_v4 @ '' -s '' @ src @ '' -o '' @ dev @ '' -j MASQUERADE'')]"

definition gateway_accept_v6 :: "string \<Rightarrow> string \<Rightarrow> string list" where
  "gateway_accept_v6 src dev =
     [(''ip6tables -w -A '' @ gateway_chain_v6 @ '' -s '' @ src @ '' -o '' @ dev @ '' -j ACCEPT''),
      (''ip6tables -w -A '' @ gateway_chain_v6 @ '' -i '' @ dev @ '' -o '' @ WGDevice @ '' -d '' @ src @ '' -m conntrack --ctstate ESTABLISHED,RELATED -j ACCEPT'')]"

text \<open>An enabled gateway with an interface; the firewall does not ask for a table.\<close>

definition forwarding_gateway :: "app_config \<Rightarrow> string \<Rightarrow> vpn_gateway option" where
  "forwarding_gateway cfg i =
     (case gateway_interfaces cfg i of
        None \<Rightarrow> None
      | Some g \<Rightarrow> if g_enabled g \<and> g_interface g \<noteq> [] then Some g else None)"

definition peer_accept :: "app_config \<Rightarrow> peer \<Rightarrow> string list" where
  "peer_accept cfg p =
     (if \<not> p_enabled p \<or> p_gateway_id p = [] then [] else
      case forwarding_gateway cfg (p_gateway_id p) of
        None \<Rightarrow> []
      | Some g \<Rightarrow> concat (map (\<lambda>src. if v6_text src then gateway_accept_v6 src (g_interface g)
                                   else gateway_accept_v4 src (g_interface g)) (peer_sources (p_allowed_ips p))))"

definition device_accept :: "app_config \<Rightarrow> peer \<Rightarrow> string list" where
  "device_accept cfg p =
     (if \<not> p_enabled p then [] else
      concat (map (\<lambda>d.
        if \<not> dr_enabled d \<or> dr_gateway d = [] then [] else
        case forwarding_gateway cfg (dr_gateway d) of
          None \<Rightarrow> []
        | Some g \<Rightarrow> (case device_ip d of None \<Rightarrow> [] | Some ip \<Rightarrow> gateway_accept_v4 ip (g_interface g)))
        (p_device_rules p)))"

definition gateway_firewall_commands :: "string \<Rightarrow> app_config \<Rightarrow> bool \<Rightarrow> string list" where
  "gateway_firewall_commands env cfg add =
     (if add then
        gateway_chain_setup ''iptables'' gateway_chain_v4
        @ [(''iptables -t nat -w -N '' @ gateway_nat_chain_v4 @ '' 2>/dev/null || true''),
           (''iptables -t nat -w -F '' @ gateway_nat_chain_v4),
           (''iptables -t nat -w -C POSTROUTING -j '' @ gateway_nat_chain_v4 @ '' 2>/dev/null || iptables -t nat -w -I POSTROUTING 1 -j '' @ gateway_nat_chain_v4)]
        @ gateway_chain_setup ''ip6tables'' gateway_chain_v6
        @ concat (map (lan_accept (local_network_cidrs env)) (cfg_peers cfg))
        @ concat (map (peer_accept cfg) (cfg_peers cfg))
        @ concat (map (device_accept cfg) (cfg_peers cfg))
      else
        [(''iptables -w -D FORWARD -i '' @ WGDevice @ '' -j '' @ gateway_chain_v4 @ '' 2>/dev/null || true''),
         (''iptables -w -F '' @ gateway_chain_v4 @ '' 2>/dev/null || true''),
         (''iptables -w -X '' @ gateway_chain_v4 @ '' 2>/dev/null || true''),
         (''iptables -t nat -w -D POSTROUTING -j '' @ gateway_nat_chain_v4 @ '' 2>/dev/null || true''),
         (''iptables -t nat -w -F '' @ gateway_nat_chain_v4 @ '' 2>/dev/null || true''),
         (''iptables -t nat -w -X '' @ gateway_nat_chain_v4 @ '' 2>/dev/null || true''),
         (''ip6tables -w -D FORWARD -i '' @ WGDevice @ '' -j '' @ gateway_chain_v6 @ '' 2>/dev/null || true''),
         (''ip6tables -w -F '' @ gateway_chain_v6 @ '' 2>/dev/null || true''),
         (''ip6tables -w -X '' @ gateway_chain_v6 @ '' 2>/dev/null || true'')])"

section \<open>Rule commands\<close>

definition replace_rule :: "string \<Rightarrow> nat \<Rightarrow> string \<Rightarrow> string" where
  "replace_rule c prio body = (c @ '' rule del priority '' @ nat_dec (prio) @ '' 2>/dev/null || true; '' @ c @ '' rule add '' @ body @ '' priority '' @ nat_dec (prio))"

definition lan_rule_add :: "lan_rule \<Rightarrow> string" where
  "lan_rule_add r = replace_rule (lr_cmd r) (lr_prio r) (''from '' @ lr_source r @ '' to '' @ lr_dest r @ '' table main'')"

definition lan_rule_del :: "lan_rule \<Rightarrow> string" where
  "lan_rule_del r = (lr_cmd r @ '' rule del from '' @ lr_source r @ '' to '' @ lr_dest r @ '' table main priority '' @ nat_dec (lr_prio r) @ '' || true'')"

definition gateway_rule_body :: "gateway_rule \<Rightarrow> string" where
  "gateway_rule_body r =
     (if vr_direct r then (''from '' @ vr_source r @ '' table main'')
      else if vr_table r = 0 then (''from '' @ vr_source r @ '' prohibit'')
      else (''from '' @ vr_source r @ '' table '' @ nat_dec (vr_table r)))"

definition gateway_rule_add :: "gateway_rule \<Rightarrow> string" where
  "gateway_rule_add r = replace_rule (vr_cmd r) (vr_prio r) (gateway_rule_body r)"

definition gateway_rule_del :: "gateway_rule \<Rightarrow> string" where
  "gateway_rule_del r = (vr_cmd r @ '' rule del '' @ gateway_rule_body r @ '' priority '' @ nat_dec (vr_prio r) @ '' || true'')"

definition peer_rule_add :: "peer_rule \<Rightarrow> string" where
  "peer_rule_add r = replace_rule (pr_cmd r) (pr_prio r) (pr_selector r @ '' '' @ pr_action r)"

definition peer_rule_del :: "peer_rule \<Rightarrow> string" where
  "peer_rule_del r = (pr_cmd r @ '' rule del '' @ pr_selector r @ '' '' @ pr_action r @ '' priority '' @ nat_dec (pr_prio r) @ '' || true'')"

section \<open>Hooks\<close>

definition generate_post_up :: "(string list \<Rightarrow> string list) \<Rightarrow> string \<Rightarrow> app_config \<Rightarrow> gateway_net list
    \<Rightarrow> (string \<times> string list) list \<Rightarrow> string list" where
  "generate_post_up ord env cfg nets advertised =
     exit_node_route_cmds ord ''replace'' cfg
     @ gateway_route_commands cfg ''replace''
     @ gateway_firewall_commands env cfg True
     @ zerotier_masquerade cfg nets advertised True
     @ strict_firewall_commands cfg nets True
     @ map lan_rule_add (local_network_rules env cfg)
     @ map gateway_rule_add (vpn_gateway_rules cfg @ peer_device_gateway_rules cfg)
     @ map peer_rule_add (peer_rules cfg (enabled_exit_nodes cfg))
     @ policy_route_cmds ''replace'' cfg nets"

definition generate_post_down :: "(string list \<Rightarrow> string list) \<Rightarrow> string \<Rightarrow> app_config \<Rightarrow> gateway_net list
    \<Rightarrow> (string \<times> string list) list \<Rightarrow> string list" where
  "generate_post_down ord env cfg nets advertised =
     zerotier_masquerade cfg nets advertised False
     @ map lan_rule_del (local_network_rules env cfg)
     @ map gateway_rule_del (vpn_gateway_rules cfg @ peer_device_gateway_rules cfg)
     @ map peer_rule_del (peer_rules cfg (enabled_exit_nodes cfg))
     @ gateway_route_commands cfg ''del''
     @ exit_node_route_cmds ord ''del'' cfg
     @ policy_route_cmds ''del'' cfg nets
     @ strict_firewall_commands cfg nets False"

section \<open>Reconcile\<close>

type_synonym shell = "string list \<Rightarrow> string \<Rightarrow> (string \<times> string) option"

fun apply_commands :: "shell \<Rightarrow> string list \<Rightarrow> string list \<Rightarrow> string list \<times> string option" where
  "apply_commands sh log [] = (log, None)"
| "apply_commands sh log (cmd # cmds) =
     (case sh log cmd of
        Some (err, out) \<Rightarrow> (log @ [cmd], Some (cmd @ '': '' @ err @ '': '' @ trim_space out))
      | None \<Rightarrow> apply_commands sh (log @ [cmd]) cmds)"

text \<open>One step \<^verbatim>\<open>if err := applyCommands(...); err != nil { return fmt.Errorf(...) }\<close> after another.\<close>

fun apply_phases :: "shell \<Rightarrow> string list \<Rightarrow> (string \<times> string list) list \<Rightarrow> string list \<times> string option" where
  "apply_phases sh log [] = (log, None)"
| "apply_phases sh log ((what, cmds) # ps) =
     (case apply_commands sh log cmds of
        (log', Some e) \<Rightarrow> (log', Some (what @ '': '' @ e))
      | (log', None) \<Rightarrow> apply_phases sh log' ps)"

definition teardown_commands :: "(string list \<Rightarrow> string list) \<Rightarrow> string \<Rightarrow> app_config \<Rightarrow> gateway_net list
    \<Rightarrow> (string \<times> string list) list \<Rightarrow> string list" where
  "teardown_commands ord env cfg nets advertised =
     zerotier_masquerade cfg nets advertised False
     @ map peer_rule_del (peer_rules cfg (enabled_exit_nodes cfg))
     @ gateway_firewall_commands env cfg False
     @ map lan_rule_del (local_network_rules env cfg)
     @ map gateway_rule_del (vpn_gateway_rules cfg @ peer_device_gateway_rules cfg)
     @ gateway_route_commands cfg ''del''
     @ exit_node_route_cmds ord ''del'' cfg
     @ policy_route_cmds ''del'' cfg nets"

definition setup_commands :: "(string list \<Rightarrow> string list) \<Rightarrow> string \<Rightarrow> app_config \<Rightarrow> gateway_net list
    \<Rightarrow> (string \<times> string list) list \<Rightarrow> string list" where
  "setup_commands ord env cfg nets advertised =
     exit_node_route_cmds ord ''replace'' cfg
     @ gateway_route_commands cfg ''replace''
     @ gateway_firewall_commands env cfg True
     @ zerotier_masquerade cfg nets advertised True
     @ map lan_rule_add (local_network_rules env cfg)
     @ map gateway_rule_add (vpn_gateway_rules cfg @ peer_device_gateway_rules cfg)
     @ map peer_rule_add (peer_rules cfg (enabled_exit_nodes cfg))
     @ policy_route_cmds ''replace'' cfg nets"

record routing_state =
  rs_config :: app_config
  rs_nets :: "gateway_net list"
  rs_advertised :: "(string \<times> string list) list"

definition reconcile_phases :: "(string list \<Rightarrow> string list) \<Rightarrow> string \<Rightarrow> routing_state \<Rightarrow> routing_state
    \<Rightarrow> (string \<times> string list) list" where
  "reconcile_phases ord env prev nxt =
     (let affected = union_sources (strict_peer_sources (rs_config prev)) (strict_peer_sources (rs_config nxt)) in
      [(''installing temporary strict guards'', temporary_reject_commands affected True),
       (''removing previous routing state'',
         teardown_commands ord env (rs_config prev) (rs_nets prev) (rs_advertised prev)),
       (''updating strict firewall chains'', strict_firewall_commands (rs_config nxt) (rs_nets nxt) True),
       (''installing new routing state'',
         setup_commands ord env (rs_config nxt) (rs_nets nxt) (rs_advertised nxt)),
       (''removing temporary strict guards'', temporary_reject_commands affected False)])"

definition reconcile :: "shell \<Rightarrow> (string list \<Rightarrow> string list) \<Rightarrow> string \<Rightarrow> bool \<Rightarrow> string list
    \<Rightarrow> routing_state \<Rightarrow> routing_state \<Rightarrow> string list \<times> string option" where
  "reconcile sh ord env up log prev nxt =
     (if \<not> up then (log, None) else apply_phases sh log (reconcile_phases ord env prev nxt))"

end
