(* ===== verification/Routing_Recon.thy ===== *)
theory Routing_Recon
  imports Routing_Cmds Validation
begin

text \<open>
  Properties of the command side of routing: \<^verbatim>\<open>Reconcile\<close> executes a prefix of one fixed plan,
  and from its first teardown command to its last setup command every affected strict source
  is blocked by a temporary reject rule, whatever the shell does.  The order in which Go
  iterates the exit node map is irrelevant for accepted configurations.
\<close>

section \<open>Sequences of commands\<close>

text \<open>Every command of a list succeeds, after those before it.\<close>

fun all_ok :: "shell \<Rightarrow> string list \<Rightarrow> string list \<Rightarrow> bool" where
  "all_ok sh log [] = True"
| "all_ok sh log (c # cs) = (sh log c = None \<and> all_ok sh (log @ [c]) cs)"

lemma all_ok_append [simp]: "all_ok sh log (a @ b) = (all_ok sh log a \<and> all_ok sh (log @ a) b)"
  by (induction a arbitrary: log) auto

text \<open>A run executes the whole plan, or stops at the first command that fails.\<close>

definition executed :: "shell \<Rightarrow> string list \<Rightarrow> string list \<Rightarrow> string list \<Rightarrow> string option \<Rightarrow> bool" where
  "executed sh log plan log' r \<longleftrightarrow>
     (case r of
        None \<Rightarrow> log' = log @ plan \<and> all_ok sh log plan
      | Some _ \<Rightarrow> \<exists>pre c rest. plan = pre @ c # rest \<and> log' = log @ pre @ [c] \<and> all_ok sh log pre \<and> sh (log @ pre) c \<noteq> None)"

lemma apply_commands_executed: "apply_commands sh log cmds = (log', r) \<Longrightarrow> executed sh log cmds log' r"
proof (induction cmds arbitrary: log)
  case (Cons c cs)
  show ?case
  proof (cases "sh log c")
    case None
    with Cons.prems have "executed sh (log @ [c]) cs log' r" by (intro Cons.IH) simp
    then show ?thesis
    proof (cases r)
      case (Some e)
      with \<open>executed sh (log @ [c]) cs log' r\<close> obtain pre d rest where
        "cs = pre @ d # rest" "log' = (log @ [c]) @ pre @ [d]" "all_ok sh (log @ [c]) pre"
        "sh ((log @ [c]) @ pre) d \<noteq> None" by (auto simp: executed_def)
      with None Some show ?thesis
        unfolding executed_def by (auto intro!: exI [of _ "c # pre"])
    qed (use None in \<open>simp add: executed_def\<close>)
  next
    case (Some e)
    with Cons.prems have "log' = log @ [c]" "r \<noteq> None" by (auto split: prod.splits)
    with Some show ?thesis by (force simp: executed_def)
  qed
qed (simp add: executed_def)

lemma executed_append:
  "executed sh log a log1 None \<Longrightarrow> executed sh log1 b log' r \<Longrightarrow> executed sh log (a @ b) log' r"
proof (cases r)
  case (Some e)
  assume "executed sh log a log1 None" "executed sh log1 b log' r"
  then obtain pre d rest where "b = pre @ d # rest" "log' = (log @ a) @ pre @ [d]" "all_ok sh log a"
    "all_ok sh (log @ a) pre" "sh ((log @ a) @ pre) d \<noteq> None" using Some by (auto simp: executed_def)
  with Some show ?thesis unfolding executed_def by (auto intro!: exI [of _ "a @ pre"])
qed (simp add: executed_def)

lemma executed_stop: "executed sh log a log' (Some e) \<Longrightarrow> executed sh log (a @ b) log' (Some e')"
  by (auto simp: executed_def)

lemma apply_phases_executed: "apply_phases sh log ps = (log', r) \<Longrightarrow> executed sh log (concat (map snd ps)) log' r"
proof (induction ps arbitrary: log)
  case (Cons p ps)
  obtain what cmds where p: "p = (what, cmds)" by (cases p)
  obtain log1 r1 where a: "apply_commands sh log cmds = (log1, r1)" by (cases "apply_commands sh log cmds")
  note ex1 = apply_commands_executed [OF a]
  show ?case
  proof (cases r1)
    case None
    with Cons.prems p a have "apply_phases sh log1 ps = (log', r)" by simp
    from executed_append [OF ex1 [unfolded None] Cons.IH [OF this]] show ?thesis using p by simp
  next
    case (Some e)
    with Cons.prems p a have "log' = log1" "r = Some (what @ '': '' @ e)" by auto
    with executed_stop [OF ex1 [unfolded Some]] show ?thesis using p by simp
  qed
qed (simp add: executed_def)

section \<open>Guards\<close>

text \<open>How many copies of the temporary reject rule of a source a sequence of commands leaves.\<close>

definition guard_step :: "string \<Rightarrow> nat \<Rightarrow> string \<Rightarrow> nat" where
  "guard_step s k c = (if c = guard_cmd True s then k + 1 else if c = guard_cmd False s then k - 1 else k)"

definition guard_count :: "string \<Rightarrow> string list \<Rightarrow> nat" where
  "guard_count s cmds = foldl (guard_step s) 0 cmds"

text \<open>Guard commands are told apart from all others by their first words.\<close>

definition guard_form :: "string \<Rightarrow> bool" where
  "guard_form c \<longleftrightarrow> has_prefix c ''iptables -w -D FORWARD -i wg0 -s'' \<or> has_prefix c ''ip6tables -w -D FORWARD -i wg0 -s''
     \<or> has_prefix c ''iptables -w -I FORWARD 1 -i wg0 -s'' \<or> has_prefix c ''ip6tables -w -I FORWARD 1 -i wg0 -s''"

lemma guard_cmd_form: "guard_form (guard_cmd add s)"
  by (simp add: guard_form_def guard_cmd_def has_prefix_def WGDevice_def Let_def)

lemma guard_cmd_inj [simp]: "guard_cmd a s = guard_cmd b t \<longleftrightarrow> a = b \<and> s = t"
  by (auto simp: guard_cmd_def WGDevice_def Let_def)

lemma guards_neutral: "\<forall>c \<in> set cmds. \<not> guard_form c \<Longrightarrow> foldl (guard_step s) k cmds = k"
proof (induction cmds arbitrary: k)
  case (Cons c cs)
  then have "guard_step s k c = k" using guard_cmd_form by (auto simp: guard_step_def)
  with Cons show ?case by simp
qed simp

lemma guards_all:
  "foldl (guard_step s) k (map (guard_cmd True) xs) = k + count_list xs s"
  "foldl (guard_step s) k (map (guard_cmd False) xs) = k - count_list xs s"
  by (induction xs arbitrary: k) (auto simp: guard_step_def)

lemma has_prefix_Cons [simp]: "has_prefix (c # s) (d # p) \<longleftrightarrow> c = d \<and> has_prefix s p"
  "has_prefix s []" "\<not> has_prefix [] (d # p)"
  by (auto simp: has_prefix_def)

lemmas cmd_defs = chain_setup_def strict_chain_v4_def strict_chain_v6_def gateway_chain_setup_def
  gateway_chain_v4_def gateway_chain_v6_def gateway_nat_chain_v4_def WGDevice_def

lemma egress_cmd_form: "\<not> guard_form (egress_cmd r)"
  by (simp add: guard_form_def egress_cmd_def cmd_defs)

lemma strict_cmds_form: "c \<in> set (strict_firewall_commands cfg nets add) \<Longrightarrow> \<not> guard_form c"
proof -
  have "\<not> guard_form c" if "c \<in> set (strict_firewall_commands cfg nets False)"
    using that by (auto simp: strict_firewall_commands_def guard_form_def cmd_defs)
  moreover have "\<not> guard_form c" if "c \<in> set (strict_firewall_commands cfg nets True)"
    using that egress_cmd_form by (auto simp: strict_firewall_commands_def guard_form_def cmd_defs)
  ultimately show "c \<in> set (strict_firewall_commands cfg nets add) \<Longrightarrow> ?thesis" by (cases add) auto
qed

text \<open>Everything that starts with \<^verbatim>\<open>ip\<close> and a blank, or with \<^verbatim>\<open>iptables -t\<close>, is not a guard deletion.\<close>

definition harmless :: "string \<Rightarrow> bool" where
  "harmless c \<longleftrightarrow> has_prefix c ''ip '' \<or> has_prefix c ''iptables -t''"

lemma has_prefix_append: "has_prefix c p \<Longrightarrow> \<exists>t. c = p @ t"
  by (metis append_take_drop_id has_prefix_def)

lemma harmless_form: "harmless c \<Longrightarrow> \<not> guard_form c"
  by (auto simp: harmless_def guard_form_def dest!: has_prefix_append)

lemma masquerade_form: "c \<in> set (zerotier_masquerade cfg nets adv add) \<Longrightarrow> harmless c"
  by (auto simp: zerotier_masquerade_def harmless_def Let_def split: if_splits)

lemma ip_cmd_form [simp]: "ip_cmd s = ''ip -6'' \<or> ip_cmd s = ''ip''"
  by (simp add: ip_cmd_def)

lemma policy_cmd_form: "policy_route_cmd action a b t nets st \<noteq> [] \<Longrightarrow> harmless (policy_route_cmd action a b t nets st)"
  by (auto simp: policy_route_cmd_def harmless_def Let_def split: if_splits)

lemma policy_cmds_form: "c \<in> set (policy_route_cmds action cfg nets) \<Longrightarrow> harmless c"
proof -
  assume "c \<in> set (policy_route_cmds action cfg nets)"
  then obtain a b t st where "c = policy_route_cmd action a b t nets st" "c \<noteq> []"
    unfolding policy_route_cmds_def by (auto simp: Let_def split: if_splits list.splits)
  with policy_cmd_form show ?thesis by blast
qed

lemma exit_route_loop_form: "c \<in> set (exit_node_route_loop action filled xs) \<Longrightarrow> harmless c"
  by (induction action filled xs rule: exit_node_route_loop.induct)
    (auto simp: exit_node_routes_def harmless_def Let_def split: if_splits)

lemma gateway_route_form: "c \<in> set (gateway_route_commands cfg action) \<Longrightarrow> harmless c"
  by (auto simp: gateway_route_commands_def harmless_def Let_def split: if_splits)

text \<open>The family words of generated rules.\<close>

definition family :: "string \<Rightarrow> bool" where
  "family c \<longleftrightarrow> c = ''ip'' \<or> c = ''ip -6''"

lemma family_ip_cmd: "family (ip_cmd s)"
  by (simp add: family_def ip_cmd_def)

lemma family_rules:
  "(\<And>c sel act. (c, sel, act) \<in> set rs \<Longrightarrow> family c) \<Longrightarrow> r \<in> set (number_rules k rs) \<Longrightarrow> family (pr_cmd r)"
  "(\<And>c sel act. (c, sel, act) \<in> set rs \<Longrightarrow> family c) \<Longrightarrow> l \<in> set (number_lan_rules k rs) \<Longrightarrow> family (lr_cmd l)"
  by (induction k rs rule: number_rules.induct; force)+

lemma family_gateway_rules:
  "(\<And>c s t d. (c, s, t, d) \<in> set rs \<Longrightarrow> family c) \<Longrightarrow> r \<in> set (number_gateway_rules k rs) \<Longrightarrow> family (vr_cmd r)"
  by (induction k rs rule: number_gateway_rules.induct; force)

lemma family_peer: "r \<in> set (peer_rules cfg exits) \<Longrightarrow> family (pr_cmd r)"
  unfolding peer_rules_def
  by (rule family_rules(1), auto simp: peer_rule_specs_def family_ip_cmd dest!: source_rules_selector split: if_splits)

lemma family_lan: "r \<in> set (local_network_rules env cfg) \<Longrightarrow> family (lr_cmd r)"
  unfolding local_network_rules_def Let_def
  by (rule family_rules(2)) (auto simp: peer_lan_specs_def device_lan_specs_def family_def split: if_splits option.splits)

lemma family_vpn: "r \<in> set (vpn_gateway_rules cfg @ peer_device_gateway_rules cfg) \<Longrightarrow> family (vr_cmd r)"
proof -
  have "r \<in> set (vpn_gateway_rules cfg) \<Longrightarrow> ?thesis" unfolding vpn_gateway_rules_def
    by (rule family_gateway_rules) (auto simp: peer_gateway_specs_def family_ip_cmd split: if_splits option.splits)
  moreover have "r \<in> set (peer_device_gateway_rules cfg) \<Longrightarrow> ?thesis" unfolding peer_device_gateway_rules_def
    by (rule family_gateway_rules) (auto simp: device_specs_def family_def split: if_splits option.splits)
  ultimately show "r \<in> set (vpn_gateway_rules cfg @ peer_device_gateway_rules cfg) \<Longrightarrow> ?thesis" by auto
qed

lemma rule_cmds_form:
  "family (pr_cmd r) \<Longrightarrow> harmless (peer_rule_add r) \<and> harmless (peer_rule_del r)"
  "family (lr_cmd l) \<Longrightarrow> harmless (lan_rule_add l) \<and> harmless (lan_rule_del l)"
  "family (vr_cmd g) \<Longrightarrow> harmless (gateway_rule_add g) \<and> harmless (gateway_rule_del g)"
  by (auto simp: family_def harmless_def peer_rule_add_def peer_rule_del_def lan_rule_add_def lan_rule_del_def
      gateway_rule_add_def gateway_rule_del_def replace_rule_def)

lemma gateway_cmds_form: "c \<in> set (gateway_firewall_commands env cfg add) \<Longrightarrow> \<not> guard_form c"
proof -
  have "\<not> guard_form c" if "c \<in> set (gateway_firewall_commands env cfg False)"
    using that by (auto simp: gateway_firewall_commands_def guard_form_def cmd_defs)
  moreover have "\<not> guard_form c" if "c \<in> set (lan_accept lans p) \<or> c \<in> set (peer_accept cfg p) \<or> c \<in> set (device_accept cfg p)" for lans p
    using that by (auto simp: lan_accept_def peer_accept_def device_accept_def gateway_accept_v4_def gateway_accept_v6_def
        guard_form_def split: if_splits option.splits)
  then have "\<not> guard_form c" if "c \<in> set (gateway_firewall_commands env cfg True)"
    using that by (auto simp: gateway_firewall_commands_def guard_form_def cmd_defs)
  ultimately show "c \<in> set (gateway_firewall_commands env cfg add) \<Longrightarrow> ?thesis" by (cases add) auto
qed

lemma teardown_form: "c \<in> set (teardown_commands ord env cfg nets adv) \<Longrightarrow> \<not> guard_form c"
  unfolding teardown_commands_def set_append Un_iff set_map image_iff exit_node_route_cmds_def
  using masquerade_form policy_cmds_form exit_route_loop_form gateway_route_form gateway_cmds_form
    family_peer family_lan family_vpn rule_cmds_form harmless_form by (metis Un_iff set_append)

lemma setup_form: "c \<in> set (setup_commands ord env cfg nets adv) \<Longrightarrow> \<not> guard_form c"
  unfolding setup_commands_def set_append Un_iff set_map image_iff exit_node_route_cmds_def
  using masquerade_form policy_cmds_form exit_route_loop_form gateway_route_form gateway_cmds_form
    family_peer family_lan family_vpn rule_cmds_form harmless_form by (metis Un_iff set_append)

section \<open>Properties of Reconcile\<close>

definition affected_sources :: "routing_state \<Rightarrow> routing_state \<Rightarrow> string list" where
  "affected_sources prev nxt = union_sources (strict_peer_sources (rs_config prev)) (strict_peer_sources (rs_config nxt))"

text \<open>What runs between installing and removing the guards.\<close>

definition guarded_commands :: "(string list \<Rightarrow> string list) \<Rightarrow> string \<Rightarrow> routing_state \<Rightarrow> routing_state \<Rightarrow> string list" where
  "guarded_commands ord env prev nxt =
     teardown_commands ord env (rs_config prev) (rs_nets prev) (rs_advertised prev)
     @ strict_firewall_commands (rs_config nxt) (rs_nets nxt) True
     @ setup_commands ord env (rs_config nxt) (rs_nets nxt) (rs_advertised nxt)"

lemma reconcile_plan:
  "concat (map snd (reconcile_phases ord env prev nxt)) =
     temporary_reject_commands (affected_sources prev nxt) True @ guarded_commands ord env prev nxt
     @ temporary_reject_commands (affected_sources prev nxt) False"
  by (simp add: reconcile_phases_def guarded_commands_def affected_sources_def Let_def)

lemma guarded_form: "\<forall>c \<in> set (guarded_commands ord env prev nxt). \<not> guard_form c"
  unfolding guarded_commands_def using teardown_form setup_form strict_cmds_form by (metis Un_iff set_append)

lemma reconcile_executed:
  "reconcile sh ord env True log prev nxt = (log', r) \<Longrightarrow>
   executed sh log (temporary_reject_commands (affected_sources prev nxt) True @ guarded_commands ord env prev nxt
     @ temporary_reject_commands (affected_sources prev nxt) False) log' r"
  unfolding reconcile_plan [symmetric] by (rule apply_phases_executed) (simp add: reconcile_def)

lemma count_list_distinct: "distinct xs \<Longrightarrow> x \<in> set xs \<Longrightarrow> count_list xs x = 1"
  by (induction xs) (auto simp: count_list_0_iff)

lemma affected_count: "s \<in> set (affected_sources prev nxt) \<Longrightarrow> count_list (affected_sources prev nxt) s = 1"
  by (simp add: affected_sources_def union_sources_def count_list_distinct)

lemma executed_prefix: "executed sh log plan (log @ cs) r \<Longrightarrow> \<exists>rest. plan = cs @ rest"
  by (cases r) (auto simp: executed_def)

lemma guard_count_plan:
  "s \<in> set (affected_sources prev nxt) \<Longrightarrow>
   guard_count s (temporary_reject_commands (affected_sources prev nxt) True
     @ take k (guarded_commands ord env prev nxt)) = 1"
  unfolding guard_count_def temporary_reject_commands_def foldl_append
  by (subst guards_neutral) (use guarded_form [of ord env prev nxt] in \<open>auto simp: guards_all affected_count dest: in_set_takeD\<close>)


lemma apply_commands_ok: "apply_commands (\<lambda>_ _. None) log cmds = (log @ cmds, None)"
  by (induction cmds arbitrary: log) auto

lemma apply_phases_ok: "apply_phases (\<lambda>_ _. None) log ps = (log @ concat (map snd ps), None)"
  by (induction ps arbitrary: log) (auto simp: apply_commands_ok)

definition sample_state :: routing_state where
  "sample_state = \<lparr>rs_config = sample_config, rs_nets = [], rs_advertised = []\<rparr>"

lemma sample_affected: "affected_sources sample_state sample_state = [''10.0.0.2'']"
  by code_simp


text \<open>When a reconcile succeeds, the whole plan has run and no temporary reject rule of an
  affected source is left behind.\<close>

theorem reconcile_success_unblocks:
  assumes "reconcile sh ord env True log prev nxt = (log @ cs, None)" "s \<in> set (affected_sources prev nxt)"
  shows "guard_count s cs = 0 \<and> set (guarded_commands ord env prev nxt) \<subseteq> set cs"
proof -
  let ?G = "temporary_reject_commands (affected_sources prev nxt)"
  have cs: "cs = ?G True @ guarded_commands ord env prev nxt @ ?G False"
    using reconcile_executed [OF assms(1)] by (simp add: executed_def)
  have "guard_count s (?G True @ guarded_commands ord env prev nxt) = 1"
    using guard_count_plan [OF assms(2), of "length (guarded_commands ord env prev nxt)" ord env] by simp
  then have "guard_count s cs = 0"
    unfolding cs append_assoc [symmetric]
    by (simp add: guard_count_def temporary_reject_commands_def guards_all affected_count [OF assms(2)])
  with cs show ?thesis by auto
qed

theorem reconcile_success_unblocks_witness:
  "guard_count ''10.0.0.2'' (concat (map snd (reconcile_phases id [] sample_state sample_state))) = 0"
proof -
  have "reconcile (\<lambda>_ _. None) id [] True [] sample_state sample_state =
     ([] @ concat (map snd (reconcile_phases id [] sample_state sample_state)), None)"
    by (simp add: reconcile_def apply_phases_ok)
  from reconcile_success_unblocks [OF this, of "''10.0.0.2''"] show ?thesis by (simp add: sample_affected)
qed

text \<open>A reconcile runs its plan in order and stops at the first command that fails: guards,
  teardown of the previous state, strict chains, setup of the new state, guard removal.\<close>

theorem reconcile_stops_at_failure:
  assumes "reconcile sh ord env True log prev nxt = (log', Some e)"
  shows "\<exists>pre c rest. temporary_reject_commands (affected_sources prev nxt) True @ guarded_commands ord env prev nxt
      @ temporary_reject_commands (affected_sources prev nxt) False = pre @ c # rest
    \<and> log' = log @ pre @ [c] \<and> all_ok sh log pre \<and> sh (log @ pre) c \<noteq> None"
  using reconcile_executed [OF assms] by (simp add: executed_def)

theorem reconcile_stops_at_failure_witness:
  "\<exists>pre c rest. temporary_reject_commands (affected_sources sample_state sample_state) True
      @ guarded_commands id [] sample_state sample_state
      @ temporary_reject_commands (affected_sources sample_state sample_state) False = pre @ c # rest
    \<and> [guard_cmd True ''10.0.0.2''] = [] @ pre @ [c]"
proof -
  let ?sh = "\<lambda>log c. Some (''exit status 4'', []) :: (string \<times> string) option"
  have g: "temporary_reject_commands (affected_sources sample_state sample_state) True = [guard_cmd True ''10.0.0.2'']"
    by (simp add: sample_affected temporary_reject_commands_def)
  have "\<exists>e. reconcile ?sh id [] True [] sample_state sample_state = ([guard_cmd True ''10.0.0.2''], Some e)"
    unfolding reconcile_def reconcile_phases_def Let_def affected_sources_def [symmetric] g by simp
  then show ?thesis using reconcile_stops_at_failure by blast
qed

section \<open>Exit node routes\<close>

lemma enabled_exit_nodes_snoc:
  "enabled_exit_nodes (cfg\<lparr>cfg_peers := ps @ [p]\<rparr>) =
     (if p_is_exit p \<and> p_enabled p \<and> 0 < p_table p
      then (enabled_exit_nodes (cfg\<lparr>cfg_peers := ps\<rparr>))(p_id p \<mapsto> p) else enabled_exit_nodes (cfg\<lparr>cfg_peers := ps\<rparr>))"
  by (simp add: enabled_exit_nodes_def)

lemma enabled_exit_nodes_find:
  "distinct (map p_id ps) \<Longrightarrow> enabled_exit_nodes (cfg\<lparr>cfg_peers := ps\<rparr>) i =
     find (\<lambda>p. p_id p = i) (filter (\<lambda>p. p_is_exit p \<and> p_enabled p \<and> 0 < p_table p) ps)"
proof (induction ps rule: rev_induct)
  case Nil
  then show ?case by (simp add: enabled_exit_nodes_def)
next
  case (snoc p ps)
  have fa: "find P (xs @ [x]) = (case find P xs of None \<Rightarrow> if P x then Some x else None | Some y \<Rightarrow> Some y)"
    for P and xs :: "peer list" and x by (induction xs) auto
  have "find (\<lambda>q. p_id q = p_id p) (filter (\<lambda>p. p_is_exit p \<and> p_enabled p \<and> 0 < p_table p) ps) = None"
    using snoc.prems unfolding find_None_iff by (simp, metis imageI)
  with snoc show ?case by (auto simp: enabled_exit_nodes_snoc fa split: option.split)
qed

lemma peer_tables_inj:
  "distinct (peer_tables ps) \<Longrightarrow> p \<in> set ps \<Longrightarrow> q \<in> set ps \<Longrightarrow> p_table p = p_table q \<Longrightarrow> p_table p \<noteq> 0 \<Longrightarrow> p = q"
proof (induction ps)
  case (Cons x ps)
  have t: "r \<in> set ps \<Longrightarrow> p_table r \<noteq> 0 \<Longrightarrow> p_table r \<in> set (peer_tables ps)" for r
    by (force simp: peer_tables_def)
  have "p_table x \<noteq> 0 \<Longrightarrow> p_table x \<in> set (peer_tables [x])" by (simp add: peer_tables_def)
  with Cons.prems have "p = x \<longleftrightarrow> q = x" unfolding keys_Cons(1) [of x ps] using t [of p] t [of q] by auto
  with Cons show ?case unfolding keys_Cons(1) [of x ps] by auto
qed simp

lemma exit_node_loop_set:
  "(\<And>x y. x \<in> set xs \<Longrightarrow> y \<in> set xs \<Longrightarrow> p_table x = p_table y \<Longrightarrow> x = y) \<Longrightarrow>
   set (exit_node_route_loop action filled xs) = (\<Union>x \<in> {x \<in> set xs. p_table x \<notin> set filled}. set (exit_node_routes action x))"
proof (induction action filled xs rule: exit_node_route_loop.induct)
  case (2 action filled x xs)
  show ?case
  proof (cases "p_table x \<in> set filled")
    case True
    with 2 show ?thesis by auto
  next
    case False
    have "set (exit_node_route_loop action (p_table x # filled) xs)
        = (\<Union>y \<in> {y \<in> set xs. p_table y \<notin> set (p_table x # filled)}. set (exit_node_routes action y))"
      using 2 False by simp
    moreover have "y \<in> set xs \<Longrightarrow> p_table y = p_table x \<Longrightarrow> y = x" for y using "2.prems" [of y x] by simp
    ultimately show ?thesis using False by auto
  qed
qed simp

lemma exit_node_values_set:
  assumes "distinct (map p_id (cfg_peers cfg))" "set (ord (exit_node_ids cfg)) = set (exit_node_ids cfg)"
  shows "set (exit_node_values ord cfg) = {p \<in> set (cfg_peers cfg). p_is_exit p \<and> p_enabled p \<and> 0 < p_table p}"
proof -
  let ?E = "filter (\<lambda>p. p_is_exit p \<and> p_enabled p \<and> 0 < p_table p) (cfg_peers cfg)"
  have f: "enabled_exit_nodes cfg i = find (\<lambda>p. p_id p = i) ?E" for i
    using enabled_exit_nodes_find [OF assms(1), of cfg i] by simp
  have d: "distinct (map p_id ?E)" using assms(1) by (rule distinct_map_filter)
  have "enabled_exit_nodes cfg (p_id p) = Some p" if "p \<in> set ?E" for p
    using peers.lookup_distinct [OF d that, of "p_id p"] by (simp add: f find_peer_by_id_def)
  moreover have "p \<in> set ?E" if "enabled_exit_nodes cfg i = Some p" for i p
    using that peers.lookup_SomeD [of ?E i p] by (simp add: f find_peer_by_id_def)
  moreover have "set (exit_node_values ord cfg) = {p. \<exists>i \<in> set (exit_node_ids cfg). enabled_exit_nodes cfg i = Some p}"
    unfolding exit_node_values_def set_concat set_map assms(2) by (auto split: option.splits dest: sym)
  then have "set (exit_node_values ord cfg) = {p. \<exists>i \<in> p_id ` set ?E. enabled_exit_nodes cfg i = Some p}"
    by (simp add: exit_node_ids_def)
  ultimately have "set (exit_node_values ord cfg) = set ?E" by blast
  then show ?thesis by auto
qed

text \<open>In an accepted configuration the order in which the exit node map is iterated does not
  matter: every enabled exit node gets exactly its routes, and no table is skipped as a
  duplicate.\<close>

theorem exit_node_routes_any_order:
  assumes "validate_config cfg = []" "set (ord (exit_node_ids cfg)) = set (exit_node_ids cfg)"
  shows "set (exit_node_route_cmds ord action cfg) =
    (\<Union>x \<in> {p \<in> set (cfg_peers cfg). p_is_exit p \<and> p_enabled p}. set (exit_node_routes action x))"
proof -
  from assms(1) have ok: "distinct (map p_id (cfg_peers cfg))" "distinct (peer_tables (cfg_peers cfg))"
    "\<forall>p \<in> set (cfg_peers cfg). p_is_exit p \<longrightarrow> p_table p \<noteq> 0"
    by (auto simp: config_nil_ok config_ok_def Let_def)
  note v = exit_node_values_set [where ord = ord, OF ok(1) assms(2)]
  have "set (exit_node_route_cmds ord action cfg) = (\<Union>x \<in> set (exit_node_values ord cfg). set (exit_node_routes action x))"
    unfolding exit_node_route_cmds_def
    by (subst exit_node_loop_set) (use v peer_tables_inj [OF ok(2)] in auto)
  also have "set (exit_node_values ord cfg) = {p \<in> set (cfg_peers cfg). p_is_exit p \<and> p_enabled p}"
    using v ok(3) by auto
  finally show ?thesis .
qed

definition sample_exit :: peer where
  "sample_exit = zero_peer\<lparr>p_id := ''x'', p_name := ''exit'', p_private_key := sample_key, p_public_key := sample_key,
     p_allowed_ips := ''10.0.0.9/32'', p_enabled := True, p_is_exit := True, p_exit_all := True, p_table := 100\<rparr>"

definition sample_exit_config :: app_config where
  "sample_exit_config = zero_config\<lparr>cfg_server := sample_server, cfg_peers := [sample_exit]\<rparr>"

theorem exit_node_routes_any_order_witness:
  "set (exit_node_route_cmds rev ''replace'' sample_exit_config) =
     {''ip -4 route replace default dev wg0 table 100'', ''ip -6 route replace default dev wg0 table 100''}"
proof -
  have "validate_config sample_exit_config = []" by code_simp
  moreover have "set (rev (exit_node_ids sample_exit_config)) = set (exit_node_ids sample_exit_config)" by simp
  ultimately have "set (exit_node_route_cmds rev ''replace'' sample_exit_config) =
    (\<Union>x \<in> {p \<in> set (cfg_peers sample_exit_config). p_is_exit p \<and> p_enabled p}. set (exit_node_routes ''replace'' x))"
    by (rule exit_node_routes_any_order)
  also have "{p \<in> set (cfg_peers sample_exit_config). p_is_exit p \<and> p_enabled p} = {sample_exit}"
    by (auto simp: sample_exit_config_def sample_exit_def)
  also have "(\<Union>x \<in> {sample_exit}. set (exit_node_routes ''replace'' x)) = set (exit_node_routes ''replace'' sample_exit)" by simp
  also have "exit_node_routes ''replace'' sample_exit =
    [''ip -4 route replace default dev wg0 table 100'', ''ip -6 route replace default dev wg0 table 100'']" by code_simp
  finally show ?thesis by simp
qed

section \<open>What the down hook leaves\<close>

text \<open>The down hook never removes the gateway forwarding chain that the up hook installs: the
  jump from \<^verbatim>\<open>FORWARD\<close> into \<^verbatim>\<open>WG_BUSY_GW_FWD4\<close> and the chain stay behind.\<close>

theorem post_down_keeps_gateway_chain:
  "set (gateway_chain_setup ''iptables'' gateway_chain_v4) \<subseteq> set (generate_post_up ord env cfg nets adv)
   \<and> set (take 3 (gateway_firewall_commands env cfg False)) \<inter> set (generate_post_down ord env cfg nets adv) = {}"
proof -
  have down: "harmless c \<or> c \<in> set (strict_firewall_commands cfg nets False)"
    if "c \<in> set (generate_post_down ord env cfg nets adv)" for c
    using that unfolding generate_post_down_def set_append Un_iff set_map image_iff exit_node_route_cmds_def
    using masquerade_form policy_cmds_form exit_route_loop_form gateway_route_form
      family_peer family_lan family_vpn rule_cmds_form by (metis Un_iff set_append)
  have "\<forall>c \<in> set (take 3 (gateway_firewall_commands env cfg False)).
      \<not> harmless c \<and> c \<notin> set (strict_firewall_commands cfg nets False)"
    by (simp add: gateway_firewall_commands_def strict_firewall_commands_def cmd_defs harmless_def numeral_3_eq_3)
  with down show ?thesis
    by (auto simp: generate_post_up_def gateway_firewall_commands_def)
qed

end
