(* ===== verification/Store.thy ===== *)
theory Store
  imports Wireguard Routing_Recon
begin

text \<open>
  \<^verbatim>\<open>internal/config/config.go\<close>: the configuration store.  The outside world is explicit: \<open>world\<close>
  holds the files and the history of every kind of external action, and \<open>env\<close> the oracles that
  decide how each action ends, given its history (the file system, wg-quick, the shell, the
  BGP engine) together with the third-party YAML codec.  \<^verbatim>\<open>Clone\<close> copies a value, which a
  functional model does anyway; the mutex makes each operation one step.
\<close>

section \<open>World\<close>

datatype fs_op = MkdirAll string | Write_File string string | Rename string string

record world =
  w_disk :: "string \<Rightarrow> string option"
  w_fs :: "fs_op list"
  w_wg :: "invocation list"
  w_sh :: "string list"
  w_bgp :: "app_config list"
  w_notified :: "(nat \<times> app_config) list"

record env =
  e_fs :: "fs_op list \<Rightarrow> fs_op \<Rightarrow> string option"
  e_partial :: "fs_op list \<Rightarrow> string"
  e_run :: runner
  e_sh :: shell
  e_up :: "string list \<Rightarrow> bool"
  e_bgp :: "app_config list \<Rightarrow> app_config \<Rightarrow> string option"
  e_marshal :: "app_config \<Rightarrow> string + string"
  e_unmarshal :: "string \<Rightarrow> string + app_config"
  e_ord :: "string list \<Rightarrow> string list"
  e_lan :: string

text \<open>A file operation that fails leaves the destination of a write with arbitrary content.\<close>

definition fs_do :: "env \<Rightarrow> world \<Rightarrow> fs_op \<Rightarrow> world \<times> string option" where
  "fs_do env w op =
     (let r = e_fs env (w_fs w) op; log = w_fs w @ [op]; d = w_disk w in
      case op of
        MkdirAll p \<Rightarrow> (w\<lparr>w_fs := log\<rparr>, r)
      | Write_File p c \<Rightarrow>
          (w\<lparr>w_fs := log, w_disk := d(p \<mapsto> (if r = None then c else e_partial env (w_fs w)))\<rparr>, r)
      | Rename p q \<Rightarrow>
          (w\<lparr>w_fs := log, w_disk := (if r = None then d(q := d p, p := None) else d)\<rparr>, r))"

text \<open>\<^verbatim>\<open>filepath.Dir\<close>: everything before the last slash, cleaned.\<close>

fun clean_parts :: "bool \<Rightarrow> string list \<Rightarrow> string list \<Rightarrow> string list" where
  "clean_parts rooted out [] = rev out"
| "clean_parts rooted out (p # ps) =
     (if p = [] \<or> p = ''.'' then clean_parts rooted out ps
      else if p = ''..'' then
        (case out of
           [] \<Rightarrow> clean_parts rooted (if rooted then [] else [''..'']) ps
         | q # out' \<Rightarrow> if q = ''..'' then clean_parts rooted (''..'' # out) ps else clean_parts rooted out' ps)
      else clean_parts rooted (p # out) ps)"

definition go_dir :: "string \<Rightarrow> string" where
  "go_dir path =
     (let d = (case last_index_byte path CHR ''/'' of None \<Rightarrow> [] | Some i \<Rightarrow> take (i + 1) path);
          rooted = (d \<noteq> [] \<and> hd d = CHR ''/'');
          body = join ''/'' (clean_parts rooted [] (split_char CHR ''/'' d)) in
      if rooted then ''/'' @ body else if body = [] then ''.'' else body)"

definition tmp_of :: "string \<Rightarrow> string" where
  "tmp_of path = path @ ''.tmp''"

text \<open>Directory, temporary file, rename: the common shape of \<^verbatim>\<open>saveYAML\<close> and \<^verbatim>\<open>renderWGConfig\<close>.\<close>

definition write_file_atomic :: "env \<Rightarrow> world \<Rightarrow> string \<Rightarrow> string \<Rightarrow> string \<Rightarrow> world \<times> string option" where
  "write_file_atomic env w what path content =
     (case fs_do env w (MkdirAll (go_dir path)) of
        (w1, Some e) \<Rightarrow> (w1, Some (''creating '' @ what @ '' dir: '' @ e))
      | (w1, None) \<Rightarrow>
          (case fs_do env w1 (Write_File (tmp_of path) content) of
             (w2, Some e) \<Rightarrow> (w2, Some (''writing temp '' @ what @ '': '' @ e))
           | (w2, None) \<Rightarrow>
               (case fs_do env w2 (Rename (tmp_of path) path) of
                  (w3, Some e) \<Rightarrow> (w3, Some (''renaming '' @ what @ '': '' @ e))
                | (w3, None) \<Rightarrow> (w3, None))))"

section \<open>State\<close>

record peer_stats =
  ps_last_seen :: gotime
  ps_rx :: int
  ps_tx :: int

record store =
  st_config_path :: string
  st_wg_path :: string
  st_config :: app_config
  st_routing :: routing_state
  st_dirty :: bool
  st_pending :: bool
  st_applied :: server_config
  st_has_applied :: bool
  st_on_change :: "nat list"
  st_zt :: "(world \<Rightarrow> gateway_net list) option"
  st_bgp :: "(world \<Rightarrow> (string \<times> string list) list) option"

definition set_zerotier_gateways :: "(world \<Rightarrow> gateway_net list) option \<Rightarrow> store \<Rightarrow> store" where
  "set_zerotier_gateways f s = s\<lparr>st_zt := f\<rparr>"

definition set_bgp_advertised_routes :: "(world \<Rightarrow> (string \<times> string list) list) option \<Rightarrow> store \<Rightarrow> store" where
  "set_bgp_advertised_routes f s = s\<lparr>st_bgp := f\<rparr>"

definition on_change :: "nat option \<Rightarrow> store \<Rightarrow> store" where
  "on_change f s = (case f of None \<Rightarrow> s | Some i \<Rightarrow> s\<lparr>st_on_change := st_on_change s @ [i]\<rparr>)"

definition store_nets :: "store \<Rightarrow> world \<Rightarrow> gateway_net list" where
  "store_nets s w =
     gateway_nets (s_address (cfg_server (st_config s))) (case st_zt s of None \<Rightarrow> [] | Some f \<Rightarrow> f w)"

definition store_advertised :: "store \<Rightarrow> world \<Rightarrow> (string \<times> string list) list" where
  "store_advertised s w = (case st_bgp s of None \<Rightarrow> [] | Some f \<Rightarrow> f w)"

definition current_routing :: "store \<Rightarrow> world \<Rightarrow> routing_state" where
  "current_routing s w =
     \<lparr>rs_config = st_config s, rs_nets = store_nets s w, rs_advertised = store_advertised s w\<rparr>"

section \<open>Tables of VPN gateways\<close>

definition vpn_gateway_table_base :: nat where
  "vpn_gateway_table_base = 20000"

fun assign_tables :: "nat list \<Rightarrow> nat \<Rightarrow> vpn_gateway list \<Rightarrow> vpn_gateway list \<times> bool" where
  "assign_tables used nxt [] = ([], False)"
| "assign_tables used nxt (g # gs) =
     (if g_table g \<noteq> 0 then (case assign_tables used nxt gs of (gs', c) \<Rightarrow> (g # gs', c))
      else let t = next_free used nxt in
        (case assign_tables (t # used) (t + 1) gs of (gs', c) \<Rightarrow> (g\<lparr>g_table := t\<rparr> # gs', True)))"

definition config_tables :: "app_config \<Rightarrow> nat list" where
  "config_tables cfg = used_tables (cfg_peers cfg) @ filter (\<lambda>t. 0 < t) (map g_table (cfg_gateways cfg))"

definition ensure_gateway_tables :: "app_config \<Rightarrow> app_config \<times> bool" where
  "ensure_gateway_tables cfg =
     (case assign_tables (config_tables cfg) vpn_gateway_table_base (cfg_gateways cfg) of
        (gs, changed) \<Rightarrow> (cfg\<lparr>cfg_gateways := gs\<rparr>, changed))"

section \<open>Persistence\<close>

definition save_yaml :: "env \<Rightarrow> store \<Rightarrow> world \<Rightarrow> world \<times> string option" where
  "save_yaml env s w =
     (case e_marshal env (st_config s) of
        Inl e \<Rightarrow> (w, Some (''marshaling config: '' @ e))
      | Inr data \<Rightarrow> write_file_atomic env w ''config'' (st_config_path s) data)"

definition render_wg_config :: "env \<Rightarrow> store \<Rightarrow> world \<Rightarrow> world \<times> string option" where
  "render_wg_config env s w =
     (let nets = store_nets s w; adv = store_advertised s w;
          ups = generate_post_up (e_ord env) (e_lan env) (st_config s) nets adv;
          downs = generate_post_down (e_ord env) (e_lan env) (st_config s) nets adv in
      write_file_atomic env w ''wg config'' (st_wg_path s) (render_server_config (st_config s) ups downs))"

text \<open>The defaults of a first start, and \<^verbatim>\<open>Load\<close>; a missing file is \<open>None\<close>, \<open>read_err\<close> any other read error.\<close>

definition default_config :: app_config where
  "default_config = zero_config\<lparr>cfg_server := zero_server\<lparr>s_listen_port := 51820, s_address := ''10.0.0.1/24'',
     s_dns := ''1.1.1.1,8.8.8.8'', s_table := ''off'',
     s_post_up := ''iptables -A POSTROUTING -t nat -o eth0 -j MASQUERADE'',
     s_post_down := ''iptables -D POSTROUTING -t nat -o eth0 -j MASQUERADE''\<rparr>\<rparr>"

definition new_store :: "string \<Rightarrow> string \<Rightarrow> app_config \<Rightarrow> store" where
  "new_store config_path wg_path cfg =
     \<lparr>st_config_path = config_path, st_wg_path = wg_path, st_config = cfg,
      st_routing = \<lparr>rs_config = cfg, rs_nets = [], rs_advertised = []\<rparr>,
      st_dirty = False, st_pending = True, st_applied = zero_server, st_has_applied = False,
      st_on_change = [], st_zt = None, st_bgp = None\<rparr>"

definition load_store :: "env \<Rightarrow> string option \<Rightarrow> world \<Rightarrow> string \<Rightarrow> string \<Rightarrow> world \<times> (string + store)" where
  "load_store env read_err w config_path wg_path =
     (case w_disk w config_path of
        None \<Rightarrow> (w, Inr (new_store config_path wg_path default_config))
      | Some data \<Rightarrow>
          (case read_err of
             Some e \<Rightarrow> (w, Inl (''reading config: '' @ e))
           | None \<Rightarrow>
               (case e_unmarshal env data of
                  Inl e \<Rightarrow> (w, Inl (''parsing config: '' @ e))
                | Inr cfg \<Rightarrow>
                    (case ensure_gateway_tables cfg of
                       (cfg', changed) \<Rightarrow>
                         let s = new_store config_path wg_path cfg' in
                         if \<not> changed then (w, Inr s)
                         else (case save_yaml env s w of
                                 (w', Some e) \<Rightarrow> (w', Inl (''persisting VPN gateway routing tables: '' @ e))
                               | (w', None) \<Rightarrow> (w', Inr s))))))"

section \<open>Queries\<close>

definition same_routing :: "peer \<Rightarrow> peer \<Rightarrow> bool" where
  "same_routing d a \<longleftrightarrow>
     p_enabled d = p_enabled a \<and> p_strict d = p_strict a \<and> p_exit_id d = p_exit_id a
     \<and> p_table d = p_table a \<and> p_policy_table d = p_policy_table a \<and> p_gateway_id d = p_gateway_id a
     \<and> p_policy_routes d = p_policy_routes a \<and> p_exit_routes d = p_exit_routes a
     \<and> p_allowed_ips d = p_allowed_ips a"

definition is_peer_routing_applied :: "store \<Rightarrow> string \<Rightarrow> bool" where
  "is_peer_routing_applied s i =
     (if st_pending s then False else
      case find_peer_by_id (cfg_peers (st_config s)) i of
        None \<Rightarrow> False
      | Some d \<Rightarrow> (case find_peer_by_id (cfg_peers (rs_config (st_routing s))) i of
                    None \<Rightarrow> False | Some a \<Rightarrow> same_routing d a))"

definition peer_routing_applied_map :: "store \<Rightarrow> string \<Rightarrow> bool option" where
  "peer_routing_applied_map s =
     foldl (\<lambda>m d. m(p_id d \<mapsto>
         (if st_pending s then False
          else case find_peer_by_id (cfg_peers (rs_config (st_routing s))) (p_id d) of
                 None \<Rightarrow> False | Some a \<Rightarrow> same_routing d a)))
       (\<lambda>_. None) (cfg_peers (st_config s))"

section \<open>Statistics\<close>

definition record_stat :: "(string \<Rightarrow> peer_stats option) \<Rightarrow> peer \<Rightarrow> peer \<times> bool" where
  "record_stat stats p =
     (case stats (p_public_key p) of
        None \<Rightarrow> (p, False)
      | Some st \<Rightarrow>
          let seen = (ps_last_seen st \<noteq> 0 \<and> p_last_seen p < ps_last_seen st);
              moved = (ps_rx st \<noteq> p_rx p \<or> ps_tx st \<noteq> p_tx p);
              p1 = (if seen then p\<lparr>p_last_seen := ps_last_seen st\<rparr> else p);
              p2 = (if moved then p1\<lparr>p_rx := ps_rx st, p_tx := ps_tx st\<rparr> else p1) in
          (p2, seen \<or> moved))"

definition record_peer_stats :: "(string \<Rightarrow> peer_stats option) \<Rightarrow> store \<Rightarrow> store" where
  "record_peer_stats stats s =
     (let rs = map (record_stat stats) (cfg_peers (st_config s)) in
      s\<lparr>st_config := (st_config s)\<lparr>cfg_peers := map fst rs\<rparr>, st_dirty := st_dirty s \<or> list_ex snd rs\<rparr>)"

definition save_stats :: "env \<Rightarrow> store \<Rightarrow> world \<Rightarrow> store \<times> world \<times> string option" where
  "save_stats env s w =
     (if \<not> st_dirty s then (s, w, None)
      else case save_yaml env s w of
             (w', Some e) \<Rightarrow> (s, w', Some e)
           | (w', None) \<Rightarrow> (s\<lparr>st_dirty := False\<rparr>, w', None))"

definition record_peer_last_seen :: "env \<Rightarrow> (string \<times> gotime) list \<Rightarrow> store \<Rightarrow> world \<Rightarrow> store \<times> world \<times> string option" where
  "record_peer_last_seen env seen s w =
     (if seen = [] then (s, w, None)
      else save_stats env (record_peer_stats
        (\<lambda>k. map_option (\<lambda>t. \<lparr>ps_last_seen = t, ps_rx = 0, ps_tx = 0\<rparr>) (map_of seen k)) s) w)"

section \<open>Write\<close>

datatype write_error =
    Fn_Error string
  | Invalid "validation_error list"
  | Save_Error string
  | Render_Error string
  | Render_Rollback_Error string string
  | Apply_Error "string list"

definition restart_pending_after :: "store \<Rightarrow> app_config \<Rightarrow> bool \<times> string option" where
  "restart_pending_after s cfg =
     (let r = server_restart_reason (if st_has_applied s then st_applied s else cfg_server (st_config s)) (cfg_server cfg) in
      (if st_has_applied s then r \<noteq> None else r \<noteq> None \<or> st_pending s, r))"

text \<open>Applying a persisted configuration: reload, then reconcile unless a restart is pending.\<close>

definition apply_live :: "env \<Rightarrow> store \<Rightarrow> world \<Rightarrow> string option \<Rightarrow> store \<times> world \<times> bool \<times> string list" where
  "apply_live env s w restart_err =
     (let cur = current_routing s w in
      case reload_wg_config (e_run env) (w_wg w) (st_wg_path s) of
        (wg, running, Some e) \<Rightarrow> (s, w\<lparr>w_wg := wg\<rparr>, False, [e])
      | (wg, running, None) \<Rightarrow>
          let w1 = w\<lparr>w_wg := wg\<rparr> in
          if \<not> running then (s, w1, False, [''WireGuard interface wg0 is not running''])
          else if st_pending s then
            (s, w1, False, [case restart_err of Some e \<Rightarrow> e | None \<Rightarrow> restart_needed_text])
          else (case reconcile (e_sh env) (e_ord env) (e_lan env) (e_up env (w_sh w1)) (w_sh w1) (st_routing s) cur of
                  (sh, Some e) \<Rightarrow> (s, w1\<lparr>w_sh := sh\<rparr>, True, [e])
                | (sh, None) \<Rightarrow> (s\<lparr>st_routing := cur\<rparr>, w1\<lparr>w_sh := sh\<rparr>, True, [])))"

definition configure_bgp :: "env \<Rightarrow> app_config \<Rightarrow> world \<Rightarrow> world \<times> string option" where
  "configure_bgp env cfg w = (w\<lparr>w_bgp := w_bgp w @ [cfg]\<rparr>, e_bgp env (w_bgp w) cfg)"

definition write_apply :: "env \<Rightarrow> store \<Rightarrow> world \<Rightarrow> string option \<Rightarrow> store \<times> world \<times> write_error option" where
  "write_apply env s w restart_err =
     (case apply_live env s w restart_err of
        (s1, w1, live, errs) \<Rightarrow>
          (case (if \<not> s_bgp_enabled (cfg_server (st_config s1)) \<or> live
                 then configure_bgp env (st_config s1) w1 else (w1, None)) of
             (w2, bgp_err) \<Rightarrow>
               let errs' = errs @ (case bgp_err of None \<Rightarrow> [] | Some e \<Rightarrow> [''configuring BGP: '' @ e]);
                   w3 = w2\<lparr>w_notified := w_notified w2 @ map (\<lambda>i. (i, st_config s1)) (st_on_change s1)\<rparr> in
               (s1, w3, if errs' = [] then None else Some (Apply_Error errs'))))"

definition write_store :: "env \<Rightarrow> (app_config \<Rightarrow> app_config \<times> string option) \<Rightarrow> store \<Rightarrow> world
    \<Rightarrow> store \<times> world \<times> write_error option" where
  "write_store env fn s w =
     (case fn (st_config s) of
        (_, Some e) \<Rightarrow> (s, w, Some (Fn_Error e))
      | (cfg0, None) \<Rightarrow>
          let cfg = fst (ensure_gateway_tables cfg0);
              (pending, restart_err) = restart_pending_after s cfg in
          if validate_config cfg \<noteq> [] then (s, w, Some (Invalid (validate_config cfg)))
          else
            let s1 = s\<lparr>st_config := cfg, st_pending := pending\<rparr> in
            (case save_yaml env s1 w of
               (w1, Some e) \<Rightarrow> (s, w1, Some (Save_Error e))
             | (w1, None) \<Rightarrow>
                 (case render_wg_config env s1 w1 of
                    (w2, Some e) \<Rightarrow>
                      let s2 = s\<lparr>st_dirty := False\<rparr> in
                      (case save_yaml env s2 w2 of
                         (w3, Some e') \<Rightarrow> (s2, w3, Some (Render_Rollback_Error e e'))
                       | (w3, None) \<Rightarrow> (s2, w3, Some (Render_Error e)))
                  | (w2, None) \<Rightarrow> write_apply env (s1\<lparr>st_dirty := False\<rparr>) w2 restart_err)))"

section \<open>The other operations\<close>

definition reapply_bgp :: "env \<Rightarrow> store \<Rightarrow> world \<Rightarrow> world \<times> string option" where
  "reapply_bgp env s w =
     (if st_pending s \<and> s_bgp_enabled (cfg_server (st_config s)) then (w, Some restart_needed_text)
      else configure_bgp env (st_config s) w)"

definition reapply_routing :: "env \<Rightarrow> store \<Rightarrow> world \<Rightarrow> store \<times> world \<times> string option" where
  "reapply_routing env s w =
     (if st_pending s then (s, w, Some restart_needed_text)
      else case render_wg_config env s w of
             (w1, Some e) \<Rightarrow> (s, w1, Some e)
           | (w1, None) \<Rightarrow>
               let cur = current_routing s w1 in
               (case reconcile (e_sh env) (e_ord env) (e_lan env) (e_up env (w_sh w1)) (w_sh w1) (st_routing s) cur of
                  (sh, Some e) \<Rightarrow> (s, w1\<lparr>w_sh := sh\<rparr>, Some e)
                | (sh, None) \<Rightarrow> (s\<lparr>st_routing := cur\<rparr>, w1\<lparr>w_sh := sh\<rparr>, None)))"

definition render_wg :: "env \<Rightarrow> store \<Rightarrow> world \<Rightarrow> world \<times> write_error option" where
  "render_wg env s w =
     (if validate_config (st_config s) \<noteq> [] then (w, Some (Invalid (validate_config (st_config s))))
      else case render_wg_config env s w of
             (w', None) \<Rightarrow> (w', None) | (w', Some e) \<Rightarrow> (w', Some (Render_Error e)))"

definition mark_wireguard_restarted :: "store \<Rightarrow> world \<Rightarrow> store" where
  "mark_wireguard_restarted s w =
     s\<lparr>st_pending := False, st_applied := cfg_server (st_config s), st_has_applied := True,
       st_routing := current_routing s w\<rparr>"

end
