(* ===== verification/Gateway.thy ===== *)
theory Gateway
  imports Store
begin

text \<open>
  \<^verbatim>\<open>internal/gateway/manager.go\<close>: imported VPN gateways.  The parser of uploaded configurations,
  the renderer, and the manager that starts and stops the tunnels.  External effects are one log
  of commands and file operations, answered by an oracle that sees the log so far; the clock is
  an argument.  \<^verbatim>\<open>Reconcile\<close> receives a copy of the configuration whose slice it edits, so the
  edited gateways are part of its result.
\<close>

section \<open>Names and paths\<close>

definition interface_prefix :: string where
  "interface_prefix = ''wgout''"

definition safe_interface_name :: "string \<Rightarrow> string" where
  "safe_interface_name i =
     (let s = to_lower (trim_space i); name = interface_prefix @ (if 8 < length s then take 8 s else s) in
      if 15 < length name then take 15 name else name)"

definition config_path :: "string \<Rightarrow> string \<Rightarrow> string" where
  "config_path dir iface = rev (dropWhile (\<lambda>c. c = CHR ''/'') (rev dir)) @ ''/'' @ iface @ ''.conf''"

section \<open>Parsing an uploaded configuration\<close>

datatype parse_error =
    Unsupported_Section string | Many_Peers | Invalid_Line string | No_Section
  | Bad_MTU num_error | Bad_Interface_Option string | Bad_Keepalive num_error | Bad_Peer_Option string
  | Missing_Peer | Missing_Fields | Invalid_Key | Invalid_Preshared | Invalid_Addresses | Invalid_Endpoint

record scan_state =
  sc_gateway :: vpn_gateway
  sc_section :: string
  sc_peers :: nat

definition trim_line :: "string \<Rightarrow> string" where
  "trim_line s = trim_space (if s \<noteq> [] \<and> ccode (last s) = 13 then butlast s else s)"

definition ignored_options :: "string list" where
  "ignored_options = [''listenport'', ''table'', ''fwmark'', ''preup'', ''postup'', ''predown'', ''postdown'']"

definition interface_option :: "string \<Rightarrow> string \<Rightarrow> vpn_gateway \<Rightarrow> parse_error + vpn_gateway" where
  "interface_option key v g =
     (if key = ''privatekey'' then Inr (g\<lparr>g_private_key := v\<rparr>)
      else if key = ''address'' then Inr (g\<lparr>g_address := v\<rparr>)
      else if key = ''mtu'' then
        (case parse_uint 10 16 v of
           (_, Some e) \<Rightarrow> Inl (Bad_MTU e) | (n, None) \<Rightarrow> Inr (g\<lparr>g_mtu := of_nat n\<rparr>))
      else if key = ''dns'' then Inr (g\<lparr>g_dns := v\<rparr>)
      else if key \<in> set ignored_options then Inr g
      else Inl (Bad_Interface_Option key))"

definition peer_option :: "string \<Rightarrow> string \<Rightarrow> vpn_gateway \<Rightarrow> parse_error + vpn_gateway" where
  "peer_option key v g =
     (if key = ''publickey'' then Inr (g\<lparr>g_public_key := v\<rparr>)
      else if key = ''presharedkey'' then Inr (g\<lparr>g_preshared_key := v\<rparr>)
      else if key = ''allowedips'' then Inr (g\<lparr>g_allowed_ips := v\<rparr>)
      else if key = ''endpoint'' then Inr (g\<lparr>g_endpoint := v\<rparr>)
      else if key = ''persistentkeepalive'' then
        (case parse_uint 10 16 v of
           (_, Some e) \<Rightarrow> Inl (Bad_Keepalive e) | (n, None) \<Rightarrow> Inr (g\<lparr>g_keepalive := of_nat n\<rparr>))
      else if key = ''replaceallowedips'' then Inr g
      else Inl (Bad_Peer_Option key))"

definition section_line :: "string \<Rightarrow> scan_state \<Rightarrow> parse_error + scan_state" where
  "section_line s st =
     (let name = to_lower (trim_space (butlast (tl s))) in
      if name \<noteq> ''interface'' \<and> name \<noteq> ''peer'' then Inl (Unsupported_Section name)
      else if name = ''peer'' then
        (if 1 < sc_peers st + 1 then Inl Many_Peers
         else Inr (st\<lparr>sc_section := name, sc_peers := sc_peers st + 1\<rparr>))
      else Inr (st\<lparr>sc_section := name\<rparr>))"

definition option_line :: "string \<Rightarrow> scan_state \<Rightarrow> parse_error + scan_state" where
  "option_line s st =
     (case index_byte s CHR ''='' of
        None \<Rightarrow> Inl (Invalid_Line s)
      | Some idx \<Rightarrow>
          if idx < 1 then Inl (Invalid_Line s)
          else let key = to_lower (trim_space (take idx s)); v = trim_space (drop (idx + 1) s) in
            if sc_section st = [] then Inl No_Section
            else (case (if sc_section st = ''interface'' then interface_option key v (sc_gateway st)
                        else peer_option key v (sc_gateway st)) of
                    Inl e \<Rightarrow> Inl e
                  | Inr g \<Rightarrow> Inr (st\<lparr>sc_gateway := g\<rparr>)))"

definition scan_line :: "string \<Rightarrow> scan_state \<Rightarrow> parse_error + scan_state" where
  "scan_line line st =
     (let s = trim_line line in
      if s = [] \<or> has_prefix s ''#'' \<or> has_prefix s '';'' then Inr st
      else if has_prefix s ''['' \<and> has_suffix s '']'' then section_line s st
      else option_line s st)"

fun scan_lines :: "string list \<Rightarrow> scan_state \<Rightarrow> parse_error + scan_state" where
  "scan_lines [] st = Inr st"
| "scan_lines (l # ls) st = (case scan_line l st of Inl e \<Rightarrow> Inl e | Inr st' \<Rightarrow> scan_lines ls st')"

definition valid_key :: "string \<Rightarrow> bool" where
  "valid_key s = (let t = trim_space s in length t = 44 \<and> b64_decode b64_std t \<noteq> None)"

definition valid_cidrs :: "string \<Rightarrow> bool" where
  "valid_cidrs s = list_all (\<lambda>p. trim_space p \<noteq> [] \<and> is_cidr (trim_space p)) (split_char CHR '','' s)"

definition valid_endpoint :: "string \<Rightarrow> bool" where
  "valid_endpoint s =
     (case split_host_port (trim_space s) of
        None \<Rightarrow> False
      | Some (host, port) \<Rightarrow>
          host \<noteq> [] \<and> snd (parse_int port) = None \<and> 0 < fst (parse_int port) \<and> fst (parse_int port) \<le> 65535)"

definition accept_gateway :: "vpn_gateway \<Rightarrow> parse_error + vpn_gateway" where
  "accept_gateway g =
     (if g_private_key g = [] \<or> g_address g = [] \<or> g_public_key g = [] \<or> g_allowed_ips g = [] \<or> g_endpoint g = []
      then Inl Missing_Fields
      else if \<not> valid_key (g_private_key g) \<or> \<not> valid_key (g_public_key g) then Inl Invalid_Key
      else if g_preshared_key g \<noteq> [] \<and> \<not> valid_key (g_preshared_key g) then Inl Invalid_Preshared
      else if \<not> valid_cidrs (g_address g) \<or> \<not> valid_cidrs (g_allowed_ips g) then Inl Invalid_Addresses
      else if \<not> valid_endpoint (g_endpoint g) then Inl Invalid_Endpoint
      else Inr g)"

definition parse_config :: "string \<Rightarrow> parse_error + vpn_gateway" where
  "parse_config raw =
     (case scan_lines (split_char (char_of (10 :: nat)) raw)
             \<lparr>sc_gateway = zero_gateway, sc_section = [], sc_peers = 0\<rparr> of
        Inl e \<Rightarrow> Inl e
      | Inr st \<Rightarrow> if sc_section st \<noteq> ''peer'' then Inl Missing_Peer else accept_gateway (sc_gateway st))"

section \<open>Rendering\<close>

definition put_line :: "string \<Rightarrow> string \<Rightarrow> string" where
  "put_line name v = name @ '' = '' @ v @ nl"

definition render_gateway :: "vpn_gateway \<Rightarrow> string + string" where
  "render_gateway g0 =
     (let g = (if g_interface g0 = [] then g0\<lparr>g_interface := safe_interface_name (g_id g0)\<rparr> else g0) in
      case validate_vpn_gateway g of
        Some e \<Rightarrow> Inl e
      | None \<Rightarrow> Inr (''[Interface]'' @ nl
          @ put_line ''PrivateKey'' (g_private_key g)
          @ put_line ''Address'' (g_address g)
          @ (if g_mtu g \<noteq> 0 then put_line ''MTU'' (nat_dec (unat (g_mtu g))) else [])
          @ ''Table = off'' @ nl @ nl
          @ ''[Peer]'' @ nl
          @ put_line ''PublicKey'' (g_public_key g)
          @ (if g_preshared_key g \<noteq> [] then put_line ''PresharedKey'' (g_preshared_key g) else [])
          @ put_line ''AllowedIPs'' (g_allowed_ips g)
          @ put_line ''Endpoint'' (g_endpoint g)
          @ (if g_keepalive g \<noteq> 0 then put_line ''PersistentKeepalive'' (nat_dec (unat (g_keepalive g))) else [])))"

section \<open>Effects\<close>

datatype effect = Cmd string "string list" | Mkdir string | Put string string

type_synonym responder = "effect list \<Rightarrow> effect \<Rightarrow> string \<times> string option"

definition perform :: "responder \<Rightarrow> effect list \<Rightarrow> effect \<Rightarrow> effect list \<times> string \<times> string option" where
  "perform env log e = (log @ [e], env log e)"

section \<open>Policy routes of a gateway\<close>

text \<open>The word after the last occurrence of \<open>key\<close> that is not the final word.\<close>

fun word_after :: "string \<Rightarrow> string \<Rightarrow> string list \<Rightarrow> string" where
  "word_after key cur (a # b # r) = word_after key (if a = key then b else cur) (b # r)"
| "word_after key cur _ = cur"

definition endpoint_route :: "responder \<Rightarrow> effect list \<Rightarrow> vpn_gateway \<Rightarrow> effect list \<times> string option" where
  "endpoint_route env log g =
     (case split_host_port (trim_space (g_endpoint g)) of
        None \<Rightarrow> (log, None)
      | Some (host, _) \<Rightarrow>
          (case parse_ip (trim_brackets host) of
             None \<Rightarrow> (log, None)
           | Some ip \<Rightarrow>
               (case perform env log (Cmd ''ip'' [''-4'', ''route'', ''get'', ip_string ip]) of
                  (log1, out, err) \<Rightarrow>
                    if to4 ip = None \<or> err \<noteq> None then (log1, None)
                    else let dev = word_after ''dev'' [] (go_fields out); via = word_after ''via'' [] (go_fields out) in
                      if dev = [] \<or> dev = g_interface g then (log1, None)
                      else (case perform env log1 (Cmd ''ip''
                              ([''route'', ''replace'', ip_string ip @ ''/32''] @ (if via = [] then [] else [''via'', via]) @ [''dev'', dev])) of
                              (log2, _, None) \<Rightarrow> (log2, None)
                            | (log2, out2, Some e) \<Rightarrow>
                                (log2, Some (''installing gateway endpoint route for '' @ g_name g @ '': '' @ trim_space out2 @ '': '' @ e))))))"

definition default_route :: "responder \<Rightarrow> vpn_gateway \<Rightarrow> string list \<Rightarrow> string \<Rightarrow> effect list \<Rightarrow> effect list \<times> string option" where
  "default_route env g fam label log =
     (case perform env log (Cmd ''ip'' (fam @ [''route'', ''replace'', ''default'', ''dev'', g_interface g, ''table'', nat_dec (g_table g)])) of
        (log', _, None) \<Rightarrow> (log', None)
      | (log', out, Some e) \<Rightarrow>
          (log', Some (''installing '' @ label @ '' gateway route for '' @ g_name g @ '': '' @ trim_space out @ '': '' @ e)))"

text \<open>The loop over the AllowedIPs; the two tests of the source exclude each other.\<close>

fun default_routes :: "responder \<Rightarrow> vpn_gateway \<Rightarrow> string list \<Rightarrow> effect list \<Rightarrow> effect list \<times> string option" where
  "default_routes env g [] log = (log, None)"
| "default_routes env g (a # as) log =
     (case parse_cidr (trim_space a) of
        None \<Rightarrow> default_routes env g as log
      | Some (_, n) \<Rightarrow>
          (case (if ipnet_string n = ''0.0.0.0/0'' then default_route env g [] ''IPv4'' log
                 else if ipnet_string n = ''::/0'' then default_route env g [''-6''] ''IPv6'' log
                 else (log, None)) of
             (log', Some e) \<Rightarrow> (log', Some e)
           | (log', None) \<Rightarrow> default_routes env g as log'))"

definition ensure_policy_routes :: "responder \<Rightarrow> effect list \<Rightarrow> vpn_gateway \<Rightarrow> effect list \<times> string option" where
  "ensure_policy_routes env log g =
     (if g_interface g = [] \<or> g_table g = 0 then (log, None)
      else case endpoint_route env log g of
             (log1, Some e) \<Rightarrow> (log1, Some e)
           | (log1, None) \<Rightarrow> default_routes env g (split_char CHR '','' (g_allowed_ips g)) log1)"

section \<open>The manager\<close>

record gateway_status =
  gs_id :: string
  gs_name :: string
  gs_interface :: string
  gs_enabled :: bool
  gs_running :: bool
  gs_last_error :: string
  gs_last_change :: gotime
  gs_endpoint :: string
  gs_handshake :: gotime
  gs_rx :: int
  gs_tx :: int
  gs_count :: nat

record manager =
  mg_dir :: string
  mg_status :: "string \<Rightarrow> gateway_status option"

definition new_manager :: "string \<Rightarrow> manager" where
  "new_manager dir = \<lparr>mg_dir = dir, mg_status = (\<lambda>_. None)\<rparr>"

definition zero_status :: gateway_status where
  "zero_status = \<lparr>gs_id = [], gs_name = [], gs_interface = [], gs_enabled = False, gs_running = False,
     gs_last_error = [], gs_last_change = 0, gs_endpoint = [], gs_handshake = 0, gs_rx = 0, gs_tx = 0, gs_count = 0\<rparr>"

definition report :: "gotime \<Rightarrow> vpn_gateway \<Rightarrow> string \<Rightarrow> bool \<Rightarrow> bool \<Rightarrow> string \<Rightarrow> manager \<Rightarrow> manager" where
  "report now g iface enabled running err m =
     m\<lparr>mg_status := (mg_status m)(g_id g \<mapsto> zero_status\<lparr>gs_id := g_id g, gs_name := g_name g, gs_interface := iface,
         gs_enabled := enabled, gs_running := running, gs_last_error := err, gs_endpoint := g_endpoint g,
         gs_last_change := now\<rparr>)\<rparr>"

definition iface_of :: "vpn_gateway \<Rightarrow> string" where
  "iface_of g = (if g_interface g = [] then safe_interface_name (g_id g) else g_interface g)"

definition quick :: "string \<Rightarrow> string \<Rightarrow> effect" where
  "quick verb path = Cmd ''wg-quick'' [verb, path]"

definition stop_locked :: "responder \<Rightarrow> gotime \<Rightarrow> vpn_gateway \<Rightarrow> manager \<times> effect list \<Rightarrow> manager \<times> effect list" where
  "stop_locked env now g s =
     (report now g (iface_of g) False False [] (fst s),
      fst (perform env (snd s) (quick ''down'' (config_path (mg_dir (fst s)) (iface_of g)))))"

definition stop_gateway :: "responder \<Rightarrow> gotime \<Rightarrow> vpn_gateway \<Rightarrow> manager \<times> effect list \<Rightarrow> manager \<times> effect list" where
  "stop_gateway env now g s = stop_locked env now g s"

text \<open>Directory and file, the part of \<^verbatim>\<open>Start\<close> and \<^verbatim>\<open>Reconcile\<close> that may fail before wg-quick runs.\<close>

definition install_config :: "responder \<Rightarrow> string \<Rightarrow> string \<Rightarrow> string \<Rightarrow> effect list \<Rightarrow> effect list \<times> string option" where
  "install_config env dir iface text log =
     (case perform env log (Mkdir dir) of
        (log1, _, Some e) \<Rightarrow> (log1, Some e)
      | (log1, _, None) \<Rightarrow>
          (case perform env log1 (Put (config_path dir iface) text) of
             (log2, _, e) \<Rightarrow> (log2, e)))"

definition start_gateway :: "responder \<Rightarrow> gotime \<Rightarrow> vpn_gateway \<Rightarrow> manager \<times> effect list
    \<Rightarrow> (manager \<times> effect list) \<times> string option" where
  "start_gateway env now g0 s =
     (if \<not> g_enabled g0 then (stop_locked env now g0 s, None)
      else
        let iface = iface_of g0; g = g0\<lparr>g_interface := iface\<rparr>; m = fst s; path = config_path (mg_dir m) iface in
        case render_gateway g of
          Inl e \<Rightarrow> (s, Some e)
        | Inr text \<Rightarrow>
            (case install_config env (mg_dir m) iface text (snd s) of
               (log1, Some e) \<Rightarrow> ((m, log1), Some e)
             | (log1, None) \<Rightarrow>
                 let log2 = fst (perform env log1 (quick ''down'' path)) in
                 (case perform env log2 (quick ''up'' path) of
                    (log3, out, Some e) \<Rightarrow>
                      ((m, log3), Some (''starting gateway '' @ g_name g @ '': '' @ trim_space out @ '': '' @ e))
                  | (log3, _, None) \<Rightarrow>
                      (case ensure_policy_routes env log3 g of
                         (log4, Some e) \<Rightarrow>
                           ((report now g iface True False e m, fst (perform env log4 (quick ''down'' path))), Some e)
                       | (log4, None) \<Rightarrow> ((report now g iface True True [] m, log4), None)))))"

text \<open>One round of the loop of \<^verbatim>\<open>Reconcile\<close>.\<close>

definition reconcile_gateway :: "responder \<Rightarrow> gotime \<Rightarrow> vpn_gateway \<Rightarrow> manager \<times> effect list \<Rightarrow> manager \<times> effect list" where
  "reconcile_gateway env now g0 s =
     (let iface = iface_of g0; g = g0\<lparr>g_interface := iface\<rparr>; m = fst s; path = config_path (mg_dir m) iface;
          failed = (\<lambda>e. report now g iface True False e m) in
      if \<not> g_enabled g \<or> \<not> g_auto_start g then stop_locked env now g s
      else case render_gateway g of
             Inl e \<Rightarrow> (failed e, snd s)
           | Inr text \<Rightarrow>
               (case install_config env (mg_dir m) iface text (snd s) of
                  (log1, Some e) \<Rightarrow> (failed e, log1)
                | (log1, None) \<Rightarrow>
                    let log2 = fst (perform env log1 (quick ''down'' path)) in
                    (case perform env log2 (quick ''up'' path) of
                       (log3, out, Some e) \<Rightarrow> (failed (trim_space out), log3)
                     | (log3, _, None) \<Rightarrow>
                         (case ensure_policy_routes env log3 g of
                            (log4, Some e) \<Rightarrow> (failed e, fst (perform env log4 (quick ''down'' path)))
                          | (log4, None) \<Rightarrow> (report now g iface True True [] m, log4)))))"

text \<open>The reservation loop is the one of the store, except that the tables of peers are not known here.\<close>

definition reserve_tables :: "vpn_gateway list \<Rightarrow> vpn_gateway list" where
  "reserve_tables gs = fst (assign_tables (filter (\<lambda>t. 0 < t) (map g_table gs)) 20000 gs)"

definition reconcile_gateways :: "responder \<Rightarrow> gotime \<Rightarrow> vpn_gateway list \<Rightarrow> manager \<times> effect list
    \<Rightarrow> vpn_gateway list \<times> manager \<times> effect list" where
  "reconcile_gateways env now gs s =
     (let gs' = reserve_tables gs in (gs', fold (reconcile_gateway env now) gs' s))"

section \<open>Status\<close>

definition handshake_line :: "string \<Rightarrow> gateway_status \<Rightarrow> gateway_status" where
  "handshake_line line s =
     (case go_fields line of
        [_, sec] \<Rightarrow>
          if snd (parse_int sec) = None \<and> 0 < fst (parse_int sec) \<and> gs_handshake s < unix_time (fst (parse_int sec))
          then s\<lparr>gs_handshake := unix_time (fst (parse_int sec))\<rparr> else s
      | _ \<Rightarrow> s)"

definition transfer_line :: "string \<Rightarrow> gateway_status \<Rightarrow> gateway_status" where
  "transfer_line line s =
     (case go_fields line of
        [_, rx, tx] \<Rightarrow>
          if snd (parse_int rx) = None \<and> snd (parse_int tx) = None
          then s\<lparr>gs_rx := add64 (gs_rx s) (fst (parse_int rx)), gs_tx := add64 (gs_tx s) (fst (parse_int tx)),
                 gs_count := gs_count s + 1\<rparr> else s
      | _ \<Rightarrow> s)"

definition trimmed_lines :: "string \<Rightarrow> string list" where
  "trimmed_lines out = split_char (char_of (10 :: nat)) (trim_space out)"

definition gateway_status_of :: "responder \<Rightarrow> string \<Rightarrow> manager \<times> effect list \<Rightarrow> gateway_status \<times> effect list" where
  "gateway_status_of env i s =
     (let st = the_default zero_status (mg_status (fst s) i) in
      if gs_interface st = [] then (st, snd s)
      else case perform env (snd s) (Cmd ''ip'' [''link'', ''show'', ''dev'', gs_interface st]) of
             (log1, _, Some _) \<Rightarrow> (st\<lparr>gs_running := False\<rparr>, log1)
           | (log1, _, None) \<Rightarrow>
               (case perform env log1 (Cmd ''wg'' [''show'', gs_interface st, ''latest-handshakes'']) of
                  (log2, latest, e1) \<Rightarrow>
                    (case perform env log2 (Cmd ''wg'' [''show'', gs_interface st, ''transfer'']) of
                       (log3, transfers, e2) \<Rightarrow>
                         let st1 = st\<lparr>gs_running := True\<rparr>;
                             st2 = (if e1 = None then fold handshake_line (trimmed_lines latest) st1 else st1);
                             st3 = (if e2 = None then fold transfer_line (trimmed_lines transfers) st2 else st2) in
                         (st3, log3))))"

end
