(* ===== verification/Store_Spec.thy ===== *)
theory Store_Spec
  imports Store
begin

text \<open>
  The store as a state machine: \<open>store_step\<close> has one rule per exported operation that changes
  state, \<open>reach\<close> is what they reach from a loaded store, and two invariants are proved by rule
  induction: the restart flag tells whether the interface section of wg0.conf is live, and the
  YAML file reloads to the configuration in memory unless statistics are dirty.  The only step
  that can lose the second invariant is a rollback whose own save fails; it is labelled.
\<close>

section \<open>Gateway tables\<close>

interpretation gateway_tables: id_allocator vpn_gateway_table_base id "\<lambda>used. next_free used vpn_gateway_table_base"
  using next_free_least by unfold_locales simp

lemma next_free_resume:
  assumes "{vpn_gateway_table_base..<nxt} \<subseteq> set used" "vpn_gateway_table_base \<le> nxt"
  shows "next_free used nxt = next_free used vpn_gateway_table_base"
proof (rule gateway_tables.alloc_unique [of "next_free used nxt" used, simplified])
  have l: "nxt \<le> next_free used nxt" "next_free used nxt \<notin> set used" "{nxt..<next_free used nxt} \<subseteq> set used"
    using next_free_least by blast+
  then show "vpn_gateway_table_base \<le> next_free used nxt" "next_free used nxt \<notin> set used" using assms(2) by auto
  show "{vpn_gateway_table_base..<next_free used nxt} \<subseteq> set used"
    using assms l by (auto, metis atLeastLessThan_iff linorder_not_le subsetD)
qed

text \<open>A gateway keeps its table, or gets one from \<open>nxt\<close> on that is not used.\<close>

definition table_kept_or_fresh :: "nat list \<Rightarrow> nat \<Rightarrow> vpn_gateway \<Rightarrow> vpn_gateway \<Rightarrow> bool" where
  "table_kept_or_fresh used nxt g g' \<longleftrightarrow>
     (if g_table g \<noteq> 0 then g' = g
      else \<exists>t. g' = g\<lparr>g_table := t\<rparr> \<and> nxt \<le> t \<and> t \<notin> set used)"

lemma kept_or_fresh_mono:
  "table_kept_or_fresh u m g g' \<Longrightarrow> nxt \<le> m \<Longrightarrow> set used \<subseteq> set u \<Longrightarrow> table_kept_or_fresh used nxt g g'"
  by (auto simp: table_kept_or_fresh_def split: if_splits)

lemma assign_tables_all2:
  "list_all2 (table_kept_or_fresh used nxt) gs (fst (assign_tables used nxt gs))"
proof (induction used nxt gs rule: assign_tables.induct)
  case (2 used nxt g gs)
  show ?case
  proof (cases "g_table g = 0")
    case False
    with 2 show ?thesis by (simp add: split_beta table_kept_or_fresh_def)
  next
    case True
    let ?t = "next_free used nxt"
    have t: "nxt \<le> ?t" "?t \<notin> set used" using next_free_least by blast+
    have "list_all2 (table_kept_or_fresh (?t # used) (?t + 1)) gs (fst (assign_tables (?t # used) (?t + 1) gs))"
      using "2.IH"(2) True by simp
    then have "list_all2 (table_kept_or_fresh used nxt) gs (fst (assign_tables (?t # used) (?t + 1) gs))"
      by (rule list_all2_mono) (erule kept_or_fresh_mono, use t in auto)
    moreover have "table_kept_or_fresh used nxt g (g\<lparr>g_table := ?t\<rparr>)"
      using True t by (auto simp: table_kept_or_fresh_def)
    ultimately show ?thesis using True by (simp add: Let_def split_beta)
  qed
qed simp

lemma kept_or_fresh_tables:
  "list_all2 (table_kept_or_fresh used nxt) gs gs' \<Longrightarrow>
   set (map g_table gs') \<subseteq> set (gateway_table_keys gs) \<union> (- set used)"
  by (induction rule: list_all2_induct) (auto simp: table_kept_or_fresh_def gateway_table_keys_def split: if_splits)

lemma assign_tables_distinct:
  "distinct (gateway_table_keys gs) \<Longrightarrow> set (gateway_table_keys gs) \<subseteq> set used \<Longrightarrow>
   distinct (map g_table (fst (assign_tables used nxt gs)))"
proof (induction used nxt gs rule: assign_tables.induct)
  case (2 used nxt g gs)
  have sub: "distinct (gateway_table_keys gs)" "set (gateway_table_keys gs) \<subseteq> set used"
    using "2.prems" by (auto simp: gateway_table_keys_def split: if_splits)
  show ?case
  proof (cases "g_table g = 0")
    case False
    have "g_table g \<notin> set (map g_table (fst (assign_tables used nxt gs)))"
      using kept_or_fresh_tables [OF assign_tables_all2 [of used nxt gs]] "2.prems" False
      by (auto simp: gateway_table_keys_def)
    with False "2.IH"(1) [OF False sub] show ?thesis by (simp add: split_beta)
  next
    case True
    let ?t = "next_free used nxt"
    have t: "?t \<notin> set used" using next_free_least by blast
    have "?t \<notin> set (map g_table (fst (assign_tables (?t # used) (?t + 1) gs)))"
      using kept_or_fresh_tables [OF assign_tables_all2 [of "?t # used" "?t + 1" gs]] sub(2) t by auto
    moreover have "distinct (map g_table (fst (assign_tables (?t # used) (?t + 1) gs)))"
      using "2.IH"(2) True sub by auto
    ultimately show ?thesis using True by (simp add: split_beta Let_def)
  qed
qed simp

lemma assign_tables_changed: "snd (assign_tables used nxt gs) \<longleftrightarrow> (\<exists>g \<in> set gs. g_table g = 0)"
proof (induction gs arbitrary: used nxt)
  case (Cons g gs)
  then show ?case by (cases "g_table g = 0") (simp_all add: split_beta Let_def)
qed simp

lemma assign_tables_same: "\<forall>g \<in> set gs. g_table g \<noteq> 0 \<Longrightarrow> assign_tables used nxt gs = (gs, False)"
  by (induction gs arbitrary: used nxt) simp_all

lemma config_tables_set:
  "set (config_tables cfg) = set (used_tables (cfg_peers cfg)) \<union> set (gateway_table_keys (cfg_gateways cfg))"
  by (auto simp: config_tables_def gateway_table_keys_def)

lemma ensure_nonzero: "\<forall>g \<in> set (cfg_gateways (fst (ensure_gateway_tables cfg))). g_table g \<noteq> 0"
proof -
  have "list_all2 (table_kept_or_fresh u vpn_gateway_table_base) gs gs' \<Longrightarrow> \<forall>g \<in> set gs'. g_table g \<noteq> 0" for u gs gs'
    by (induction rule: list_all2_induct) (auto simp: table_kept_or_fresh_def vpn_gateway_table_base_def split: if_splits)
  from this [OF assign_tables_all2] show ?thesis by (simp add: ensure_gateway_tables_def split_beta)
qed

lemma ensure_idem: "\<forall>g \<in> set (cfg_gateways cfg). g_table g \<noteq> 0 \<Longrightarrow> ensure_gateway_tables cfg = (cfg, False)"
  by (simp add: ensure_gateway_tables_def assign_tables_same)

text \<open>Giving tables to gateways keeps the tables that are set, gives every other gateway a
  number from 20000 on that neither a peer nor a gateway uses, and leaves the gateways with
  pairwise distinct tables if the given ones were distinct.\<close>

theorem ensure_gateway_tables_fresh:
  assumes "distinct (gateway_table_keys (cfg_gateways cfg))"
  shows "list_all2 (table_kept_or_fresh (config_tables cfg) vpn_gateway_table_base)
       (cfg_gateways cfg) (cfg_gateways (fst (ensure_gateway_tables cfg)))
    \<and> distinct (map g_table (cfg_gateways (fst (ensure_gateway_tables cfg))))
    \<and> cfg_peers (fst (ensure_gateway_tables cfg)) = cfg_peers cfg"
  using assms assign_tables_all2 assign_tables_distinct [OF assms, of "config_tables cfg"] config_tables_set [of cfg]
  by (auto simp: ensure_gateway_tables_def split_beta)

definition sample_two_gateways :: app_config where
  "sample_two_gateways = zero_config\<lparr>cfg_gateways := [sample_gateway\<lparr>g_table := 20000\<rparr>, sample_gateway\<lparr>g_id := ''h'', g_table := 0\<rparr>]\<rparr>"

theorem ensure_gateway_tables_fresh_witness:
  "distinct (map g_table (cfg_gateways (fst (ensure_gateway_tables sample_two_gateways))))"
proof -
  have "distinct (gateway_table_keys (cfg_gateways sample_two_gateways))" by code_simp
  from ensure_gateway_tables_fresh [OF this] show ?thesis by blast
qed

section \<open>Steps\<close>

text \<open>The first argument tells whether the step lost a rollback: the new configuration was saved,
  rendering wg0.conf failed, and restoring the old YAML failed as well.\<close>

definition rollback_lost :: "write_error option \<Rightarrow> bool" where
  "rollback_lost r \<longleftrightarrow> (case r of Some (Render_Rollback_Error _ _) \<Rightarrow> True | _ \<Rightarrow> False)"

inductive store_step :: "env \<Rightarrow> bool \<Rightarrow> store \<times> world \<Rightarrow> store \<times> world \<Rightarrow> bool" for env where
  changed: "write_store env fn s w = (s', w', r) \<Longrightarrow> store_step env (rollback_lost r) (s, w) (s', w')"
| record_stats: "store_step env False (s, w) (record_peer_stats stats s, w)"
| save_stats: "save_stats env s w = (s', w', r) \<Longrightarrow> store_step env False (s, w) (s', w')"
| last_seen: "record_peer_last_seen env seen s w = (s', w', r) \<Longrightarrow> store_step env False (s, w) (s', w')"
| reapply_bgp: "reapply_bgp env s w = (w', r) \<Longrightarrow> store_step env False (s, w) (s, w')"
| reapply_routing: "reapply_routing env s w = (s', w', r) \<Longrightarrow> store_step env False (s, w) (s', w')"
| render: "render_wg env s w = (w', r) \<Longrightarrow> store_step env False (s, w) (s, w')"
| restarted: "store_step env False (s, w) (mark_wireguard_restarted s w, w)"
| set_zt: "store_step env False (s, w) (set_zerotier_gateways f s, w)"
| set_bgp: "store_step env False (s, w) (set_bgp_advertised_routes g s, w)"
| subscribe: "store_step env False (s, w) (on_change c s, w)"
| restart: "restart_wg_config (e_run env) (w_wg w) (st_wg_path s) = (wg, r) \<Longrightarrow> store_step env False (s, w) (s, w\<lparr>w_wg := wg\<rparr>)"

inductive_cases store_stepE: "store_step env lost (s, w) (s', w')"

inductive reach :: "env \<Rightarrow> bool \<Rightarrow> store \<times> world \<Rightarrow> bool" for env where
  loaded: "load_store env err w cp wp = (w', Inr s) \<Longrightarrow> reach env False (s, w')"
| stepped: "reach env lost c \<Longrightarrow> store_step env now c c' \<Longrightarrow> reach env (lost \<or> now) c'"

section \<open>The restart flag\<close>

text \<open>When no restart is pending, wg-quick has installed a server configuration that differs from
  the current one in nothing only wg-quick can apply.\<close>

definition interface_current :: "store \<Rightarrow> bool" where
  "interface_current s \<longleftrightarrow>
     (\<not> st_pending s \<longrightarrow> st_has_applied s \<and> server_restart_reason (st_applied s) (cfg_server (st_config s)) = None)"

lemma restart_reason_refl [simp]: "server_restart_reason a a = None"
  by (simp add: server_restart_reason_def changed_fields_def)

lemma interface_current_dirty [simp]: "interface_current (s\<lparr>st_dirty := d\<rparr>) = interface_current s"
  by (simp add: interface_current_def)

lemma apply_live_fields:
  "apply_live env s w e = (s', w', live, errs) \<Longrightarrow>
   st_config s' = st_config s \<and> st_pending s' = st_pending s \<and> st_applied s' = st_applied s
   \<and> st_has_applied s' = st_has_applied s \<and> st_dirty s' = st_dirty s \<and> st_config_path s' = st_config_path s
   \<and> st_wg_path s' = st_wg_path s \<and> st_zt s' = st_zt s \<and> st_bgp s' = st_bgp s \<and> w_disk w' = w_disk w"
  by (auto simp: apply_live_def Let_def split: prod.splits option.splits if_splits)

lemma write_apply_fields:
  "write_apply env s w e = (s', w', r) \<Longrightarrow>
   st_config s' = st_config s \<and> st_pending s' = st_pending s \<and> st_applied s' = st_applied s
   \<and> st_has_applied s' = st_has_applied s \<and> st_dirty s' = st_dirty s \<and> st_config_path s' = st_config_path s
   \<and> st_wg_path s' = st_wg_path s \<and> st_zt s' = st_zt s \<and> st_bgp s' = st_bgp s \<and> w_disk w' = w_disk w
   \<and> (r = None \<or> (\<exists>es. r = Some (Apply_Error es)))"
  by (auto simp: write_apply_def Let_def configure_bgp_def dest!: apply_live_fields split: prod.splits if_splits)

text \<open>How a write ends: rejected without a trace, rolled back, or applied.\<close>

lemma write_store_cases:
  assumes "write_store env fn s w = (s', w', r)"
  obtains (rejected) "s' = s" "w' = w" "\<exists>e. r = Some (Fn_Error e) \<or> (\<exists>es. r = Some (Invalid es))"
      "snd (fn (st_config s)) \<noteq> None \<or> validate_config (fst (ensure_gateway_tables (fst (fn (st_config s))))) \<noteq> []"
  | (unsaved) s1 e where "s' = s" "save_yaml env s1 w = (w', Some e)" "st_config_path s1 = st_config_path s"
      "r = Some (Save_Error e)"
  | (rolled_back) s1 w1 w2 e where "s' = s\<lparr>st_dirty := False\<rparr>" "save_yaml env s1 w = (w1, None)"
      "render_wg_config env s1 w1 = (w2, Some e)" "st_config_path s1 = st_config_path s" "st_wg_path s1 = st_wg_path s"
      "save_yaml env (s\<lparr>st_dirty := False\<rparr>) w2 = (w', None) \<and> r = Some (Render_Error e)
       \<or> (\<exists>e'. save_yaml env (s\<lparr>st_dirty := False\<rparr>) w2 = (w', Some e') \<and> r = Some (Render_Rollback_Error e e'))"
  | (applied) cfg0 cfg s1 w1 w2 where "fn (st_config s) = (cfg0, None)" "cfg = fst (ensure_gateway_tables cfg0)"
      "validate_config cfg = []"
      "s1 = s\<lparr>st_config := cfg, st_pending := fst (restart_pending_after s cfg)\<rparr>"
      "save_yaml env s1 w = (w1, None)" "render_wg_config env s1 w1 = (w2, None)"
      "write_apply env (s1\<lparr>st_dirty := False\<rparr>) w2 (snd (restart_pending_after s cfg)) = (s', w', r)"
proof (cases "fn (st_config s)")
  case (Pair cfg0 e)
  let ?c = "fst (ensure_gateway_tables cfg0)"
  let ?s1 = "s\<lparr>st_config := ?c, st_pending := fst (restart_pending_after s ?c)\<rparr>"
  show thesis
  proof (cases "e = None \<and> validate_config ?c = []")
    case False
    with assms Pair show thesis
      by (intro rejected) (auto simp: write_store_def Let_def split_beta split: option.splits if_splits)
  next
    case True
    obtain w1 e1 where y: "save_yaml env ?s1 w = (w1, e1)" by (cases "save_yaml env ?s1 w")
    obtain w2 e2 where y2: "render_wg_config env ?s1 w1 = (w2, e2)" by (cases "render_wg_config env ?s1 w1")
    obtain w3 e3 where y3: "save_yaml env (s\<lparr>st_dirty := False\<rparr>) w2 = (w3, e3)"
      by (cases "save_yaml env (s\<lparr>st_dirty := False\<rparr>) w2")
    note w = assms [unfolded write_store_def Pair, simplified, simplified True split_beta Let_def, simplified]
    show thesis
    proof (cases e1)
      case (Some x)
      with w True y show thesis by (intro unsaved [of ?s1 x]) (auto simp: split_beta Let_def)
    next
      case None
      note n1 = None
      show thesis
      proof (cases e2)
        case (Some x)
        with w True y y2 y3 n1 show thesis
          by (intro rolled_back [of ?s1 w1 w2 x]) (auto simp: split_beta Let_def split: option.splits)
      next
        case None
        with w True y y2 n1 Pair show thesis
          by (intro applied [of cfg0 ?c ?s1 w1 w2]) (auto simp: split_beta Let_def)
      qed
    qed
  qed
qed

lemma interface_current_changed:
  assumes "write_store env fn s w = (s', w', r)" "interface_current s"
  shows "interface_current s'"
  using assms(1)
proof (cases rule: write_store_cases)
  case (applied cfg0 cfg s1 w1 w2)
  have "interface_current (s1\<lparr>st_dirty := False\<rparr>)"
    using assms(2) applied(4)
    by (auto simp: interface_current_def restart_pending_after_def Let_def split: if_splits)
  with write_apply_fields [OF applied(7)] show ?thesis by (simp add: interface_current_def)
qed (use assms(2) in \<open>simp_all add: interface_current_def\<close>)

lemma record_stats_fields [simp]:
  "st_pending (record_peer_stats stats s) = st_pending s" "st_applied (record_peer_stats stats s) = st_applied s"
  "st_has_applied (record_peer_stats stats s) = st_has_applied s"
  "cfg_server (st_config (record_peer_stats stats s)) = cfg_server (st_config s)"
  "cfg_gateways (st_config (record_peer_stats stats s)) = cfg_gateways (st_config s)"
  "st_config_path (record_peer_stats stats s) = st_config_path s" "st_wg_path (record_peer_stats stats s) = st_wg_path s"
  by (simp_all add: record_peer_stats_def Let_def)

lemma save_stats_cases:
  "save_stats env s w = (s', w', r) \<Longrightarrow>
     s' = s \<and> w' = w \<and> \<not> st_dirty s \<or> s' = s \<and> save_yaml env s w = (w', r) \<and> r \<noteq> None \<and> st_dirty s
     \<or> s' = s\<lparr>st_dirty := False\<rparr> \<and> save_yaml env s w = (w', None) \<and> st_dirty s"
  by (auto simp: save_stats_def split: if_splits prod.splits option.splits)

lemma last_seen_cases:
  "record_peer_last_seen env seen s w = (s', w', r) \<Longrightarrow>
     s' = s \<and> w' = w \<or> (\<exists>stats. save_stats env (record_peer_stats stats s) w = (s', w', r))"
  by (auto simp: record_peer_last_seen_def split: if_splits)

lemma reapply_routing_fields:
  "reapply_routing env s w = (s', w', r) \<Longrightarrow>
   st_config s' = st_config s \<and> st_pending s' = st_pending s \<and> st_applied s' = st_applied s
   \<and> st_has_applied s' = st_has_applied s \<and> st_dirty s' = st_dirty s \<and> st_config_path s' = st_config_path s
   \<and> st_wg_path s' = st_wg_path s \<and> (w_disk w' = w_disk w \<or> (\<exists>e w1. render_wg_config env s w = (w1, e) \<and> w_disk w' = w_disk w1))"
  by (auto simp: reapply_routing_def Let_def split: if_splits prod.splits option.splits)

lemma interface_current_stats: "interface_current (record_peer_stats stats s) = interface_current s"
  by (simp add: interface_current_def)

lemma interface_current_step:
  "store_step env lost (s, w) (s', w') \<Longrightarrow> interface_current s \<Longrightarrow> interface_current s'"
proof (erule store_stepE)
  fix seen r assume "interface_current s" "record_peer_last_seen env seen s w = (s', w', r)"
  then show ?thesis
    using last_seen_cases save_stats_cases interface_current_stats interface_current_dirty by metis
next
  fix r assume "interface_current s" "save_stats env s w = (s', w', r)"
  with save_stats_cases interface_current_dirty show ?thesis by metis
next
  fix r assume "interface_current s" "reapply_routing env s w = (s', w', r)"
  with reapply_routing_fields [of env s w s' w' r] show ?thesis by (simp add: interface_current_def)
next
  fix fn r assume "interface_current s" "write_store env fn s w = (s', w', r)"
  then show ?thesis by (rule interface_current_changed [rotated])
qed (auto simp: interface_current_stats interface_current_def mark_wireguard_restarted_def
    set_zerotier_gateways_def set_bgp_advertised_routes_def on_change_def split: option.splits)

lemma load_store_new:
  "load_store env err w cp wp = (w', Inr s) \<Longrightarrow> \<exists>cfg. s = new_store cp wp cfg"
  by (auto simp: load_store_def Let_def split: option.splits sum.splits prod.splits if_splits)

lemma reach_current: "reach env lost c \<Longrightarrow> interface_current (fst c)"
proof (induction rule: reach.induct)
  case (loaded err w cp wp w' s)
  from load_store_new [OF this] show ?case by (auto simp: interface_current_def new_store_def)
next
  case (stepped lost c now c')
  then show ?case using interface_current_step by (metis prod.collapse)
qed

text \<open>In every reachable state, if no restart is pending then wg-quick has installed the server
  configuration up to settings a live reload can apply: no change of an address, MTU, table,
  mark or hook is ever silently taken for live.\<close>

theorem no_pending_restart_is_current:
  assumes "reach env lost (s, w)" "\<not> st_pending s"
  shows "st_has_applied s \<and> server_restart_reason (st_applied s) (cfg_server (st_config s)) = None"
  using reach_current [OF assms(1)] assms(2) by (simp add: interface_current_def)

definition sample_env :: env where
  "sample_env = \<lparr>e_fs = \<lambda>_ _. None, e_partial = \<lambda>_. [], e_run = \<lambda>_ _. ([], None), e_sh = \<lambda>_ _. None, e_up = \<lambda>_. True,
     e_bgp = \<lambda>_ _. None, e_marshal = \<lambda>c. if c = default_config then Inr ''d'' else Inl ''unsupported'',
     e_unmarshal = \<lambda>d. if d = ''d'' then Inr default_config else Inl ''bad'', e_ord = id, e_lan = []\<rparr>"

definition sample_world :: world where
  "sample_world = \<lparr>w_disk = \<lambda>_. None, w_fs = [], w_wg = [], w_sh = [], w_bgp = [], w_notified = []\<rparr>"

definition sample_store :: store where
  "sample_store = new_store ''/app/config.yaml'' ''/etc/wireguard/wg0.conf'' default_config"

lemma sample_loaded: "load_store sample_env None sample_world ''/app/config.yaml'' ''/etc/wireguard/wg0.conf'' = (sample_world, Inr sample_store)"
  by (simp add: load_store_def sample_world_def sample_store_def)

theorem no_pending_restart_is_current_witness:
  "st_has_applied (mark_wireguard_restarted sample_store sample_world)"
proof -
  have "reach sample_env (False \<or> False) (mark_wireguard_restarted sample_store sample_world, sample_world)"
    by (rule reach.stepped [OF reach.loaded [OF sample_loaded] store_step.restarted])
  from no_pending_restart_is_current [OF this] show ?thesis by (simp add: mark_wireguard_restarted_def)
qed

section \<open>Durability\<close>

text \<open>Loading the file gives the configuration in memory.\<close>

definition durable :: "env \<Rightarrow> store \<Rightarrow> world \<Rightarrow> bool" where
  "durable env s w \<longleftrightarrow>
     (\<exists>s'. load_store env None w (st_config_path s) (st_wg_path s) = (w, Inr s') \<and> st_config s' = st_config s)"

definition paths_apart :: "string \<Rightarrow> string \<Rightarrow> bool" where
  "paths_apart cp wp \<longleftrightarrow> cp \<noteq> wp \<and> cp \<noteq> tmp_of wp"

definition tables_given :: "app_config \<Rightarrow> bool" where
  "tables_given cfg \<longleftrightarrow> (\<forall>g \<in> set (cfg_gateways cfg). g_table g \<noteq> 0)"

lemma tmp_of_neq [simp]: "tmp_of p \<noteq> p" "p \<noteq> tmp_of p"
  by (simp_all add: tmp_of_def)

lemma write_file_atomic_disk:
  assumes "write_file_atomic env w what path content = (w', r)"
  shows "(\<forall>q. q \<noteq> path \<longrightarrow> q \<noteq> tmp_of path \<longrightarrow> w_disk w' q = w_disk w q)
    \<and> (if r = None then w_disk w' path = Some content else w_disk w' path = w_disk w path)"
  using assms by (auto simp: write_file_atomic_def fs_do_def Let_def split: prod.splits option.splits if_splits)


text \<open>The file holds the configuration, or is missing and the configuration is the default.\<close>

definition disk_config :: "env \<Rightarrow> string option \<Rightarrow> string + app_config" where
  "disk_config env f = (case f of None \<Rightarrow> Inr default_config | Some data \<Rightarrow> e_unmarshal env data)"

definition on_file :: "env \<Rightarrow> store \<Rightarrow> world \<Rightarrow> bool" where
  "on_file env s w \<longleftrightarrow> disk_config env (w_disk w (st_config_path s)) = Inr (st_config s)"

lemma on_file_durable:
  "on_file env s w \<Longrightarrow> tables_given (st_config s) \<Longrightarrow> durable env s w"
  by (auto simp: on_file_def disk_config_def durable_def load_store_def tables_given_def ensure_idem new_store_def
      split: option.splits)

definition codec_ok :: "env \<Rightarrow> bool" where
  "codec_ok env \<longleftrightarrow> (\<forall>c d. e_marshal env c = Inr d \<longrightarrow> e_unmarshal env d = Inr c)"

lemma save_yaml_disk:
  assumes "save_yaml env s w = (w', r)"
  shows "(r = None \<longrightarrow> codec_ok env \<longrightarrow> on_file env s w')
    \<and> (r \<noteq> None \<longrightarrow> w_disk w' (st_config_path s) = w_disk w (st_config_path s))"
  using assms write_file_atomic_disk [of env w "''config''" "st_config_path s" _ w' r]
  by (auto simp: save_yaml_def on_file_def disk_config_def codec_ok_def split: sum.splits)

lemma render_disk:
  assumes "render_wg_config env s w = (w', r)" "paths_apart (st_config_path s) (st_wg_path s)"
  shows "w_disk w' (st_config_path s) = w_disk w (st_config_path s)"
  using assms write_file_atomic_disk [of env w "''wg config''" "st_wg_path s" _ w' r]
  by (auto simp: render_wg_config_def Let_def paths_apart_def)

lemma on_file_cong:
  "st_config s' = st_config s \<Longrightarrow> st_config_path s' = st_config_path s \<Longrightarrow>
   w_disk w' (st_config_path s) = w_disk w (st_config_path s) \<Longrightarrow> on_file env s' w' = on_file env s w"
  by (simp add: on_file_def)

definition durable_inv :: "env \<Rightarrow> store \<Rightarrow> world \<Rightarrow> bool" where
  "durable_inv env s w \<longleftrightarrow> paths_apart (st_config_path s) (st_wg_path s) \<and> tables_given (st_config s)
     \<and> (st_dirty s \<or> on_file env s w)"

lemma durable_inv_write:
  assumes "write_store env fn s w = (s', w', r)" "\<not> rollback_lost r" "codec_ok env" "durable_inv env s w"
  shows "durable_inv env s' w'"
  using assms(1)
proof (cases rule: write_store_cases)
  case rejected
  with assms(4) show ?thesis by simp
next
  case (unsaved s1 e)
  have "w_disk w' (st_config_path s) = w_disk w (st_config_path s)"
    using save_yaml_disk [OF unsaved(2)] unsaved(3) by simp
  then have "on_file env s w' = on_file env s w" by (intro on_file_cong) simp_all
  with assms(4) unsaved(1) show ?thesis by (simp add: durable_inv_def)
next
  case (rolled_back s1 w1 w2 e)
  with assms(2) have "save_yaml env (s\<lparr>st_dirty := False\<rparr>) w2 = (w', None)" by (auto simp: rollback_lost_def)
  with save_yaml_disk [OF this] assms(3,4) rolled_back(1) show ?thesis by (simp add: durable_inv_def)
next
  case (applied cfg0 cfg s1 w1 w2)
  have p: "st_config_path s1 = st_config_path s" "st_wg_path s1 = st_wg_path s" "st_config s1 = cfg"
    using applied(4) by simp_all
  have "on_file env s1 w1" using save_yaml_disk [OF applied(5)] assms(3) by simp
  moreover have "w_disk w2 (st_config_path s1) = w_disk w1 (st_config_path s1)"
    using render_disk [OF applied(6)] p assms(4) by (simp add: durable_inv_def)
  moreover note f = write_apply_fields [OF applied(7)]
  ultimately have "on_file env s' w'" using on_file_cong [of s' s1 w' w1 env] by simp
  moreover have "tables_given cfg" using ensure_nonzero applied(2) by (simp add: tables_given_def)
  ultimately show ?thesis using f p assms(4) by (simp add: durable_inv_def)
qed

lemma record_stats_clean: "\<not> st_dirty (record_peer_stats stats s) \<Longrightarrow> record_peer_stats stats s = s"
proof -
  assume "\<not> st_dirty (record_peer_stats stats s)"
  then have d: "\<not> st_dirty s" "\<forall>p \<in> set (cfg_peers (st_config s)). \<not> snd (record_stat stats p)"
    by (auto simp: record_peer_stats_def Let_def list_ex_iff)
  have "fst (record_stat stats p) = p" if "\<not> snd (record_stat stats p)" for p
    using that by (cases "stats (p_public_key p)") (simp_all add: record_stat_def Let_def)
  with d have "map (\<lambda>p. fst (record_stat stats p)) (cfg_peers (st_config s)) = cfg_peers (st_config s)"
    by (intro map_idI) auto
  with d show ?thesis by (auto simp: record_peer_stats_def Let_def comp_def list_ex_iff)
qed

lemma durable_inv_stats: "durable_inv env s w \<Longrightarrow> durable_inv env (record_peer_stats stats s) w"
  using record_stats_clean [of stats s] by (cases "st_dirty (record_peer_stats stats s)") (auto simp: durable_inv_def tables_given_def)

lemma durable_inv_save:
  assumes "save_stats env s w = (s', w', r)" "codec_ok env" "durable_inv env s w"
  shows "durable_inv env s' w'"
proof -
  note save_stats_cases [OF assms(1)]
  moreover have "s' = s\<lparr>st_dirty := False\<rparr> \<Longrightarrow> save_yaml env s w = (w', None) \<Longrightarrow> ?thesis"
    using save_yaml_disk [of env s w w' None] assms(2,3) by (simp add: durable_inv_def on_file_def)
  ultimately show ?thesis using assms(3) by (auto simp: durable_inv_def)
qed

lemma durable_inv_step:
  "store_step env lost (s, w) (s', w') \<Longrightarrow> \<not> lost \<Longrightarrow> codec_ok env \<Longrightarrow> durable_inv env s w \<Longrightarrow> durable_inv env s' w'"
proof (erule store_stepE)
  fix fn r assume "\<not> lost" "codec_ok env" "durable_inv env s w" "write_store env fn s w = (s', w', r)" "lost = rollback_lost r"
  then show ?thesis using durable_inv_write by blast
next
  fix seen r assume "codec_ok env" "durable_inv env s w" "record_peer_last_seen env seen s w = (s', w', r)"
  then show ?thesis using last_seen_cases durable_inv_save durable_inv_stats by metis
next
  fix r assume a: "durable_inv env s w" "reapply_routing env s w = (s', w', r)"
  note f = reapply_routing_fields [OF a(2)]
  then have "w_disk w' (st_config_path s) = w_disk w (st_config_path s)"
    using render_disk [of env s w] a(1) by (auto simp: durable_inv_def)
  with f on_file_cong [of s' s w' w env] a(1) show ?thesis by (simp add: durable_inv_def)
next
  fix r assume a: "durable_inv env s w" "s' = s" "render_wg env s w = (w', r)"
  then have "w_disk w' (st_config_path s) = w_disk w (st_config_path s)"
    using render_disk [of env s w]
    by (auto simp: render_wg_def durable_inv_def split: if_splits prod.splits option.splits)
  with a on_file_cong [of s' s w' w env] show ?thesis by (simp add: durable_inv_def)
next
  fix r assume "codec_ok env" "durable_inv env s w" "save_stats env s w = (s', w', r)"
  then show ?thesis using durable_inv_save by blast
next
  fix stats assume "durable_inv env s w" "s' = record_peer_stats stats s" "w' = w"
  then show ?thesis using durable_inv_stats by blast
qed (auto simp: durable_inv_def on_file_def tables_given_def reapply_bgp_def configure_bgp_def
    mark_wireguard_restarted_def set_zerotier_gateways_def set_bgp_advertised_routes_def on_change_def
    split: if_splits option.splits)

lemma loaded_durable:
  assumes "load_store env err w cp wp = (w', Inr s)" "codec_ok env" "paths_apart cp wp"
  shows "durable_inv env s w'"
proof (cases "w_disk w cp")
  case None
  with assms show ?thesis
    by (auto simp: load_store_def durable_inv_def on_file_def disk_config_def new_store_def tables_given_def
        default_config_def zero_config_def)
next
  case (Some data)
  with assms(1) obtain cfg where c: "e_unmarshal env data = Inr cfg"
    by (auto simp: load_store_def split: option.splits sum.splits)
  let ?c = "fst (ensure_gateway_tables cfg)"
  have s: "s = new_store cp wp ?c" and r: "if snd (ensure_gateway_tables cfg) then save_yaml env s w = (w', None) else w' = w"
    using assms(1) Some c by (auto simp: load_store_def Let_def split: option.splits prod.splits if_splits)
  have t: "tables_given ?c" using ensure_nonzero by (simp add: tables_given_def)
  have "on_file env s w'"
  proof (cases "snd (ensure_gateway_tables cfg)")
    case True
    with r save_yaml_disk [of env s w w' None] assms(2) show ?thesis by simp
  next
    case False
    then have "\<forall>g \<in> set (cfg_gateways cfg). g_table g \<noteq> 0"
      by (simp add: ensure_gateway_tables_def split_beta assign_tables_changed)
    then have "?c = cfg" by (simp add: ensure_idem)
    with False r s Some c show ?thesis by (simp add: on_file_def disk_config_def new_store_def)
  qed
  with s t assms(3) show ?thesis by (simp add: durable_inv_def new_store_def)
qed

lemma step_paths:
  "store_step env l (s1, w1) (s2, w2) \<Longrightarrow> st_config_path s2 = st_config_path s1 \<and> st_wg_path s2 = st_wg_path s1"
proof (erule store_stepE)
  fix fn r assume "write_store env fn s1 w1 = (s2, w2, r)"
  then show ?thesis by (rule write_store_cases) (auto dest!: write_apply_fields)
next
  fix seen r assume "record_peer_last_seen env seen s1 w1 = (s2, w2, r)"
  then show ?thesis using last_seen_cases save_stats_cases by fastforce
qed (auto dest!: reapply_routing_fields save_stats_cases simp: mark_wireguard_restarted_def set_zerotier_gateways_def
    set_bgp_advertised_routes_def on_change_def split: option.splits)

lemma reach_durable:
  assumes "codec_ok env"
  shows "reach env lost c \<Longrightarrow> \<not> lost \<Longrightarrow> paths_apart (st_config_path (fst c)) (st_wg_path (fst c))
    \<Longrightarrow> durable_inv env (fst c) (snd c)"
proof (induction rule: reach.induct)
  case (loaded err w cp wp w' s)
  with loaded_durable [OF loaded(1) assms] load_store_new [OF loaded(1)] show ?case
    by (auto simp: new_store_def)
next
  case (stepped lost c now c')
  then show ?case
    using durable_inv_step [of env now "fst c" "snd c" "fst c'" "snd c'"] step_paths [of env now "fst c" "snd c" "fst c'" "snd c'"] assms
    by simp
qed

text \<open>In every state reached without a lost rollback, unless unsaved statistics are pending,
  loading the YAML file gives back exactly the configuration in memory: a crash at any point
  between operations loses nothing, failed writes included.\<close>

theorem reachable_durable:
  assumes "reach env lost (s, w)" "\<not> lost" "codec_ok env" "\<not> st_dirty s"
    "paths_apart (st_config_path s) (st_wg_path s)"
  shows "durable env s w"
  using reach_durable [OF assms(3,1,2)] assms(4,5) on_file_durable by (auto simp: durable_inv_def)

theorem reachable_durable_witness: "durable sample_env sample_store sample_world"
proof (rule reachable_durable [OF reach.loaded [OF sample_loaded]])
  show "codec_ok sample_env" by (simp add: codec_ok_def sample_env_def)
qed (simp_all add: sample_store_def new_store_def paths_apart_def tmp_of_def)

section \<open>Validity\<close>

text \<open>Statistics do not matter to the validator.\<close>

definition same_settings :: "(peer \<Rightarrow> peer) \<Rightarrow> bool" where
  "same_settings f \<longleftrightarrow> (\<forall>p. \<exists>a b c. f p = p\<lparr>p_last_seen := a, p_rx := b, p_tx := c\<rparr>)"

lemma same_settings_fields:
  assumes "same_settings f"
  shows "validate_peer nets (f p) = validate_peer nets p" "peer_id_claim (f p) = peer_id_claim p" "peer_key_claim (f p) = peer_key_claim p"
    "peer_table_claims (f p) = peer_table_claims p" "peer_prefix_claims (f p) = peer_prefix_claims p"
    "p_id (f p) = p_id p" "p_name (f p) = p_name p" "p_is_exit (f p) = p_is_exit p" "p_exit_id (f p) = p_exit_id p" "p_table (f p) = p_table p"
    "p_policy_routes (f p) = p_policy_routes p" "p_policy_table (f p) = p_policy_table p" "p_gateway_id (f p) = p_gateway_id p"
    "p_enabled (f p) = p_enabled p"
proof -
  from assms obtain a b c where "f p = p\<lparr>p_last_seen := a, p_rx := b, p_tx := c\<rparr>"
    unfolding same_settings_def by blast
  then show "validate_peer nets (f p) = validate_peer nets p" "peer_id_claim (f p) = peer_id_claim p" "peer_key_claim (f p) = peer_key_claim p"
    "peer_table_claims (f p) = peer_table_claims p" "peer_prefix_claims (f p) = peer_prefix_claims p"
    "p_id (f p) = p_id p" "p_name (f p) = p_name p" "p_is_exit (f p) = p_is_exit p" "p_exit_id (f p) = p_exit_id p" "p_table (f p) = p_table p"
    "p_policy_routes (f p) = p_policy_routes p" "p_policy_table (f p) = p_policy_table p" "p_gateway_id (f p) = p_gateway_id p"
    "p_enabled (f p) = p_enabled p"
    by (simp_all add: validate_peer_def peer_id_claim_def peer_key_claim_def peer_table_claims_def peer_prefix_claims_def
        effective_allowed_prefixes_def effective_allowed_values_def)
qed


lemma same_settings_valid:
  assumes "same_settings f"
  shows "validate_config (cfg\<lparr>cfg_peers := map f (cfg_peers cfg)\<rparr>) = validate_config cfg"
proof -
  note fields = same_settings_fields [OF assms]
  have "peer_loop st (map f ps) = peer_loop st ps" for st ps
    by (induction ps arbitrary: st) (simp_all add: fields cong: prod.case_cong)
  moreover have "validate_exit_node_refs (map f ps) = validate_exit_node_refs ps" for ps
    by (simp add: validate_exit_node_refs_def filter_map comp_def fields)
  moreover have "gateway_ref_errors gs (map f ps) = gateway_ref_errors gs ps" for gs ps
    by (simp add: gateway_ref_errors_def comp_def fields)
  ultimately show ?thesis by (simp add: validate_config_def comp_def fields)
qed

lemma record_stat_settings: "same_settings (\<lambda>p. fst (record_stat stats p))"
proof -
  have "\<exists>a b c. fst (record_stat stats p) = p\<lparr>p_last_seen := a, p_rx := b, p_tx := c\<rparr>" for p
  proof (cases "stats (p_public_key p)")
    case None
    then have "fst (record_stat stats p) = p\<lparr>p_last_seen := p_last_seen p, p_rx := p_rx p, p_tx := p_tx p\<rparr>"
      by (simp add: record_stat_def)
    then show ?thesis by blast
  next
    case (Some st)
    let ?seen = "ps_last_seen st \<noteq> 0 \<and> p_last_seen p < ps_last_seen st"
    have "fst (record_stat stats p) = p\<lparr>p_last_seen := (if ?seen then ps_last_seen st else p_last_seen p),
        p_rx := ps_rx st, p_tx := ps_tx st\<rparr>"
      using Some by (cases p) (auto simp: record_stat_def Let_def)
    then show ?thesis by blast
  qed
  then show ?thesis by (simp add: same_settings_def)
qed

definition store_valid :: "store \<Rightarrow> bool" where
  "store_valid s \<longleftrightarrow> validate_config (st_config s) = []"

lemma store_valid_stats: "store_valid (record_peer_stats stats s) = store_valid s"
  using same_settings_valid [OF record_stat_settings, of stats "st_config s"]
  by (simp add: store_valid_def record_peer_stats_def Let_def comp_def)

lemma store_valid_dirty [simp]: "store_valid (s\<lparr>st_dirty := d\<rparr>) = store_valid s"
  by (simp add: store_valid_def)

lemma store_valid_step: "store_step env lost (s, w) (s', w') \<Longrightarrow> store_valid s \<Longrightarrow> store_valid s'"
proof (erule store_stepE)
  fix fn r assume v: "store_valid s" and "write_store env fn s w = (s', w', r)"
  from this(2) show ?thesis by (rule write_store_cases) (use v in \<open>auto simp: store_valid_def dest!: write_apply_fields\<close>)
next
  fix seen r assume "store_valid s" "record_peer_last_seen env seen s w = (s', w', r)"
  then show ?thesis using last_seen_cases save_stats_cases store_valid_stats store_valid_dirty by metis
next
  fix r assume "store_valid s" "save_stats env s w = (s', w', r)"
  with save_stats_cases store_valid_dirty show ?thesis by metis
next
  fix r assume "store_valid s" "reapply_routing env s w = (s', w', r)"
  with reapply_routing_fields [of env s w s' w' r] show ?thesis by (simp add: store_valid_def)
next
  fix stats assume "store_valid s" "s' = record_peer_stats stats s"
  then show ?thesis by (simp add: store_valid_stats)
qed (auto simp: store_valid_def mark_wireguard_restarted_def
    set_zerotier_gateways_def set_bgp_advertised_routes_def on_change_def split: option.splits)

section \<open>Rejected and failed writes\<close>



definition rendered :: "env \<Rightarrow> store \<Rightarrow> world \<Rightarrow> string" where
  "rendered env s v =
     (let nets = store_nets s v; adv = store_advertised s v in
      render_server_config (st_config s)
        (generate_post_up (e_ord env) (e_lan env) (st_config s) nets adv)
        (generate_post_down (e_ord env) (e_lan env) (st_config s) nets adv))"

text \<open>C18: a write that reports success, or only a failure to apply, leaves a valid configuration in
  memory and the interface file rendered from it, with the hooks generated for its gateways and
  for the routes then advertised.\<close>

theorem accepted_write_valid:
  assumes "write_store env fn s w = (s', w', r)" "r = None \<or> (\<exists>es. r = Some (Apply_Error es))"
  shows "validate_config (st_config s') = [] \<and> st_config s' = fst (ensure_gateway_tables (fst (fn (st_config s))))
    \<and> (\<exists>v. w_disk w' (st_wg_path s') = Some (rendered env s' v))"
  using assms(1)
proof (cases rule: write_store_cases)
  case (applied cfg0 cfg s1 w1 w2)
  note f = write_apply_fields [OF applied(7)]
  have "w_disk w2 (st_wg_path s1) = Some (rendered env s1 w1)"
    using applied(6) write_file_atomic_disk [of env w1 "''wg config''" "st_wg_path s1" _ w2 None]
    by (auto simp: render_wg_config_def rendered_def Let_def)
  moreover have "rendered env s' w1 = rendered env s1 w1"
    using f by (simp add: rendered_def store_nets_def store_advertised_def)
  ultimately have "w_disk w' (st_wg_path s') = Some (rendered env s' w1)" using f by simp
  with f applied(1-4) show ?thesis by auto
qed (use assms(2) in auto)

theorem accepted_write_valid_witness:
  "validate_config (st_config (fst (write_store (sample_env\<lparr>e_marshal := \<lambda>_. Inr ''y''\<rparr>) (\<lambda>c. (sample_exit_config, None)) sample_store sample_world))) = []"
proof -
  let ?e = "sample_env\<lparr>e_marshal := \<lambda>_. Inr ''y''\<rparr>"
  let ?r = "write_store ?e (\<lambda>c. (sample_exit_config, None)) sample_store sample_world"
  have v: "validate_config sample_exit_config = []" by code_simp
  have g: "ensure_gateway_tables sample_exit_config = (sample_exit_config, False)"
    by (rule ensure_idem) (simp add: sample_exit_config_def zero_config_def)
  have fs: "fs_do ?e w op = (fst (fs_do ?e w op), None)" for w op
    by (cases op) (simp_all add: fs_do_def sample_env_def Let_def)
  have wf: "snd (write_file_atomic ?e w what path c) = None" for w what path c
    unfolding write_file_atomic_def by (subst fs, simp, subst fs, simp, subst fs, simp)
  have r: "?r = (fst ?r, fst (snd ?r), snd (snd ?r))" by simp
  have "snd (snd ?r) = None \<or> (\<exists>es. snd (snd ?r) = Some (Apply_Error es))"
    using r
  proof (cases rule: write_store_cases)
    case rejected
    with v g show ?thesis by simp
  next
    case (unsaved s1 e)
    then show ?thesis using wf by (simp add: save_yaml_def) (metis option.distinct(1) snd_conv)
  next
    case (rolled_back s1 w1 w2 e)
    then show ?thesis using wf by (simp add: render_wg_config_def Let_def) (metis option.distinct(1) snd_conv)
  next
    case applied
    with write_apply_fields show ?thesis by blast
  qed
  from accepted_write_valid [OF r this] show ?thesis by blast
qed

section \<open>Queries\<close>

text \<open>The per-peer query and the map over all peers agree on every peer of a configuration with
  distinct identifiers.\<close>

theorem routing_applied_agree:
  assumes "distinct (map p_id (cfg_peers (st_config s)))"
  shows "is_peer_routing_applied s i = (peer_routing_applied_map s i = Some True)"
proof -
  let ?v = "\<lambda>d. if st_pending s then False
     else case find_peer_by_id (cfg_peers (rs_config (st_routing s))) (p_id d) of None \<Rightarrow> False | Some a \<Rightarrow> same_routing d a"
  have m: "foldl (\<lambda>m d. m(p_id d \<mapsto> ?v d)) m0 ps i = (case find_peer_by_id (rev ps) i of None \<Rightarrow> m0 i | Some d \<Rightarrow> Some (?v d))"
    for m0 ps by (induction ps rule: rev_induct) (auto simp: find_peer_by_id_def split: option.split)
  have f: "find_peer_by_id (rev ps) i = find_peer_by_id ps i" if "distinct (map p_id ps)" for ps
  proof (cases "find_peer_by_id ps i")
    case None
    then show ?thesis using peers.lookup_None_iff [of ps i] peers.lookup_None_iff [of "rev ps" i] by simp
  next
    case (Some d)
    with peers.lookup_SomeD [OF Some] peers.lookup_distinct [of "rev ps" d i] that show ?thesis
      by (simp add: rev_map [symmetric])
  qed
  show ?thesis
    using f [OF assms] peers.lookup_SomeD [of "cfg_peers (st_config s)" i]
    by (auto simp: is_peer_routing_applied_def peer_routing_applied_map_def m split: option.splits)
qed

theorem routing_applied_agree_witness:
  "is_peer_routing_applied sample_store ''x'' = (peer_routing_applied_map sample_store ''x'' = Some True)"
  by (rule routing_applied_agree) (simp add: sample_store_def new_store_def default_config_def zero_config_def)

end
