(* ===== verification/Gateway_Spec.thy ===== *)
theory Gateway_Spec
  imports Gateway Store_Spec
begin

text \<open>
  What imported gateways satisfy: the parser accepts only clean values, the renderer and the parser
  are inverse on them and never produce a hook, a tunnel is reported running only when it is,
  and reconciling treats every gateway as the configuration says.
\<close>

section \<open>Lines of options\<close>

lemma alnum_plain: "is_alnum c \<Longrightarrow> plain_char c"
  by (auto simp: is_alnum_def plain_char_def is_digit_def)

lemma alnum_not: "is_alnum c \<Longrightarrow> c \<noteq> CHR ''='' \<and> c \<noteq> CHR ''#'' \<and> c \<noteq> CHR '';'' \<and> c \<noteq> CHR ''[''"
  by (auto simp: is_alnum_def is_digit_def ccode_def)

definition option_text :: "string \<Rightarrow> string \<Rightarrow> string" where
  "option_text name v = name @ '' = '' @ v"

lemma strip_right_blank: "strip_right r = None \<Longrightarrow> r \<noteq> [] \<Longrightarrow> strip_right (r @ CHR '' '' # t) = None"
  by (cases r rule: strip_right.cases)
    (auto simp: space2_def space3_def ccode_def split: if_splits list.splits)

lemma trimmed_ends: "trim_space v = v \<Longrightarrow> strip_left v = None \<and> strip_right (rev v) = None"
  by (metis trim_space_ends_None)

lemma trimmed_last: "trim_space v = v \<Longrightarrow> v \<noteq> [] \<Longrightarrow> ccode (last v) \<noteq> 13 \<and> ccode (last v) \<noteq> 32"
  using trimmed_ends [of v] by (cases v rule: rev_cases) (auto simp: space1_def split: if_splits)

lemma trim_option:
  assumes "list_all is_alnum name" "name \<noteq> []" "trim_space v = v" "v \<noteq> []"
  shows "trim_line (option_text name v) = option_text name v"
proof -
  have l: "last (option_text name v) = last v" using assms(4) by (simp add: option_text_def)
  have "strip_left (option_text name v) = None"
    using assms(1,2) by (intro strip_left_plain) (cases name, auto simp: option_text_def alnum_plain)
  moreover have "strip_right (rev (option_text name v)) = None"
    using strip_right_blank [of "rev v" "CHR ''='' # CHR '' '' # rev name"] trimmed_ends [OF assms(3)] assms(4)
    by (simp add: option_text_def)
  ultimately have "trim_space (option_text name v) = option_text name v" by (rule trim_space_plain)
  with trimmed_last [OF assms(3,4)] l show ?thesis by (simp add: trim_line_def)
qed

lemma trim_trailing_blank: "list_all is_alnum s \<Longrightarrow> s \<noteq> [] \<Longrightarrow> trim_space (s @ '' '') = s"
proof -
  assume s: "list_all is_alnum s" "s \<noteq> []"
  then have "strip_left (s @ '' '') = None" by (intro strip_left_plain) (cases s, auto simp: alnum_plain)
  moreover have "strip_right (rev s) = None" using s by (intro strip_right_plain) (auto simp: hd_rev alnum_plain list_all_iff)
  ultimately show ?thesis
    by (simp add: trim_space_def trim_left_no_space trim_rev.simps [of "CHR '' '' # rev s"] trim_rev.simps [of "rev s"] space1_def ccode_def)
qed

lemma scan_option:
  assumes "list_all is_alnum name" "name \<noteq> []" "trim_space v = v" "v \<noteq> []" "sc_section st \<noteq> []"
  shows "scan_line (option_text name v) st =
    (case (if sc_section st = ''interface'' then interface_option (to_lower name) v (sc_gateway st)
           else peer_option (to_lower name) v (sc_gateway st)) of
       Inl e \<Rightarrow> Inl e | Inr g \<Rightarrow> Inr (st\<lparr>sc_gateway := g\<rparr>))"
proof -
  have "CHR ''='' \<notin> set (name @ '' '')" using assms(1) alnum_not by (auto simp: list_all_iff)
  from index_byte_append [OF this, of "CHR '' '' # v"]
  have i: "index_byte (option_text name v) CHR ''='' = Some (Suc (length name))" by (simp add: option_text_def)
  have parts: "take (Suc (length name)) (option_text name v) = name @ '' ''"
    "drop (Suc (Suc (length name))) (option_text name v) = CHR '' '' # v" by (simp_all add: option_text_def)
  have "option_text name v \<noteq> [] \<and> \<not> has_prefix (option_text name v) ''#'' \<and> \<not> has_prefix (option_text name v) '';''
     \<and> \<not> has_prefix (option_text name v) ''[''"
    using assms(1,2) alnum_not by (cases name) (auto simp: option_text_def has_prefix_def)
  then have "scan_line (option_text name v) st = option_line (option_text name v) st"
    by (simp add: scan_line_def trim_option [OF assms(1-4)])
  then show ?thesis
    using assms(5) by (simp add: option_line_def i parts trim_trailing_blank [OF assms(1,2)] trim_space_blank assms(3) Let_def)
qed


section \<open>Rendering as lines\<close>

definition opt_text :: "bool \<Rightarrow> string \<Rightarrow> string \<Rightarrow> string list" where
  "opt_text b name v = (if b then [option_text name v] else [])"

definition gateway_lines :: "vpn_gateway \<Rightarrow> string list" where
  "gateway_lines g =
     [''[Interface]'', option_text ''PrivateKey'' (g_private_key g), option_text ''Address'' (g_address g)]
     @ opt_text (g_mtu g \<noteq> 0) ''MTU'' (nat_dec (unat (g_mtu g)))
     @ [option_text ''Table'' ''off'', [], ''[Peer]'', option_text ''PublicKey'' (g_public_key g)]
     @ opt_text (g_preshared_key g \<noteq> []) ''PresharedKey'' (g_preshared_key g)
     @ [option_text ''AllowedIPs'' (g_allowed_ips g), option_text ''Endpoint'' (g_endpoint g)]
     @ opt_text (g_keepalive g \<noteq> 0) ''PersistentKeepalive'' (nat_dec (unat (g_keepalive g)))"

definition unlines :: "string list \<Rightarrow> string" where
  "unlines ls = concat (map (\<lambda>l. l @ nl) ls)"

definition effective_gateway :: "vpn_gateway \<Rightarrow> vpn_gateway" where
  "effective_gateway g = (if g_interface g = [] then g\<lparr>g_interface := safe_interface_name (g_id g)\<rparr> else g)"

lemma effective_gateway_fields [simp]:
  "g_private_key (effective_gateway g) = g_private_key g" "g_address (effective_gateway g) = g_address g"
  "g_mtu (effective_gateway g) = g_mtu g" "g_public_key (effective_gateway g) = g_public_key g"
  "g_preshared_key (effective_gateway g) = g_preshared_key g" "g_allowed_ips (effective_gateway g) = g_allowed_ips g"
  "g_endpoint (effective_gateway g) = g_endpoint g" "g_keepalive (effective_gateway g) = g_keepalive g"
  by (simp_all add: effective_gateway_def)

lemma gateway_lines_effective [simp]: "gateway_lines (effective_gateway g) = gateway_lines g"
  by (simp add: gateway_lines_def)

lemma render_lines:
  "render_gateway g = Inr t \<longleftrightarrow> validate_vpn_gateway (effective_gateway g) = None \<and> t = unlines (gateway_lines g)"
  by (auto simp: render_gateway_def effective_gateway_def gateway_lines_def unlines_def put_line_def option_text_def opt_text_def
      Let_def split: option.splits)

lemma split_unlines:
  "\<forall>l \<in> set ls. char_of (10 :: nat) \<notin> set l \<Longrightarrow> split_char (char_of (10 :: nat)) (unlines ls) = ls @ [[]]"
  by (induction ls) (auto simp: unlines_def nl_def split_char_append)

lemma scan_lines_append:
  "scan_lines (xs @ ys) st = (case scan_lines xs st of Inl e \<Rightarrow> Inl e | Inr st' \<Rightarrow> scan_lines ys st')"
  by (induction xs arbitrary: st) (auto split: sum.splits)

section \<open>Round trip\<close>

text \<open>A value that survives a line of its own: not empty, trimmed, without line breaks.\<close>

definition line_value :: "string \<Rightarrow> bool" where
  "line_value v \<longleftrightarrow> v \<noteq> [] \<and> trim_space v = v \<and> char_of (10 :: nat) \<notin> set v"

definition line_values :: "vpn_gateway \<Rightarrow> bool" where
  "line_values g \<longleftrightarrow> line_value (g_private_key g) \<and> line_value (g_address g) \<and> line_value (g_public_key g)
     \<and> line_value (g_allowed_ips g) \<and> line_value (g_endpoint g)
     \<and> (g_preshared_key g \<noteq> [] \<longrightarrow> line_value (g_preshared_key g))"

lemma nat_dec_line_value: "line_value (nat_dec n)"
proof -
  have "list_all plain_char (nat_dec n)" using nat_dec_digits [of n] is_digit_plain by (auto simp: list_all_iff)
  moreover have "char_of (10 :: nat) \<notin> set (nat_dec n)" by (rule nat_dec_no_char) (simp add: is_digit_def)
  ultimately show ?thesis by (simp add: line_value_def trim_space_all_plain nat_dec_not_Nil)
qed

lemma line_value_off: "line_value ''off''"
  by code_simp

lemma option_names:
  "to_lower ''PrivateKey'' = ''privatekey''" "to_lower ''Address'' = ''address''" "to_lower ''MTU'' = ''mtu''"
  "to_lower ''Table'' = ''table''" "to_lower ''PublicKey'' = ''publickey''" "to_lower ''PresharedKey'' = ''presharedkey''"
  "to_lower ''AllowedIPs'' = ''allowedips''" "to_lower ''Endpoint'' = ''endpoint''"
  "to_lower ''PersistentKeepalive'' = ''persistentkeepalive''"
  by code_simp+

lemma alnum_names:
  "list_all is_alnum ''PrivateKey''" "list_all is_alnum ''Address''" "list_all is_alnum ''MTU''" "list_all is_alnum ''Table''"
  "list_all is_alnum ''PublicKey''" "list_all is_alnum ''PresharedKey''" "list_all is_alnum ''AllowedIPs''"
  "list_all is_alnum ''Endpoint''" "list_all is_alnum ''PersistentKeepalive''"
  by code_simp+

lemma scan_value:
  "list_all is_alnum name \<Longrightarrow> name \<noteq> [] \<Longrightarrow> line_value v \<Longrightarrow> sc_section st \<noteq> [] \<Longrightarrow>
   scan_line (option_text name v) st =
    (case (if sc_section st = ''interface'' then interface_option (to_lower name) v (sc_gateway st)
           else peer_option (to_lower name) v (sc_gateway st)) of
       Inl e \<Rightarrow> Inl e | Inr g \<Rightarrow> Inr (st\<lparr>sc_gateway := g\<rparr>))"
  by (rule scan_option) (simp_all add: line_value_def)

lemma scan_sections:
  "scan_line [] st = Inr st"
  "scan_line ''[Interface]'' st = Inr (st\<lparr>sc_section := ''interface''\<rparr>)"
  "sc_peers st = 0 \<Longrightarrow> scan_line ''[Peer]'' st = Inr (st\<lparr>sc_section := ''peer'', sc_peers := 1\<rparr>)"
proof -
  have t: "trim_line ''[Interface]'' = ''[Interface]''" "trim_line ''[Peer]'' = ''[Peer]''"
    "to_lower (trim_space (butlast (tl ''[Interface]''))) = ''interface''"
    "to_lower (trim_space (butlast (tl ''[Peer]''))) = ''peer''" by code_simp+
  show "scan_line [] st = Inr st" by (simp add: scan_line_def trim_line_def)
  show "scan_line ''[Interface]'' st = Inr (st\<lparr>sc_section := ''interface''\<rparr>)"
    unfolding scan_line_def t(1) section_line_def t(3) Let_def by (simp add: has_prefix_def has_suffix_def)
  show "scan_line ''[Peer]'' st = Inr (st\<lparr>sc_section := ''peer'', sc_peers := 1\<rparr>)" if "sc_peers st = 0"
    unfolding scan_line_def t(2) section_line_def t(4) Let_def by (simp add: has_prefix_def has_suffix_def that)
qed

lemma u16_less: "unat (n :: u16) < 65536"
  by (rule order_less_le_trans [OF unsigned_less]) simp

lemma interface_opts:
  "interface_option ''privatekey'' v g = Inr (g\<lparr>g_private_key := v\<rparr>)"
  "interface_option ''address'' v g = Inr (g\<lparr>g_address := v\<rparr>)"
  "interface_option ''table'' v g = Inr g"
  "interface_option ''mtu'' (nat_dec (unat (n :: u16))) g = Inr (g\<lparr>g_mtu := n\<rparr>)"
  using parse_uint_nat_dec [of "unat n" 16] u16_less [of n]
  by (simp_all add: interface_option_def ignored_options_def)

lemma peer_opts:
  "peer_option ''publickey'' v g = Inr (g\<lparr>g_public_key := v\<rparr>)"
  "peer_option ''presharedkey'' v g = Inr (g\<lparr>g_preshared_key := v\<rparr>)"
  "peer_option ''allowedips'' v g = Inr (g\<lparr>g_allowed_ips := v\<rparr>)"
  "peer_option ''endpoint'' v g = Inr (g\<lparr>g_endpoint := v\<rparr>)"
  "peer_option ''persistentkeepalive'' (nat_dec (unat (n :: u16))) g = Inr (g\<lparr>g_keepalive := n\<rparr>)"
  using parse_uint_nat_dec [of "unat n" 16] u16_less [of n]
  by (simp_all add: peer_option_def)

text \<open>The part of a gateway that its configuration file carries.\<close>

definition wire_part :: "vpn_gateway \<Rightarrow> vpn_gateway" where
  "wire_part g = zero_gateway\<lparr>g_private_key := g_private_key g, g_address := g_address g, g_mtu := g_mtu g,
     g_public_key := g_public_key g, g_preshared_key := g_preshared_key g, g_allowed_ips := g_allowed_ips g,
     g_endpoint := g_endpoint g, g_keepalive := g_keepalive g\<rparr>"

lemma scan_gateway_lines:
  assumes "line_values g"
  shows "scan_lines (gateway_lines g @ [[]]) \<lparr>sc_gateway = zero_gateway, sc_section = [], sc_peers = 0\<rparr>
    = Inr \<lparr>sc_gateway = wire_part g, sc_section = ''peer'', sc_peers = 1\<rparr>"
proof -
  have v: "line_value (g_private_key g)" "line_value (g_address g)" "line_value (g_public_key g)"
    "line_value (g_allowed_ips g)" "line_value (g_endpoint g)"
    "g_preshared_key g \<noteq> [] \<Longrightarrow> line_value (g_preshared_key g)"
    using assms by (simp_all add: line_values_def)
  note e = scan_value [OF alnum_names(1) _ v(1)] scan_value [OF alnum_names(2) _ v(2)]
    scan_value [OF alnum_names(3) _ nat_dec_line_value] scan_value [OF alnum_names(4) _ line_value_off]
    scan_value [OF alnum_names(5) _ v(3)] scan_value [OF alnum_names(6) _ v(6)]
    scan_value [OF alnum_names(7) _ v(4)] scan_value [OF alnum_names(8) _ v(5)]
    scan_value [OF alnum_names(9) _ nat_dec_line_value]
  let ?g1 = "zero_gateway\<lparr>g_private_key := g_private_key g, g_address := g_address g\<rparr>"
  let ?g2 = "?g1\<lparr>g_mtu := g_mtu g\<rparr>"
  let ?g3 = "?g2\<lparr>g_public_key := g_public_key g\<rparr>"
  let ?g4 = "?g3\<lparr>g_preshared_key := g_preshared_key g\<rparr>"
  let ?g5 = "?g4\<lparr>g_allowed_ips := g_allowed_ips g, g_endpoint := g_endpoint g\<rparr>"
  let ?s = "\<lambda>g name n. \<lparr>sc_gateway = g, sc_section = name, sc_peers = n\<rparr>"
  have "scan_lines [''[Interface]'', option_text ''PrivateKey'' (g_private_key g), option_text ''Address'' (g_address g)] (?s zero_gateway [] 0)
      = Inr (?s ?g1 ''interface'' 0)"
    by (simp add: e scan_sections interface_opts option_names)
  moreover have "scan_lines (opt_text (g_mtu g \<noteq> 0) ''MTU'' (nat_dec (unat (g_mtu g)))) (?s ?g1 ''interface'' 0) = Inr (?s ?g2 ''interface'' 0)"
    by (simp add: opt_text_def e interface_opts option_names zero_gateway_def)
  moreover have "scan_lines [option_text ''Table'' ''off'', [], ''[Peer]'', option_text ''PublicKey'' (g_public_key g)] (?s ?g2 ''interface'' 0)
      = Inr (?s ?g3 ''peer'' 1)"
    by (simp add: e scan_sections interface_opts peer_opts option_names)
  moreover have "scan_lines (opt_text (g_preshared_key g \<noteq> []) ''PresharedKey'' (g_preshared_key g)) (?s ?g3 ''peer'' 1) = Inr (?s ?g4 ''peer'' 1)"
    by (cases "g_preshared_key g = []") (simp_all add: opt_text_def e peer_opts option_names zero_gateway_def)
  moreover have "scan_lines [option_text ''AllowedIPs'' (g_allowed_ips g), option_text ''Endpoint'' (g_endpoint g)] (?s ?g4 ''peer'' 1)
      = Inr (?s ?g5 ''peer'' 1)"
    by (simp add: e peer_opts option_names)
  moreover have "scan_lines (opt_text (g_keepalive g \<noteq> 0) ''PersistentKeepalive'' (nat_dec (unat (g_keepalive g)))) (?s ?g5 ''peer'' 1)
      = Inr (?s (wire_part g) ''peer'' 1)"
    by (simp add: opt_text_def e peer_opts option_names wire_part_def zero_gateway_def)
  ultimately show ?thesis
    by (simp only: gateway_lines_def append_assoc scan_lines_append sum.case) (simp add: scan_sections)
qed

lemma option_text_nl: "list_all is_alnum name \<Longrightarrow> line_value v \<Longrightarrow> char_of (10 :: nat) \<notin> set (option_text name v)"
proof -
  assume a: "list_all is_alnum name" "line_value v"
  have "\<not> is_alnum (char_of (10 :: nat))" "char_of (10 :: nat) \<notin> set '' = ''" by code_simp+
  with a show ?thesis by (auto simp: option_text_def line_value_def list_all_iff)
qed

lemma opt_text_nl: "list_all is_alnum name \<Longrightarrow> (b \<Longrightarrow> line_value v) \<Longrightarrow> \<forall>l \<in> set (opt_text b name v). char_of (10 :: nat) \<notin> set l"
  by (simp add: opt_text_def option_text_nl)

lemma newline_char: "char_of (10 :: nat) = CHR 0x0A"
  by code_simp

lemma gateway_lines_nl:
  assumes "line_values g"
  shows "\<forall>l \<in> set (gateway_lines g). char_of (10 :: nat) \<notin> set l"
proof -
  have v: "line_value (g_private_key g)" "line_value (g_address g)" "line_value (g_public_key g)"
    "line_value (g_allowed_ips g)" "line_value (g_endpoint g)" "g_preshared_key g \<noteq> [] \<Longrightarrow> line_value (g_preshared_key g)"
    using assms by (simp_all add: line_values_def)
  note o = opt_text_nl [OF alnum_names(3) nat_dec_line_value] opt_text_nl [OF alnum_names(6) v(6)]
    opt_text_nl [OF alnum_names(9) nat_dec_line_value]
  note p = option_text_nl [OF alnum_names(1) v(1)] option_text_nl [OF alnum_names(2) v(2)]
    option_text_nl [OF alnum_names(4) line_value_off] option_text_nl [OF alnum_names(5) v(3)]
    option_text_nl [OF alnum_names(7) v(4)] option_text_nl [OF alnum_names(8) v(5)]
  show ?thesis
    unfolding gateway_lines_def set_append ball_Un list.set ball_simps
    by (intro conjI o p) (simp_all add: newline_char)
qed

lemma valid_keys: "valid_key = is_valid_base64_key" "valid_cidrs = is_valid_cidr_list"
  by (simp_all add: fun_eq_iff valid_key_def is_valid_base64_key_def valid_cidrs_def is_valid_cidr_list_def)

lemma valid_endpoint_trimmed: "trim_space e = e \<Longrightarrow> valid_endpoint e = is_valid_endpoint e"
  by (auto simp: valid_endpoint_def is_valid_endpoint_def split: option.splits)


lemma parse_rendered:
  assumes "render_gateway g = Inr t" "line_values g" "g_preshared_key g \<noteq> [] \<longrightarrow> is_valid_base64_key (g_preshared_key g)"
  shows "parse_config t = Inr (wire_part g)"
proof -
  from assms(1) have v: "validate_vpn_gateway (effective_gateway g) = None" and t: "t = unlines (gateway_lines g)"
    by (simp_all add: render_lines)
  have s: "split_char (char_of (10 :: nat)) t = gateway_lines g @ [[]]"
    unfolding t by (rule split_unlines [OF gateway_lines_nl [OF assms(2)]])
  have lv: "g_private_key g \<noteq> []" "g_address g \<noteq> []" "g_public_key g \<noteq> []" "g_allowed_ips g \<noteq> []" "g_endpoint g \<noteq> []"
    "trim_space (g_endpoint g) = g_endpoint g"
    using assms(2) by (simp_all add: line_values_def line_value_def)
  from v have "accept_gateway (wire_part g) = Inr (wire_part g)"
    using lv assms(3) by (auto simp: accept_gateway_def wire_part_def validate_vpn_gateway_def valid_keys valid_endpoint_trimmed split: if_splits)
  then show ?thesis
    by (simp only: parse_config_def s scan_gateway_lines [OF assms(2)]) simp
qed


section \<open>What the parser accepts\<close>

text \<open>Every value stored so far is a trimmed line value or still empty.\<close>

definition clean :: "string \<Rightarrow> bool" where
  "clean v \<longleftrightarrow> v = [] \<or> line_value v"

definition clean_gateway :: "vpn_gateway \<Rightarrow> bool" where
  "clean_gateway g \<longleftrightarrow> clean (g_private_key g) \<and> clean (g_address g) \<and> clean (g_public_key g)
     \<and> clean (g_allowed_ips g) \<and> clean (g_endpoint g) \<and> clean (g_preshared_key g)"

lemma trim_space_set: "set (trim_space s) \<subseteq> set s"
proof -
  obtain w where w: "rev (trim_left s) = w @ trim_rev (rev (trim_left s))" using trim_rev_suffix by blast
  then have "set (trim_space s) \<subseteq> set (trim_left s)"
    by (metis le_sup_iff order_refl set_append set_rev trim_space_def)
  moreover have "set (trim_left s) \<subseteq> set s"
  proof (induction s rule: trim_left.induct)
    case (1 s)
    show ?case
    proof (cases "strip_left s")
      case (Some t)
      moreover have "set t \<subseteq> set s" using Some
        by (induction s rule: strip_left.induct) (auto split: if_splits list.splits)
      ultimately show ?thesis using 1 by (auto simp: trim_left.simps [of s])
    qed (simp add: trim_left.simps [of s])
  qed
  ultimately show ?thesis by blast
qed

lemma clean_trim: "char_of (10 :: nat) \<notin> set s \<Longrightarrow> clean (trim_space s)"
  using trim_space_set [of s] by (auto simp: clean_def line_value_def)

lemma option_clean:
  "clean_gateway g \<Longrightarrow> clean v \<Longrightarrow> interface_option key v g = Inr g' \<Longrightarrow> clean_gateway g'"
  "clean_gateway g \<Longrightarrow> clean v \<Longrightarrow> peer_option key v g = Inr g' \<Longrightarrow> clean_gateway g'"
  by (auto simp: clean_gateway_def interface_option_def peer_option_def split: if_splits prod.splits option.splits)

lemma trim_line_set: "set (trim_line l) \<subseteq> set l"
  using trim_space_set [of "butlast l"] trim_space_set [of l] in_set_butlastD [of _ l] by (auto simp: trim_line_def)

lemma scan_line_clean:
  assumes "clean_gateway (sc_gateway st)" "char_of (10 :: nat) \<notin> set l" "scan_line l st = Inr st'"
  shows "clean_gateway (sc_gateway st')"
proof -
  let ?s = "trim_line l"
  have "char_of (10 :: nat) \<notin> set ?s" using trim_line_set assms(2) by blast
  then have v: "clean (trim_space (drop n ?s))" for n by (meson clean_trim in_set_dropD)
  show ?thesis
    using assms(1,3) option_clean [OF assms(1) v]
    by (fastforce simp: scan_line_def section_line_def option_line_def Let_def split: if_splits sum.splits option.splits)
qed

lemma scan_lines_clean:
  "clean_gateway (sc_gateway st) \<Longrightarrow> \<forall>l \<in> set ls. char_of (10 :: nat) \<notin> set l \<Longrightarrow> scan_lines ls st = Inr st' \<Longrightarrow>
   clean_gateway (sc_gateway st')"
  by (induction ls arbitrary: st) (auto split: sum.splits dest: scan_line_clean)

lemma parse_config_clean:
  assumes "parse_config raw = Inr g"
  shows "line_values g \<and> accept_gateway g = Inr g"
proof -
  from assms obtain st where st: "scan_lines (split_char (char_of (10 :: nat)) raw)
      \<lparr>sc_gateway = zero_gateway, sc_section = [], sc_peers = 0\<rparr> = Inr st" "accept_gateway (sc_gateway st) = Inr g"
    by (auto simp: parse_config_def split: sum.splits if_splits)
  have "clean_gateway (sc_gateway st)"
    by (rule scan_lines_clean [OF _ _ st(1)])
      (auto simp: clean_gateway_def clean_def zero_gateway_def dest: split_char_fields)
  moreover from st(2) have "sc_gateway st = g" by (auto simp: accept_gateway_def split: if_splits)
  ultimately show ?thesis using st(2)
    by (auto simp: clean_gateway_def clean_def line_values_def accept_gateway_def split: if_splits)
qed

lemma wire_part_fields:
  assumes "wire_part g' = wire_part g"
  shows "g_private_key g' = g_private_key g \<and> g_address g' = g_address g \<and> g_mtu g' = g_mtu g
    \<and> g_public_key g' = g_public_key g \<and> g_preshared_key g' = g_preshared_key g \<and> g_allowed_ips g' = g_allowed_ips g
    \<and> g_endpoint g' = g_endpoint g \<and> g_keepalive g' = g_keepalive g"
  using assms by (simp add: wire_part_def zero_gateway_def)

lemma parsed_renders:
  assumes "parse_config raw = Inr g" "wire_part g' = wire_part g"
    "\<not> blank (g_id g')" "\<not> blank (g_name g')" "\<not> blank (iface_of g')" "g_mtu g = 0 \<or> 1280 \<le> g_mtu g"
  shows "render_gateway g' = Inr (unlines (gateway_lines g)) \<and> line_values g'
    \<and> (g_preshared_key g' \<noteq> [] \<longrightarrow> is_valid_base64_key (g_preshared_key g'))"
proof -
  note f = wire_part_fields [OF assms(2)]
  from parse_config_clean [OF assms(1)] have c: "line_values g" "accept_gateway g = Inr g" by simp_all
  then have "trim_space (g_endpoint g) = g_endpoint g" by (simp add: line_values_def line_value_def)
  with c(2) f assms(3-6) have "validate_vpn_gateway (effective_gateway g') = None"
    by (auto simp: validate_vpn_gateway_def accept_gateway_def effective_gateway_def iface_of_def valid_keys valid_endpoint_trimmed
        not_less split: if_splits)
  moreover have "gateway_lines g' = gateway_lines g" using f by (simp add: gateway_lines_def)
  ultimately show ?thesis using c f by (auto simp: render_lines line_values_def accept_gateway_def valid_keys split: if_splits)
qed

text \<open>C22: an uploaded configuration survives the trip to disk.  Whatever identity the import gives
  it, an accepted gateway renders, and parsing the rendered file accepts it again with the same
  keys, addresses, endpoint, MTU and keepalive.\<close>

theorem gateway_round_trip:
  assumes "parse_config raw = Inr g" "wire_part g' = wire_part g"
    "\<not> blank (g_id g')" "\<not> blank (g_name g')" "\<not> blank (iface_of g')" "g_mtu g = 0 \<or> 1280 \<le> g_mtu g"
  shows "\<exists>t. render_gateway g' = Inr t \<and> parse_config t = Inr (wire_part g)"
  using parsed_renders [OF assms] parse_rendered [of g'] assms(2) by auto

definition allowed_names :: "string list" where
  "allowed_names = [''PrivateKey'', ''Address'', ''MTU'', ''Table'', ''PublicKey'', ''PresharedKey'', ''AllowedIPs'', ''Endpoint'', ''PersistentKeepalive'']"

definition harmless_line :: "string \<Rightarrow> bool" where
  "harmless_line l \<longleftrightarrow> l \<in> {[], ''[Interface]'', ''[Peer]''} \<or> (\<exists>name v. name \<in> set allowed_names \<and> l = option_text name v)"

lemma gateway_lines_harmless: "\<forall>l \<in> set (gateway_lines g). harmless_line l"
  unfolding gateway_lines_def by (simp add: harmless_line_def opt_text_def) (auto simp: allowed_names_def)

text \<open>C23: an upload can never make wg-quick run a command.  Whatever the uploaded text says, every
  line of the file rendered from it is blank, a section header, or one of nine plain options, and
  \<^verbatim>\<open>Table\<close> is always off.\<close>

theorem uploaded_gateway_no_hooks:
  assumes "parse_config raw = Inr g" "wire_part g' = wire_part g" "render_gateway g' = Inr t"
  shows "(\<forall>l \<in> set (split_char (char_of (10 :: nat)) t). harmless_line l)
    \<and> option_text ''Table'' ''off'' \<in> set (split_char (char_of (10 :: nat)) t)"
proof -
  from parse_config_clean [OF assms(1)] wire_part_fields [OF assms(2)] have "line_values g'" by (simp add: line_values_def)
  moreover from assms(3) have "t = unlines (gateway_lines g')" by (simp add: render_lines)
  ultimately have "split_char (char_of (10 :: nat)) t = gateway_lines g' @ [[]]"
    using split_unlines [OF gateway_lines_nl] by simp
  then show ?thesis using gateway_lines_harmless [of g'] by (auto simp: harmless_line_def gateway_lines_def)
qed

definition sample_upload :: string where
  "sample_upload = ''[Interface]'' @ nl @ ''PrivateKey='' @ sample_key @ nl @ ''Address = 10.9.0.2/32'' @ nl @ ''PostUp = rm'' @ nl
     @ ''[Peer]'' @ nl @ ''PublicKey = '' @ sample_key @ nl @ ''AllowedIPs = 0.0.0.0/0'' @ nl @ ''Endpoint = 1.2.3.4:51820'' @ nl"

definition sample_import :: vpn_gateway where
  "sample_import = zero_gateway\<lparr>g_private_key := sample_key, g_address := ''10.9.0.2/32'', g_public_key := sample_key,
     g_allowed_ips := ''0.0.0.0/0'', g_endpoint := ''1.2.3.4:51820''\<rparr>"

lemma sample_parses: "parse_config sample_upload = Inr sample_import"
  by code_simp

definition sample_named :: vpn_gateway where
  "sample_named = sample_import\<lparr>g_id := ''ab'', g_name := ''nl'', g_enabled := True, g_auto_start := True, g_table := 20000\<rparr>"

lemma sample_named_wire: "wire_part sample_named = wire_part sample_import"
  by (simp add: wire_part_def sample_named_def)

theorem gateway_round_trip_witness: "\<exists>t. parse_config t = Inr sample_import"
proof -
  have "\<exists>t. render_gateway sample_named = Inr t \<and> parse_config t = Inr (wire_part sample_import)"
  proof (rule gateway_round_trip [OF sample_parses sample_named_wire])
    show "\<not> blank (g_id sample_named)" "\<not> blank (g_name sample_named)" "\<not> blank (iface_of sample_named)"
      "g_mtu sample_import = 0 \<or> 1280 \<le> g_mtu sample_import" by code_simp+
  qed
  moreover have "wire_part sample_import = sample_import" by (simp add: wire_part_def sample_import_def zero_gateway_def)
  ultimately show ?thesis by auto
qed

lemma sample_renders: obtains t where "render_gateway sample_named = Inr t"
proof -
  have "validate_vpn_gateway (effective_gateway sample_named) = None" by code_simp
  with that show thesis by (simp add: render_lines)
qed

theorem uploaded_gateway_no_hooks_witness:
  "\<exists>t. render_gateway sample_named = Inr t \<and> option_text ''Table'' ''off'' \<in> set (split_char (char_of (10 :: nat)) t)"
proof -
  obtain t where r: "render_gateway sample_named = Inr t" by (rule sample_renders)
  from uploaded_gateway_no_hooks [OF sample_parses sample_named_wire r] r show ?thesis by blast
qed

section \<open>Starting a gateway\<close>

definition is_quick :: "effect \<Rightarrow> bool" where
  "is_quick e \<longleftrightarrow> (case e of Cmd n _ \<Rightarrow> n = ''wg-quick'' | _ \<Rightarrow> False)"

lemma endpoint_route_log:
  "\<exists>es. fst (endpoint_route env log g) = log @ es \<and> (\<forall>e \<in> set es. \<not> is_quick e)"
  by (auto simp: endpoint_route_def perform_def is_quick_def Let_def split: option.splits prod.splits)

lemma default_routes_log: "\<exists>es. fst (default_routes env g as log) = log @ es \<and> (\<forall>e \<in> set es. \<not> is_quick e)"
proof (induction as arbitrary: log)
  case (Cons a as)
  have one: "\<exists>es. fst (default_route env g f l log) = log @ es \<and> (\<forall>e \<in> set es. \<not> is_quick e)" for f l
    by (auto simp: default_route_def perform_def is_quick_def split: prod.splits option.splits)
  show ?case
  proof (cases "parse_cidr (trim_space a)")
    case None
    with Cons show ?thesis by simp
  next
    case (Some p)
    obtain ip n where p: "p = (ip, n)" by (cases p)
    let ?x = "if ipnet_string n = ''0.0.0.0/0'' then default_route env g [] ''IPv4'' log
      else if ipnet_string n = ''::/0'' then default_route env g [''-6''] ''IPv6'' log else (log, None)"
    obtain log' r where x: "?x = (log', r)" by (cases ?x)
    obtain es where es: "log' = log @ es" "\<forall>e \<in> set es. \<not> is_quick e"
      using one [of "[]" "''IPv4''"] one [of "[''-6'']" "''IPv6''"] x by (auto split: if_splits)
    obtain es' where "fst (default_routes env g as log') = log' @ es'" "\<forall>e \<in> set es'. \<not> is_quick e"
      using Cons.IH [of log'] by blast
    with es show ?thesis by (simp only: default_routes.simps Some p option.case prod.case x) (auto split: option.split)
  qed
qed simp

lemma policy_routes_log: "\<exists>es. fst (ensure_policy_routes env log g) = log @ es \<and> (\<forall>e \<in> set es. \<not> is_quick e)"
proof (cases "endpoint_route env log g")
  case (Pair log1 r)
  with endpoint_route_log [of env log g] obtain es where "log1 = log @ es" "\<forall>e \<in> set es. \<not> is_quick e" by auto
  with default_routes_log [of env g "split_char CHR '','' (g_allowed_ips g)" log1] Pair show ?thesis
    by (auto simp: ensure_policy_routes_def split: option.split)
qed

definition gateway_path :: "manager \<Rightarrow> vpn_gateway \<Rightarrow> string" where
  "gateway_path m g = config_path (mg_dir m) (iface_of g)"

lemma report_status [simp]:
  "mg_status (report now g iface enabled running err m) = (mg_status m)(g_id g \<mapsto> zero_status\<lparr>gs_id := g_id g,
     gs_name := g_name g, gs_interface := iface, gs_enabled := enabled, gs_running := running, gs_last_error := err,
     gs_endpoint := g_endpoint g, gs_last_change := now\<rparr>)"
  "mg_dir (report now g iface enabled running err m) = mg_dir m"
  by (simp_all add: report_def)

lemma install_config_cases:
  assumes "install_config env dir iface text log = (log1, r)"
  obtains (ok) "r = None" "log1 = log @ [Mkdir dir, Put (config_path dir iface) text]" | (failed) e where "r = Some e"
  using assms by (auto simp: install_config_def perform_def split: prod.splits option.splits)

text \<open>A tunnel is reported running only when it runs.  Starting succeeds only by writing the
  rendered file, taking the interface down and up with success, and then installing the policy
  routes; on failure the status is not touched, or says not running after the tunnel was taken
  down again.\<close>

theorem start_gateway_sound:
  assumes "start_gateway env now g (m, log) = ((m', log'), r)" "g_enabled g"
  shows "(r = None \<longrightarrow> (\<exists>t es. render_gateway (g\<lparr>g_interface := iface_of g\<rparr>) = Inr t
      \<and> log' = log @ [Mkdir (mg_dir m), Put (gateway_path m g) t, quick ''down'' (gateway_path m g), quick ''up'' (gateway_path m g)] @ es
      \<and> snd (env (log @ [Mkdir (mg_dir m), Put (gateway_path m g) t, quick ''down'' (gateway_path m g)]) (quick ''up'' (gateway_path m g))) = None
      \<and> (\<forall>e \<in> set es. \<not> is_quick e) \<and> (\<exists>st. mg_status m' (g_id g) = Some st \<and> gs_running st)))
    \<and> (r \<noteq> None \<longrightarrow> mg_status m' = mg_status m
        \<or> (last log' = quick ''down'' (gateway_path m g) \<and> (\<exists>st. mg_status m' (g_id g) = Some st \<and> \<not> gs_running st)))"
proof (cases "render_gateway (g\<lparr>g_interface := iface_of g\<rparr>)")
  case (Inl e)
  with assms show ?thesis by (auto simp: start_gateway_def Let_def)
next
  case (Inr t)
  let ?g = "g\<lparr>g_interface := iface_of g\<rparr>" and ?down = "quick ''down'' (gateway_path m g)" and ?up = "quick ''up'' (gateway_path m g)"
  note st = assms(1) [unfolded start_gateway_def Let_def fst_conv snd_conv gateway_path_def [symmetric], simplified assms(2) Inr, simplified]
  obtain log1 r1 where i: "install_config env (mg_dir m) (iface_of g) t log = (log1, r1)"
    by (cases "install_config env (mg_dir m) (iface_of g) t log")
  then show ?thesis
  proof (cases rule: install_config_cases)
    case ok
    obtain out e where u: "env (log1 @ [?down]) ?up = (out, e)" by (cases "env (log1 @ [?down]) ?up")
    obtain log4 r4 where p: "ensure_policy_routes env (log1 @ [?down, ?up]) ?g = (log4, r4)"
      by (cases "ensure_policy_routes env (log1 @ [?down, ?up]) ?g")
    with policy_routes_log [of env "log1 @ [?down, ?up]" ?g] obtain es where
      es: "log4 = log1 @ [?down, ?up] @ es" "\<forall>e \<in> set es. \<not> is_quick e" by auto
    show ?thesis
      using st ok u p es Inr by (auto simp: i perform_def gateway_path_def [symmetric] split: option.splits)
  next
    case (failed e)
    with st i show ?thesis by auto
  qed
qed

theorem start_gateway_sound_witness:
  "\<exists>m' st. fst (fst (start_gateway (\<lambda>_ _. ([], None)) 5 sample_named (new_manager ''/etc'', []))) = m'
     \<and> mg_status m' ''ab'' = Some st \<and> gs_running st"
proof -
  let ?r = "start_gateway (\<lambda>_ _. ([], None)) 5 sample_named (new_manager ''/etc'', [])"
  have "snd ?r = None \<and> g_enabled sample_named \<and> g_id sample_named = ''ab''" by code_simp
  moreover from this obtain m' log' where "?r = ((m', log'), None)" by (metis prod.collapse)
  ultimately show ?thesis using start_gateway_sound [of "\<lambda>_ _. ([], None)" 5 sample_named "new_manager ''/etc''" "[]" m' log' None] by auto
qed

section \<open>Reconciling\<close>

text \<open>What one round leaves in the status map.\<close>

definition status_ok :: "vpn_gateway \<Rightarrow> manager \<Rightarrow> bool" where
  "status_ok g m \<longleftrightarrow> (\<exists>st. mg_status m (g_id g) = Some st \<and> gs_interface st = iface_of g \<and> gs_endpoint st = g_endpoint g
     \<and> gs_enabled st = (g_enabled g \<and> g_auto_start g) \<and> (gs_running st \<longrightarrow> g_enabled g \<and> g_auto_start g \<and> gs_last_error st = []))"

lemma iface_of_idem [simp]: "iface_of (g\<lparr>g_interface := iface_of g\<rparr>) = iface_of g"
  by (simp add: iface_of_def safe_interface_name_def interface_prefix_def Let_def)

lemma reconcile_one:
  "status_ok g (fst (reconcile_gateway env now g s)) \<and> mg_dir (fst (reconcile_gateway env now g s)) = mg_dir (fst s)
   \<and> (\<forall>i. i \<noteq> g_id g \<longrightarrow> mg_status (fst (reconcile_gateway env now g s)) i = mg_status (fst s) i)"
  by (auto simp: reconcile_gateway_def status_ok_def stop_locked_def Let_def split: sum.splits option.splits prod.splits)

lemma reconcile_fold:
  "distinct (map g_id gs) \<Longrightarrow>
   (\<forall>g \<in> set gs. status_ok g (fst (fold (reconcile_gateway env now) gs s)))
   \<and> (\<forall>i. i \<notin> g_id ` set gs \<longrightarrow> mg_status (fst (fold (reconcile_gateway env now) gs s)) i = mg_status (fst s) i)"
proof (induction gs arbitrary: s)
  case (Cons g gs)
  let ?s1 = "reconcile_gateway env now g s"
  from Cons have ih: "\<forall>h \<in> set gs. status_ok h (fst (fold (reconcile_gateway env now) gs ?s1))"
    "\<forall>i. i \<notin> g_id ` set gs \<longrightarrow> mg_status (fst (fold (reconcile_gateway env now) gs ?s1)) i = mg_status (fst ?s1) i"
    by auto
  have "g_id g \<notin> g_id ` set gs" using Cons.prems by auto
  with ih(2) reconcile_one [of g env now s] have "status_ok g (fst (fold (reconcile_gateway env now) gs ?s1))"
    by (simp add: status_ok_def)
  with ih reconcile_one [of g env now s] show ?case by auto
qed simp

text \<open>Reconciling treats every gateway as configured.  In a configuration whose gateways have
  distinct identifiers and tables, as the store keeps it, the tables are left alone; afterwards
  the status of each gateway is its own, enabled exactly if the gateway is enabled and starts
  automatically, running only then, and no other status changes.\<close>

theorem reconcile_gateways_status:
  assumes "reconcile_gateways env now gs s = (gs', m', log')" "distinct (map g_id gs)" "\<forall>g \<in> set gs. g_table g \<noteq> 0"
  shows "gs' = gs \<and> (\<forall>g \<in> set gs. status_ok g m') \<and> (\<forall>i. i \<notin> g_id ` set gs \<longrightarrow> mg_status m' i = mg_status (fst s) i)"
proof -
  have "reserve_tables gs = gs" using assms(3) by (simp add: reserve_tables_def assign_tables_same)
  with assms(1) have "gs' = gs" "m' = fst (fold (reconcile_gateway env now) gs s)" by (auto simp: reconcile_gateways_def Let_def)
  with reconcile_fold [OF assms(2), of env now s] show ?thesis by simp
qed

theorem reconcile_gateways_status_witness:
  "status_ok sample_named (fst (snd (reconcile_gateways (\<lambda>_ _. ([], None)) 5 [sample_named] (new_manager ''/etc'', []))))"
proof -
  let ?r = "reconcile_gateways (\<lambda>_ _. ([], None)) 5 [sample_named] (new_manager ''/etc'', [])"
  have r: "?r = (fst ?r, fst (snd ?r), snd (snd ?r))" by simp
  from reconcile_gateways_status [OF r] show ?thesis by (simp add: sample_named_def)
qed

end
