(* ===== verification/Bgp.thy ===== *)
theory Bgp
  imports Models "HOL-Library.List_Lexorder" "HOL-Library.Char_ord"
begin

text \<open>
  \<^verbatim>\<open>internal/bgp/bgp.go\<close>: the BGP runtime.  The bio-rd library is a parameter: its parsers and
  comparisons are the fields of \<open>bio\<close>, its addresses and prefixes the type variables, and what
  its server answers is decided by the oracles of \<open>host\<close>, which see the log of the actions so far.
  The server has a single routing instance, so it is not written out; the canonical pointers
  of \<^verbatim>\<open>Dedup\<close> are values here.  A Go map is an association list, iterated in an order that the
  host chooses.
\<close>

section \<open>Filters\<close>

datatype matcher = Exact | Or_Longer | In_Range nat nat

datatype 'ip filter_action = Accept | Reject | Redistributed_Next_Hop 'ip

record ('ip, 'p) filter_term =
  tm_name :: string
  tm_conds :: "('p \<times> matcher) list"
  tm_actions :: "'ip filter_action list"

record ('ip, 'p) route_policy =
  rp_name :: string
  rp_terms :: "('ip, 'p) filter_term list"

type_synonym ('ip, 'p) chain = "('ip, 'p) route_policy list"

type_synonym ('ip, 'p) afi = "('ip, 'p) chain \<times> ('ip, 'p) chain"

record ('ip, 'p) peer_config =
  pc_enabled :: bool
  pc_auth_key :: string
  pc_passive :: bool
  pc_ttl :: byte
  pc_reconnect :: gotime
  pc_keepalive :: gotime
  pc_hold :: gotime
  pc_address :: 'ip
  pc_local_as :: u32
  pc_peer_as :: u32
  pc_router_id :: u32
  pc_local_address :: 'ip
  pc_multiprotocol :: bool
  pc_v4 :: "('ip, 'p) afi option"
  pc_v6 :: "('ip, 'p) afi option"

text \<open>The library: parsers, the default prefixes and addresses whose parse errors the code
  ignores, the accept-all chain, and the two comparisons of a running with a wanted peer.\<close>

record ('ip, 'p) bio =
  bio_ip :: "string \<Rightarrow> 'ip option"
  bio_ip_text :: "'ip \<Rightarrow> string"
  bio_prefix :: "string \<Rightarrow> 'p option"
  bio_is_v4 :: "'p \<Rightarrow> bool"
  bio_all_v4 :: 'p
  bio_all_v6 :: 'p
  bio_unspecified :: 'ip
  bio_accept_all :: "('ip, 'p) chain"
  bio_needs_restart :: "('ip, 'p) peer_config \<Rightarrow> ('ip, 'p) peer_config \<Rightarrow> bool"
  bio_chain_equal :: "('ip, 'p) chain \<Rightarrow> ('ip, 'p) chain \<Rightarrow> bool"

definition filter_term_of :: "('ip, 'p) bio \<Rightarrow> nat \<times> route_filter \<Rightarrow> ('ip, 'p) filter_term option" where
  "filter_term_of bio x =
     (case x of (i, f) \<Rightarrow>
        (case bio_prefix bio (rf_prefix f) of
           None \<Rightarrow> None
         | Some p \<Rightarrow> Some \<lparr>tm_name = ''term-'' @ nat_dec i,
             tm_conds = [(p, if to_lower (rf_matcher f) = ''exact'' then Exact else Or_Longer)],
             tm_actions = [if to_lower (rf_action f) = ''accept'' then Accept else Reject]\<rparr>))"

definition build_filter_chain :: "('ip, 'p) bio \<Rightarrow> string \<Rightarrow> route_filter list \<Rightarrow> ('ip, 'p) chain" where
  "build_filter_chain bio kind fs =
     (if fs = [] then bio_accept_all bio
      else [\<lparr>rp_name = kind @ ''-filter'',
             rp_terms = List.map_filter (filter_term_of bio) (enumerate 0 fs)
               @ [\<lparr>tm_name = ''default-reject'', tm_conds = [], tm_actions = [Reject]\<rparr>]\<rparr>])"

definition max_length_term :: "u16 \<Rightarrow> string \<times> 'p \<times> nat \<Rightarrow> ('ip, 'p) filter_term option" where
  "max_length_term limit x =
     (case x of (name, p, bits) \<Rightarrow>
        if bits \<le> unat limit then None
        else Some \<lparr>tm_name = ''reject-'' @ name @ ''-longer-than-'' @ nat_dec (unat limit),
               tm_conds = [(p, In_Range (unat (ucast (limit + 1) :: byte)) bits)], tm_actions = [Reject]\<rparr>)"

definition prepend_max_prefix_length :: "('ip, 'p) bio \<Rightarrow> ('ip, 'p) chain \<Rightarrow> string \<Rightarrow> u16 \<Rightarrow> ('ip, 'p) chain" where
  "prepend_max_prefix_length bio chain kind limit =
     (let terms = List.map_filter (max_length_term limit)
                    [(''ipv4'', bio_all_v4 bio, 32), (''ipv6'', bio_all_v6 bio, 128)] in
      if limit = 0 \<or> terms = [] then chain
      else \<lparr>rp_name = kind @ ''-max-prefix-length'', rp_terms = terms\<rparr> # chain)"

definition reject_local_term :: "('ip, 'p) bio \<Rightarrow> nat \<times> string \<Rightarrow> ('ip, 'p) filter_term option" where
  "reject_local_term bio x =
     (case x of (i, s) \<Rightarrow>
        (case bio_prefix bio s of
           None \<Rightarrow> None
         | Some p \<Rightarrow> Some \<lparr>tm_name = ''reject-local-connected-'' @ nat_dec i, tm_conds = [(p, Exact)],
                          tm_actions = [Reject]\<rparr>))"

definition next_hop_self :: "'ip \<Rightarrow> ('ip, 'p) route_policy" where
  "next_hop_self ip = \<lparr>rp_name = ''redistributed-next-hop-self'',
     rp_terms = [\<lparr>tm_name = ''set-local-session-address'', tm_conds = [],
                   tm_actions = [Redistributed_Next_Hop ip]\<rparr>]\<rparr>"

definition build_export_filter_chain :: "('ip, 'p) bio \<Rightarrow> route_filter list \<Rightarrow> bool \<Rightarrow> u16 \<Rightarrow> string list \<Rightarrow> 'ip option
    \<Rightarrow> ('ip, 'p) chain" where
  "build_export_filter_chain bio fs redistribute limit local next_hop =
     (let chain = prepend_max_prefix_length bio (build_filter_chain bio ''export'' fs) ''advertised'' limit;
          terms = List.map_filter (reject_local_term bio) (enumerate 0 local) in
      if redistribute then (case next_hop of None \<Rightarrow> chain | Some ip \<Rightarrow> next_hop_self ip # chain)
      else if terms = [] then chain
      else \<lparr>rp_name = ''reject-local-connected'', rp_terms = terms\<rparr> # chain)"

text \<open>A path, as far as the next-hop action reads and writes it.\<close>

record 'ip path =
  pa_redistributed :: bool
  pa_next_hop :: 'ip

definition next_hop_action :: "'ip \<Rightarrow> 'ip path option \<Rightarrow> 'ip path option" where
  "next_hop_action ip path =
     (case path of
        None \<Rightarrow> None
      | Some p \<Rightarrow> if pa_redistributed p then Some (p\<lparr>pa_next_hop := ip\<rparr>) else Some p)"

section \<open>Peers\<close>

datatype bgp_error =
    Router_Address string | Router_Family string
  | Peer_Address string string | Peer_Port string u16 | Peer_Max_Length string
  | Local_Address string string | Local_Parse string string
  | Same_Address string | Add_Peer_Failed string string "string option"
  | Kernel_Failed string | Close_Failed string | Discover_Failed string
  | Local_Route_Parse string | Local_Route_Add string string
  | Joined "bgp_error list"

text \<open>The address the kernel would use towards a peer; the dialled socket is the oracle \<open>dial\<close>.\<close>

definition is_unspecified :: "byte list \<Rightarrow> bool" where
  "is_unspecified ip \<longleftrightarrow> to4 ip = Some [0, 0, 0, 0] \<or> ip = replicate 16 0"

definition route_local_address :: "(string \<Rightarrow> byte list \<Rightarrow> string + byte list) \<Rightarrow> string \<Rightarrow> string + string" where
  "route_local_address dial peer_ip =
     (case parse_ip peer_ip of
        None \<Rightarrow> Inl (''invalid peer IP '' @ go_quote peer_ip)
      | Some ip \<Rightarrow>
          (case dial (if to4 ip = None then ''udp6'' else ''udp4'') ip of
             Inl e \<Rightarrow> Inl e
           | Inr local \<Rightarrow>
               if local = [] \<or> is_unspecified local
               then Inl (''kernel returned no usable source address for '' @ peer_ip)
               else Inr (ip_string local)))"

text \<open>The local end of the session.\<close>

definition session_address :: "('ip, 'p) bio \<Rightarrow> (string \<Rightarrow> string + string) \<Rightarrow> server_config \<Rightarrow> bgp_peer \<Rightarrow> bgp_error + 'ip" where
  "session_address bio local_of srv p =
     (if b_redistribute p then
        (case local_of (b_peer_ip p) of
           Inl e \<Rightarrow> Inl (Local_Address (b_name p) e)
         | Inr a \<Rightarrow> (case bio_ip bio a of None \<Rightarrow> Inl (Local_Parse (b_name p) a) | Some ip \<Rightarrow> Inr ip))
      else if s_bgp_address srv = [] then Inr (bio_unspecified bio)
      else Inr (case bio_ip bio (s_bgp_address srv) of None \<Rightarrow> bio_unspecified bio | Some ip \<Rightarrow> ip))"

definition build_peer_config :: "('ip, 'p) bio \<Rightarrow> (string \<Rightarrow> string + string) \<Rightarrow> server_config \<Rightarrow> u32 \<Rightarrow> string list
    \<Rightarrow> bgp_peer \<Rightarrow> bgp_error + 'ip \<times> ('ip, 'p) peer_config" where
  "build_peer_config bio local_of srv router_id local p =
     (case bio_ip bio (b_peer_ip p) of
        None \<Rightarrow> Inl (Peer_Address (b_name p) (b_peer_ip p))
      | Some ip \<Rightarrow>
          if b_peer_port p \<noteq> 179 then Inl (Peer_Port (b_name p) (b_peer_port p))
          else if 128 < b_max_received p \<or> 128 < b_max_advertised p then Inl (Peer_Max_Length (b_name p))
          else (case session_address bio local_of srv p of
                  Inl e \<Rightarrow> Inl e
                | Inr la \<Rightarrow>
                    let af = (prepend_max_prefix_length bio (build_filter_chain bio ''import'' (b_route_filters p)) ''received'' (b_max_received p),
                              build_export_filter_chain bio (b_export_filters p) (b_redistribute p) (b_max_advertised p) local (Some la)) in
                    Inr (ip, \<lparr>pc_enabled = True, pc_auth_key = [], pc_passive = (\<not> b_connect p), pc_ttl = 255,
                      pc_reconnect = 15 * second, pc_keepalive = 30 * second, pc_hold = 90 * second, pc_address = ip,
                      pc_local_as = s_bgp_asn srv, pc_peer_as = b_peer_asn p, pc_router_id = router_id,
                      pc_local_address = la, pc_multiprotocol = True, pc_v4 = Some af, pc_v6 = Some af\<rparr>)))"

fun desired_peers_loop :: "('ip, 'p) bio \<Rightarrow> (string \<Rightarrow> string + string) \<Rightarrow> server_config \<Rightarrow> u32 \<Rightarrow> string list
    \<Rightarrow> bgp_peer list \<Rightarrow> ('ip \<times> ('ip, 'p) peer_config) list \<Rightarrow> bgp_error + ('ip \<times> ('ip, 'p) peer_config) list" where
  "desired_peers_loop bio local_of srv rid local [] acc = Inr acc"
| "desired_peers_loop bio local_of srv rid local (p # ps) acc =
     (if \<not> b_enabled p then desired_peers_loop bio local_of srv rid local ps acc
      else case build_peer_config bio local_of srv rid local p of
             Inl e \<Rightarrow> Inl e
           | Inr (ip, c) \<Rightarrow>
               if map_of acc ip \<noteq> None then Inl (Same_Address (bio_ip_text bio ip))
               else desired_peers_loop bio local_of srv rid local ps (acc @ [(ip, c)]))"

definition desired_peers :: "('ip, 'p) bio \<Rightarrow> (string \<Rightarrow> string + string) \<Rightarrow> app_config \<Rightarrow> u32 \<Rightarrow> string list
    \<Rightarrow> bgp_error + ('ip \<times> ('ip, 'p) peer_config) list" where
  "desired_peers bio local_of cfg rid local =
     desired_peers_loop bio local_of (cfg_server cfg) rid local (cfg_bgp_peers cfg) []"

definition family_changed :: "('ip, 'p) bio \<Rightarrow> ('ip, 'p) afi option \<Rightarrow> ('ip, 'p) afi option \<Rightarrow> bool" where
  "family_changed bio cur des =
     (case (cur, des) of
        (Some c, Some d) \<Rightarrow> \<not> bio_chain_equal bio (fst c) (fst d) \<or> \<not> bio_chain_equal bio (snd c) (snd d)
      | (None, None) \<Rightarrow> False
      | _ \<Rightarrow> True)"

definition peer_needs_replacement :: "('ip, 'p) bio \<Rightarrow> ('ip, 'p) peer_config \<Rightarrow> ('ip, 'p) peer_config \<Rightarrow> bool" where
  "peer_needs_replacement bio cur des \<longleftrightarrow>
     bio_needs_restart bio cur des \<or> family_changed bio (pc_v4 cur) (pc_v4 des) \<or> family_changed bio (pc_v6 cur) (pc_v6 des)"

section \<open>Local and connected prefixes\<close>

datatype net_addr = Addr_Net "byte list" "byte list" | Addr_IP "byte list" | Addr_Text string

definition is_loopback :: "byte list \<Rightarrow> bool" where
  "is_loopback ip = (case to4 ip of Some b \<Rightarrow> hd b = 127 | None \<Rightarrow> ip = replicate 15 0 @ [1])"

definition is_multicast :: "byte list \<Rightarrow> bool" where
  "is_multicast ip = (case to4 ip of Some b \<Rightarrow> hd b AND 0xf0 = 0xe0 | None \<Rightarrow> length ip = 16 \<and> hd ip = 0xff)"

definition is_link_local_unicast :: "byte list \<Rightarrow> bool" where
  "is_link_local_unicast ip =
     (case to4 ip of
        Some b \<Rightarrow> b ! 0 = 169 \<and> b ! 1 = 254
      | None \<Rightarrow> length ip = 16 \<and> ip ! 0 = 0xfe \<and> ip ! 1 AND 0xc0 = 0x80)"

definition is_link_local_multicast :: "byte list \<Rightarrow> bool" where
  "is_link_local_multicast ip =
     (case to4 ip of
        Some b \<Rightarrow> b ! 0 = 224 \<and> b ! 1 = 0 \<and> b ! 2 = 0
      | None \<Rightarrow> length ip = 16 \<and> ip ! 0 = 0xff \<and> ip ! 1 AND 0x0f = 0x02)"

text \<open>\<^verbatim>\<open>IPMask.Size\<close>: ones and bits of a canonical mask, \<open>(0, 0)\<close> for any other; and \<^verbatim>\<open>IP.Mask\<close>,
  which is nil when the lengths differ.\<close>

definition mask_size :: "byte list \<Rightarrow> nat \<times> nat" where
  "mask_size m =
     (case find (\<lambda>k. mask_bytes k (length m) = m) [0..<8 * length m + 1] of
        None \<Rightarrow> (0, 0) | Some k \<Rightarrow> (k, 8 * length m))"

definition masked :: "byte list \<Rightarrow> byte list \<Rightarrow> byte list" where
  "masked ip m =
     (let m' = (if length m = 16 \<and> length ip = 4 \<and> take 12 m = replicate 12 255 then drop 12 m else m);
          ip' = (if length m' = 4 \<and> length ip = 16 \<and> take 12 ip = v4_in_v6 then drop 12 ip else ip) in
      if length m' = length ip' then and_bytes ip' m' else [])"

definition addr_parts :: "net_addr \<Rightarrow> (byte list \<times> byte list) option" where
  "addr_parts a =
     (case a of
        Addr_Net ip m \<Rightarrow> Some (ip, m)
      | Addr_IP ip \<Rightarrow> Some (ip, if to4 ip \<noteq> None then cidr_mask 32 32 else cidr_mask 128 128)
      | Addr_Text s \<Rightarrow> map_option (\<lambda>(ip, n). (ip, net_mask n)) (parse_cidr s))"

definition addr_prefixes :: "net_addr \<Rightarrow> string list" where
  "addr_prefixes a =
     (case addr_parts a of
        None \<Rightarrow> []
      | Some (ip, m) \<Rightarrow>
          if is_unspecified ip \<or> is_loopback ip \<or> is_multicast ip \<or> is_link_local_unicast ip \<or> is_link_local_multicast ip
          then []
          else (case mask_size m of (ones, bits) \<Rightarrow>
                  if bits \<noteq> 32 \<and> bits \<noteq> 128 then []
                  else [ipnet_string \<lparr>net_ip = masked ip m, net_ones = ones, net_bits = bits\<rparr>,
                        ip_string ip @ ''/'' @ nat_dec bits]))"

definition local_and_connected_prefixes :: "net_addr list \<Rightarrow> string list" where
  "local_and_connected_prefixes as = sort (dedup (concat (map addr_prefixes as)))"

section \<open>The host\<close>

datatype ('ip, 'p) action =
    Peer_Added "('ip, 'p) peer_config" | Peer_Refused "('ip, 'p) peer_config" | Peer_Disposed 'ip
  | Path_Added 'p | Path_Refused 'p | Path_Removed 'p
  | Kernel_Opened | Kernel_Refused | Server_Created u32 "string list" | Server_Started
  | Listeners_Closed | Kernel_Disposed

type_synonym ('ip, 'p) actions = "('ip, 'p) action list"

record ('ip, 'p) host =
  ho_peers :: "('ip, 'p) actions \<Rightarrow> 'ip list"
  ho_config :: "('ip, 'p) actions \<Rightarrow> 'ip \<Rightarrow> ('ip, 'p) peer_config option"
  ho_add :: "('ip, 'p) actions \<Rightarrow> ('ip, 'p) peer_config \<Rightarrow> string option"
  ho_path :: "('ip, 'p) actions \<Rightarrow> 'p \<Rightarrow> string option"
  ho_kernel :: "('ip, 'p) actions \<Rightarrow> string option"
  ho_close :: "('ip, 'p) actions \<Rightarrow> string option"
  ho_dial :: "('ip, 'p) actions \<Rightarrow> string \<Rightarrow> byte list \<Rightarrow> string + byte list"
  ho_addresses :: "('ip, 'p) actions \<Rightarrow> string + net_addr list"
  ho_peer_order :: "('ip \<times> ('ip, 'p) peer_config) list \<Rightarrow> ('ip \<times> ('ip, 'p) peer_config) list"
  ho_route_order :: "(string \<times> 'p) list \<Rightarrow> (string \<times> 'p) list"

definition try_add :: "('ip, 'p) host \<Rightarrow> ('ip, 'p) peer_config \<Rightarrow> ('ip, 'p) actions \<Rightarrow> ('ip, 'p) actions \<times> string option" where
  "try_add h c log =
     (case ho_add h log c of
        None \<Rightarrow> (log @ [Peer_Added c], None)
      | Some e \<Rightarrow> (log @ [Peer_Refused c], Some e))"

section \<open>Reconciling the peers\<close>

definition reconcile_peer :: "('ip, 'p) bio \<Rightarrow> ('ip, 'p) host \<Rightarrow> 'ip \<times> ('ip, 'p) peer_config
    \<Rightarrow> ('ip, 'p) actions \<times> bgp_error list \<Rightarrow> ('ip, 'p) actions \<times> bgp_error list" where
  "reconcile_peer bio h d s =
     (case (d, s) of ((ip, c), (log, errs)) \<Rightarrow>
        (case ho_config h log ip of
           None \<Rightarrow>
             (case try_add h c log of
                (log1, None) \<Rightarrow> (log1, errs)
              | (log1, Some e) \<Rightarrow> (log1, errs @ [Add_Peer_Failed (bio_ip_text bio ip) e None]))
         | Some old \<Rightarrow>
             if \<not> peer_needs_replacement bio old c then (log, errs)
             else (case try_add h c (log @ [Peer_Disposed ip]) of
                     (log1, None) \<Rightarrow> (log1, errs)
                   | (log1, Some e) \<Rightarrow>
                       (case try_add h old log1 of
                          (log2, e') \<Rightarrow> (log2, errs @ [Add_Peer_Failed (bio_ip_text bio ip) e e'])))))"

definition join_errors :: "bgp_error list \<Rightarrow> bgp_error option" where
  "join_errors es = (if es = [] then None else Some (Joined es))"

definition reconcile_peers :: "('ip, 'p) bio \<Rightarrow> ('ip, 'p) host \<Rightarrow> u32 \<Rightarrow> app_config \<Rightarrow> string list \<Rightarrow> ('ip, 'p) actions
    \<Rightarrow> ('ip, 'p) actions \<times> bgp_error option" where
  "reconcile_peers bio h rid cfg local log =
     (case desired_peers bio (route_local_address (ho_dial h log)) cfg rid local of
        Inl e \<Rightarrow> (log, Some e)
      | Inr des \<Rightarrow>
          let log1 = log @ map Peer_Disposed (filter (\<lambda>ip. map_of des ip = None) (ho_peers h log));
              (log2, errs) = fold (reconcile_peer bio h) (ho_peer_order h des) (log1, []) in
          (log2, join_errors errs))"

section \<open>The runtime\<close>

record bgp_server_state =
  rs_router_id :: u32
  rs_asn :: u32
  rs_listen_address :: string
  rs_listen_port :: u16
  rs_extra_listen :: string

record 'p bgp_runtime =
  rt_state :: bgp_server_state
  rt_local :: "(string \<times> 'p) list"
  rt_names :: "string \<Rightarrow> string option"

definition wants_local_routes :: "app_config \<Rightarrow> bool" where
  "wants_local_routes cfg = list_ex (\<lambda>p. b_enabled p \<and> b_redistribute p) (cfg_bgp_peers cfg)"

definition desired_local_prefixes :: "('ip, 'p) host \<Rightarrow> app_config \<Rightarrow> ('ip, 'p) actions \<Rightarrow> bgp_error + string list" where
  "desired_local_prefixes h cfg log =
     (if wants_local_routes cfg then
        (case ho_addresses h log of
           Inl e \<Rightarrow> Inl (Discover_Failed e) | Inr as \<Rightarrow> Inr (local_and_connected_prefixes as))
      else Inr [])"

definition session_names :: "('ip, 'p) bio \<Rightarrow> app_config \<Rightarrow> string \<Rightarrow> string option" where
  "session_names bio cfg =
     foldl (\<lambda>m p. if b_enabled p \<and> b_peer_ip p \<noteq> []
                  then m((case bio_ip bio (b_peer_ip p) of Some ip \<Rightarrow> bio_ip_text bio ip | None \<Rightarrow> b_peer_ip p) \<mapsto> b_name p)
                  else m) (\<lambda>_. None) (cfg_bgp_peers cfg)"

fun install_routes :: "('ip, 'p) bio \<Rightarrow> ('ip, 'p) host \<Rightarrow> string list \<Rightarrow> 'p bgp_runtime \<Rightarrow> ('ip, 'p) actions
    \<Rightarrow> 'p bgp_runtime \<times> ('ip, 'p) actions \<times> bgp_error option" where
  "install_routes bio h [] rt log = (rt, log, None)"
| "install_routes bio h (s # ss) rt log =
     (if map_of (rt_local rt) s \<noteq> None then install_routes bio h ss rt log
      else case bio_prefix bio s of
             None \<Rightarrow> (rt, log, Some (Local_Route_Parse s))
           | Some p \<Rightarrow>
               (case ho_path h log p of
                  Some e \<Rightarrow> (rt, log @ [Path_Refused p], Some (Local_Route_Add s e))
                | None \<Rightarrow> install_routes bio h ss (rt\<lparr>rt_local := rt_local rt @ [(s, p)]\<rparr>) (log @ [Path_Added p])))"

definition withdraw_routes :: "('ip, 'p) host \<Rightarrow> string list \<Rightarrow> 'p bgp_runtime \<Rightarrow> ('ip, 'p) actions
    \<Rightarrow> 'p bgp_runtime \<times> ('ip, 'p) actions" where
  "withdraw_routes h wanted rt log =
     (rt\<lparr>rt_local := filter (\<lambda>x. fst x \<in> set wanted) (rt_local rt)\<rparr>,
      log @ map (\<lambda>x. Path_Removed (snd x)) (filter (\<lambda>x. fst x \<notin> set wanted) (ho_route_order h (rt_local rt))))"

definition apply_runtime_config :: "('ip, 'p) bio \<Rightarrow> ('ip, 'p) host \<Rightarrow> app_config \<Rightarrow> 'p bgp_runtime \<Rightarrow> ('ip, 'p) actions
    \<Rightarrow> 'p bgp_runtime \<times> ('ip, 'p) actions \<times> bgp_error option" where
  "apply_runtime_config bio h cfg rt log =
     (case desired_local_prefixes h cfg log of
        Inl e \<Rightarrow> (rt, log, Some e)
      | Inr local \<Rightarrow>
          (case withdraw_routes h local rt log of (rt1, log1) \<Rightarrow>
            (case reconcile_peers bio h (rs_router_id (rt_state rt)) cfg local log1 of
               (log2, Some e) \<Rightarrow> (rt1, log2, Some e)
             | (log2, None) \<Rightarrow> install_routes bio h local (rt1\<lparr>rt_names := session_names bio cfg\<rparr>) log2)))"

definition shutdown :: "('ip, 'p) host \<Rightarrow> ('ip, 'p) actions \<Rightarrow> ('ip, 'p) actions \<times> bgp_error option" where
  "shutdown h log =
     (let log1 = log @ map Peer_Disposed (ho_peers h log) in
      (log1 @ [Listeners_Closed, Kernel_Disposed], map_option Close_Failed (ho_close h log1)))"

definition join_host_port :: "string \<Rightarrow> string \<Rightarrow> string" where
  "join_host_port host port =
     (if CHR '':'' \<in> set host then ''['' @ host @ '']:'' @ port else host @ '':'' @ port)"

definition listen_addresses :: "bgp_server_state \<Rightarrow> string list" where
  "listen_addresses st =
     (let port = nat_dec (unat (rs_listen_port st)) in
      join_host_port (rs_listen_address st) port
      # map (\<lambda>host. join_host_port host port) (filter (\<lambda>host. host \<noteq> []) (split_char CHR '','' (rs_extra_listen st))))"

definition start_runtime :: "('ip, 'p) bio \<Rightarrow> ('ip, 'p) host \<Rightarrow> app_config \<Rightarrow> bgp_server_state \<Rightarrow> ('ip, 'p) actions
    \<Rightarrow> ('ip, 'p) actions \<times> (bgp_error + 'p bgp_runtime)" where
  "start_runtime bio h cfg st log =
     (case ho_kernel h log of
        Some e \<Rightarrow> (log @ [Kernel_Refused], Inl (Kernel_Failed e))
      | None \<Rightarrow>
          (case apply_runtime_config bio h cfg \<lparr>rt_state = st, rt_local = [], rt_names = (\<lambda>_. None)\<rparr>
                  (log @ [Kernel_Opened, Server_Created (rs_router_id st) (listen_addresses st)]) of
             (_, log1, Some e) \<Rightarrow> (fst (shutdown h log1), Inl e)
           | (rt, log1, None) \<Rightarrow> (log1 @ [Server_Started], Inr rt)))"

section \<open>Configure\<close>

record 'p engine =
  en_active :: "'p bgp_runtime option"
  en_zerotier :: "gateway_net list option"

definition set_zerotier_provider :: "gateway_net list option \<Rightarrow> 'p engine \<Rightarrow> 'p engine" where
  "set_zerotier_provider f en = en\<lparr>en_zerotier := f\<rparr>"

definition router_id_from_address :: "string \<Rightarrow> bgp_error + u32" where
  "router_id_from_address cidr =
     (let s = trim_space (hd (split_char CHR '','' cidr)) in
      case parse_cidr s of
        None \<Rightarrow> Inl (Router_Address s)
      | Some (ip, _) \<Rightarrow>
          (case to4 ip of
             None \<Rightarrow> Inl (Router_Family (ip_string ip))
           | Some b \<Rightarrow> Inr (word_rcat b)))"

fun extra_hosts_loop :: "string list \<Rightarrow> gateway_net list \<Rightarrow> string list" where
  "extra_hosts_loop seen [] = []"
| "extra_hosts_loop seen (n # ns) =
     (case parse_cidr (trim_space (gn_cidr n)) of
        None \<Rightarrow> extra_hosts_loop seen ns
      | Some (ip, _) \<Rightarrow>
          if ip_string ip \<in> set seen then extra_hosts_loop seen ns
          else ip_string ip # extra_hosts_loop (ip_string ip # seen) ns)"

definition extra_listen_hosts :: "gateway_net list option \<Rightarrow> string \<Rightarrow> string list" where
  "extra_listen_hosts zerotier primary =
     (case zerotier of
        None \<Rightarrow> []
      | Some nets \<Rightarrow> if primary = ''::'' \<or> primary = ''0.0.0.0'' then [] else sort (extra_hosts_loop [primary] nets))"

definition state_for :: "gateway_net list option \<Rightarrow> server_config \<Rightarrow> u32 \<Rightarrow> bgp_server_state" where
  "state_for zerotier srv rid =
     (let a0 = trim_space (s_bgp_address srv); a = (if a0 = [] then ''::'' else a0) in
      \<lparr>rs_router_id = rid, rs_asn = s_bgp_asn srv, rs_listen_address = a, rs_listen_port = s_bgp_port srv,
       rs_extra_listen = join '','' (extra_listen_hosts zerotier a)\<rparr>)"

definition stop_engine :: "('ip, 'p) host \<Rightarrow> 'p engine \<Rightarrow> ('ip, 'p) actions \<Rightarrow> 'p engine \<times> ('ip, 'p) actions \<times> bgp_error option" where
  "stop_engine h en log =
     (case en_active en of
        None \<Rightarrow> (en, log, None)
      | Some _ \<Rightarrow> (case shutdown h log of (log1, e) \<Rightarrow> (en\<lparr>en_active := None\<rparr>, log1, e)))"

definition start_engine :: "('ip, 'p) bio \<Rightarrow> ('ip, 'p) host \<Rightarrow> app_config \<Rightarrow> bgp_server_state \<Rightarrow> 'p engine \<Rightarrow> ('ip, 'p) actions
    \<Rightarrow> 'p engine \<times> ('ip, 'p) actions \<times> bgp_error option" where
  "start_engine bio h cfg st en log =
     (case start_runtime bio h cfg st log of
        (log1, Inl e) \<Rightarrow> (en, log1, Some e)
      | (log1, Inr rt) \<Rightarrow> (en\<lparr>en_active := Some rt\<rparr>, log1, None))"

definition configure :: "('ip, 'p) bio \<Rightarrow> ('ip, 'p) host \<Rightarrow> app_config \<Rightarrow> 'p engine \<Rightarrow> ('ip, 'p) actions
    \<Rightarrow> 'p engine \<times> ('ip, 'p) actions \<times> bgp_error option" where
  "configure bio h cfg en log =
     (if \<not> s_bgp_enabled (cfg_server cfg) then stop_engine h en log
      else case router_id_from_address (s_address (cfg_server cfg)) of
             Inl e \<Rightarrow> (en, log, Some e)
           | Inr rid \<Rightarrow>
               let st = state_for (en_zerotier en) (cfg_server cfg) rid in
               (case en_active en of
                  None \<Rightarrow> start_engine bio h cfg st en log
                | Some rt \<Rightarrow>
                    if rt_state rt \<noteq> st then
                      (case stop_engine h en log of
                         (en1, log1, Some e) \<Rightarrow> (en1, log1, Some e)
                       | (en1, log1, None) \<Rightarrow> start_engine bio h cfg st en1 log1)
                    else (case apply_runtime_config bio h cfg rt log of
                            (rt1, log1, e) \<Rightarrow> (en\<lparr>en_active := Some rt1\<rparr>, log1, e))))"

section \<open>Advertised routes\<close>

text \<open>One peer's prefixes, from the dumps of the two address families, and the text that the
  watcher compares between two rounds.\<close>

definition advertised_prefixes :: "string list option \<Rightarrow> string list option \<Rightarrow> string list" where
  "advertised_prefixes v4 v6 = sort (dedup (the_default [] v4 @ the_default [] v6))"

definition advertised_signature :: "(string \<times> string list) list \<Rightarrow> string" where
  "advertised_signature routes =
     concat (map (\<lambda>peer. peer @ ''='' @ join '','' (sort (the_default [] (map_of routes peer))) @ '';'')
                 (sort (map fst routes)))"

end
