(* ===== verification/Bgp_Spec.thy ===== *)
theory Bgp_Spec
  imports Bgp "HOL-Library.Multiset"
begin

text \<open>
  What the BGP runtime guarantees: peers converge to the configuration, export chains mean what
  the filters of the peer say, and no locally originated route is advertised to a peer that did
  not ask for it, at any moment of any run.
\<close>

section \<open>What the log says\<close>

text \<open>The peers the server serves and the locally originated prefixes, replayed from the log.\<close>

fun serve :: "('ip, 'p) action \<Rightarrow> ('ip \<Rightarrow> ('ip, 'p) peer_config option) \<Rightarrow> ('ip \<Rightarrow> ('ip, 'p) peer_config option)" where
  "serve (Peer_Added c) m = m(pc_address c \<mapsto> c)"
| "serve (Peer_Disposed ip) m = m(ip := None)"
| "serve (Server_Created rid addrs) m = (\<lambda>_. None)"
| "serve _ m = m"

definition served :: "('ip, 'p) actions \<Rightarrow> 'ip \<Rightarrow> ('ip, 'p) peer_config option" where
  "served log = fold serve log (\<lambda>_. None)"

fun originate :: "('ip, 'p) action \<Rightarrow> 'p set \<Rightarrow> 'p set" where
  "originate (Path_Added p) r = insert p r"
| "originate (Path_Removed p) r = r - {p}"
| "originate (Server_Created rid addrs) r = {}"
| "originate _ r = r"

definition rib :: "('ip, 'p) actions \<Rightarrow> 'p set" where
  "rib log = fold originate log {}"

lemma served_snoc [simp]: "served [] = (\<lambda>_. None)" "served (log @ [a]) = serve a (served log)"
  by (simp_all add: served_def)

lemma rib_snoc [simp]: "rib [] = {}" "rib (log @ [a]) = originate a (rib log)"
  by (simp_all add: rib_def)

lemma served_append: "served (log @ as) = fold serve as (served log)"
  by (simp add: served_def)

lemma rib_append: "rib (log @ as) = fold originate as (rib log)"
  by (simp add: rib_def)

text \<open>The documented behaviour of the server: it serves exactly the peers that were added and
  not disposed of since.  An iteration order is a permutation.\<close>

definition host_ok :: "('ip, 'p) host \<Rightarrow> bool" where
  "host_ok h \<longleftrightarrow> (\<forall>log. set (ho_peers h log) = dom (served log) \<and> ho_config h log = served log)
     \<and> (\<forall>xs. mset (ho_peer_order h xs) = mset xs) \<and> (\<forall>xs. mset (ho_route_order h xs) = mset xs)"

lemma host_okD:
  assumes "host_ok h"
  shows "set (ho_peers h log) = dom (served log)" "ho_config h log = served log"
    "set (ho_peer_order h xs) = set xs" "set (ho_route_order h ys) = set ys"
    "mset (ho_peer_order h xs) = mset xs"
  using assms by (simp_all add: host_ok_def mset_eq_setD [of "ho_peer_order h xs" xs] mset_eq_setD [of "ho_route_order h ys" ys])

section \<open>Export chains\<close>

text \<open>A chain without its names; the library compares chains up to names.\<close>

definition bare :: "('ip, 'p) route_policy \<Rightarrow> (('p \<times> matcher) list \<times> 'ip filter_action list) list" where
  "bare pol = map (\<lambda>t. (tm_conds t, tm_actions t)) (rp_terms pol)"

definition opted_chain :: "('ip, 'p) chain \<Rightarrow> bool" where
  "opted_chain e \<longleftrightarrow> (\<exists>ip pol e'. e = pol # e' \<and> bare pol = [([], [Redistributed_Next_Hop ip])])"

definition guard_chain :: "'p \<Rightarrow> ('ip, 'p) chain \<Rightarrow> bool" where
  "guard_chain p e \<longleftrightarrow> (\<exists>pol e'. e = pol # e' \<and> (\<forall>t \<in> set (bare pol). snd t = [Reject]) \<and> ([(p, Exact)], [Reject]) \<in> set (bare pol))"

definition bio_ok :: "('ip, 'p) bio \<Rightarrow> bool" where
  "bio_ok bio \<longleftrightarrow> (\<forall>a b. bio_chain_equal bio a b \<longrightarrow> map bare a = map bare b)
     \<and> (\<forall>pol \<in> set (bio_accept_all bio). \<forall>t \<in> set (rp_terms pol). \<forall>ip. Redistributed_Next_Hop ip \<notin> set (tm_actions t))"

definition exports :: "('ip, 'p) peer_config \<Rightarrow> ('ip, 'p) chain list" where
  "exports c = (case pc_v4 c of None \<Rightarrow> [] | Some a \<Rightarrow> [snd a]) @ (case pc_v6 c of None \<Rightarrow> [] | Some a \<Rightarrow> [snd a])"

definition safe_for :: "'p \<Rightarrow> ('ip, 'p) peer_config \<Rightarrow> bool" where
  "safe_for p c \<longleftrightarrow> (\<forall>e \<in> set (exports c). opted_chain e \<or> guard_chain p e)"

lemma exports_Some [simp]: "pc_v4 c = Some a \<Longrightarrow> pc_v6 c = Some b \<Longrightarrow> exports c = [snd a, snd b]"
  by (simp add: exports_def)

lemma opted_chain_bare: "map bare a = map bare b \<Longrightarrow> opted_chain a = opted_chain b"
  by (cases a; cases b) (auto simp: opted_chain_def)

lemma guard_chain_bare: "map bare a = map bare b \<Longrightarrow> guard_chain p a = guard_chain p b"
  by (cases a; cases b) (auto simp: guard_chain_def)

lemma set_map_filter: "set (List.map_filter f xs) = {y. \<exists>x \<in> set xs. f x = Some y}"
  by (induction xs) (auto simp: List.map_filter_simps split: option.splits)

lemma reject_local_terms:
  assumes "t \<in> set (List.map_filter (reject_local_term bio) (enumerate 0 local))"
  shows "tm_actions t = [Reject]"
  using assms by (auto simp: set_map_filter reject_local_term_def split: option.splits)

lemma reject_local_terms_cover:
  assumes "s \<in> set local" "bio_prefix bio s = Some p"
  shows "\<exists>t \<in> set (List.map_filter (reject_local_term bio) (enumerate 0 local)). tm_conds t = [(p, Exact)] \<and> tm_actions t = [Reject]"
proof -
  from assms(1) obtain i where "(i, s) \<in> set (enumerate 0 local)" by (auto simp: in_set_conv_nth enumerate_eq_zip) (metis add_0 length_upt minus_nat.diff_0 nth_upt nth_zip)
  with assms(2) show ?thesis
    by (intro bexI [of _ "\<lparr>tm_name = ''reject-local-connected-'' @ nat_dec i, tm_conds = [(p, Exact)], tm_actions = [Reject]\<rparr>"])
      (auto simp: set_map_filter reject_local_term_def intro!: bexI [of _ "(i, s)"])
qed

lemma export_chain_guards:
  assumes "s \<in> set local" "bio_prefix bio s = Some p"
  shows "opted_chain (build_export_filter_chain bio fs red lim local (Some la)) \<or> guard_chain p (build_export_filter_chain bio fs red lim local (Some la))"
proof (cases red)
  case True
  then show ?thesis by (simp add: build_export_filter_chain_def opted_chain_def next_hop_self_def bare_def)
next
  case False
  let ?ts = "List.map_filter (reject_local_term bio) (enumerate 0 local)"
  from reject_local_terms_cover [OF assms] obtain t where t: "t \<in> set ?ts" "tm_conds t = [(p, Exact)]" "tm_actions t = [Reject]" by blast
  then have "([(p, Exact)], [Reject]) \<in> (\<lambda>t. (tm_conds t, tm_actions t)) ` set ?ts" by (metis (mono_tags, lifting) image_eqI)
  moreover have "?ts \<noteq> []" using t(1) by auto
  ultimately show ?thesis using False reject_local_terms [of _ bio local]
    by (auto simp: build_export_filter_chain_def guard_chain_def bare_def Let_def)
qed

definition no_next_hop :: "('ip, 'p) chain \<Rightarrow> bool" where
  "no_next_hop e \<longleftrightarrow> (\<forall>pol \<in> set e. \<forall>t \<in> set (rp_terms pol). \<forall>ip. Redistributed_Next_Hop ip \<notin> set (tm_actions t))"

lemma no_next_hop_not_opted: "no_next_hop e \<Longrightarrow> \<not> opted_chain e"
  by (auto simp: no_next_hop_def opted_chain_def bare_def map_eq_Cons_conv)

lemma no_next_hop_build: "bio_ok bio \<Longrightarrow> no_next_hop (build_filter_chain bio kind fs)"
  by (auto simp: no_next_hop_def build_filter_chain_def bio_ok_def set_map_filter filter_term_of_def split: option.splits if_splits)

lemma no_next_hop_max: "no_next_hop e \<Longrightarrow> no_next_hop (prepend_max_prefix_length bio e kind lim)"
  by (auto simp: no_next_hop_def prepend_max_prefix_length_def Let_def set_map_filter max_length_term_def split: if_splits)

lemma export_chain_opted:
  assumes "bio_ok bio"
  shows "opted_chain (build_export_filter_chain bio fs red lim local (Some la)) = red"
proof (cases red)
  case True
  then show ?thesis by (simp add: build_export_filter_chain_def opted_chain_def next_hop_self_def bare_def)
next
  case False
  have "no_next_hop (build_export_filter_chain bio fs red lim local (Some la))"
    using False no_next_hop_max [OF no_next_hop_build [OF assms], of bio] reject_local_terms [of _ bio local]
    by (force simp: build_export_filter_chain_def Let_def no_next_hop_def)
  with False show ?thesis by (simp add: no_next_hop_not_opted)
qed


lemma build_peer_configD:
  assumes "build_peer_config bio lof srv rid local p = Inr (ip, c)"
  shows "pc_address c = ip" "bio_ip bio (b_peer_ip p) = Some ip"
    "exports c = replicate 2 (build_export_filter_chain bio (b_export_filters p) (b_redistribute p) (b_max_advertised p) local (Some (pc_local_address c)))"
  using assms by (auto simp: build_peer_config_def Let_def numeral_2_eq_2 split: option.splits if_splits sum.splits)

text \<open>Where a peer configuration comes from.\<close>

definition built_from :: "('ip, 'p) bio \<Rightarrow> bgp_peer \<Rightarrow> ('ip, 'p) peer_config \<Rightarrow> bool" where
  "built_from bio p c \<longleftrightarrow> (\<exists>lof srv rid local. build_peer_config bio lof srv rid local p = Inr (pc_address c, c))"

lemma desired_peers_loopD:
  assumes "desired_peers_loop bio lof srv rid local ps acc = Inr des"
    "\<And>ip c. (ip, c) \<in> set acc \<Longrightarrow> \<exists>p. b_enabled p \<and> build_peer_config bio lof srv rid local p = Inr (ip, c)"
    "distinct (map fst acc)"
  shows "distinct (map fst des) \<and> (\<forall>(ip, c) \<in> set des. \<exists>p. b_enabled p \<and> build_peer_config bio lof srv rid local p = Inr (ip, c))"
  using assms
proof (induction ps arbitrary: acc)
  case (Cons p ps)
  show ?case
  proof (cases "b_enabled p")
    case False
    with Cons show ?thesis by simp
  next
    case True
    with Cons.prems(1) obtain ip c where b: "build_peer_config bio lof srv rid local p = Inr (ip, c)" "map_of acc ip = None"
      "desired_peers_loop bio lof srv rid local ps (acc @ [(ip, c)]) = Inr des"
      by (auto split: sum.splits if_splits)
    show ?thesis
      by (rule Cons.IH [OF b(3)]) (use Cons.prems(2,3) b(1,2) True in \<open>auto simp: map_of_eq_None_iff\<close>)
  qed
qed auto

lemma desired_peersD:
  assumes "desired_peers bio lof cfg rid local = Inr des"
  shows "distinct (map fst des)"
    "(ip, c) \<in> set des \<Longrightarrow> \<exists>p. b_enabled p \<and> build_peer_config bio lof (cfg_server cfg) rid local p = Inr (ip, c)"
  using desired_peers_loopD [OF assms [unfolded desired_peers_def]] by auto

lemma desired_address: "desired_peers bio lof cfg rid local = Inr des \<Longrightarrow> (ip, c) \<in> set des \<Longrightarrow> pc_address c = ip"
  using desired_peersD(2) build_peer_configD(1) by fast

lemma desired_built:
  assumes "desired_peers bio lof cfg rid local = Inr des" "(ip, c) \<in> set des"
  shows "\<exists>p. b_enabled p \<and> built_from bio p c"
  using desired_peersD(2) [OF assms] desired_address [OF assms] unfolding built_from_def by fast

lemma desired_safe:
  assumes "desired_peers bio lof cfg rid local = Inr des" "(ip, c) \<in> set des" "s \<in> set local" "bio_prefix bio s = Some p"
  shows "safe_for p c"
proof -
  from desired_peersD(2) [OF assms(1,2)] obtain q where "build_peer_config bio lof (cfg_server cfg) rid local q = Inr (ip, c)" by blast
  from build_peer_configD(3) [OF this] export_chain_guards [OF assms(3,4)] show ?thesis by (simp add: safe_for_def)
qed

section \<open>Every moment is safe\<close>

definition leak_free :: "('ip, 'p) bio \<Rightarrow> ('ip, 'p) actions \<Rightarrow> bool" where
  "leak_free bio log \<longleftrightarrow> (\<forall>c \<in> ran (served log). (\<exists>p. b_enabled p \<and> built_from bio p c) \<and> (\<forall>x \<in> rib log. safe_for x c))"

definition safe_log :: "('ip, 'p) bio \<Rightarrow> ('ip, 'p) actions \<Rightarrow> bool" where
  "safe_log bio log \<longleftrightarrow> (\<forall>xs ys. log = xs @ ys \<longrightarrow> leak_free bio xs)"

lemma safe_log_snoc: "safe_log bio (log @ [a]) \<longleftrightarrow> safe_log bio log \<and> leak_free bio (log @ [a])"
proof -
  have "log @ [a] = xs @ ys \<longleftrightarrow> (\<exists>ys'. ys = ys' @ [a] \<and> log = xs @ ys') \<or> ys = [] \<and> xs = log @ [a]" for xs ys
    by (cases ys rule: rev_cases) auto
  then show ?thesis unfolding safe_log_def by blast
qed

lemma safe_logD: "safe_log bio log \<Longrightarrow> leak_free bio log"
  by (simp add: safe_log_def)

lemma safe_log_Nil [simp]: "safe_log bio []"
  by (simp add: safe_log_def leak_free_def)

definition harmless :: "('ip, 'p) action \<Rightarrow> bool" where
  "harmless a \<longleftrightarrow> (\<forall>c. a \<noteq> Peer_Added c) \<and> (\<forall>p. a \<noteq> Path_Added p)"

lemma ran_upd_None: "ran (m(k := None)) \<subseteq> ran m"
  by (auto simp: ran_def)

lemma leak_free_harmless: "leak_free bio log \<Longrightarrow> harmless a \<Longrightarrow> leak_free bio (log @ [a])"
  by (cases a) (auto simp: leak_free_def harmless_def dest: subsetD [OF ran_upd_None])

lemma safe_log_harmless: "safe_log bio log \<Longrightarrow> list_all harmless as \<Longrightarrow> safe_log bio (log @ as)"
proof (induction as rule: rev_induct)
  case (snoc a as)
  then have "safe_log bio (log @ as)" "harmless a" by simp_all
  with safe_log_snoc [of bio "log @ as" a] leak_free_harmless safe_logD show ?case by (metis append.assoc)
qed simp

lemma leak_free_add_peer:
  assumes "leak_free bio log" "\<exists>p. b_enabled p \<and> built_from bio p c" "\<forall>x \<in> rib log. safe_for x c"
  shows "leak_free bio (log @ [Peer_Added c])"
proof -
  have "ran ((served log)(pc_address c \<mapsto> c)) \<subseteq> insert c (ran (served log))" by (auto simp: ran_def)
  with assms show ?thesis by (auto simp: leak_free_def)
qed

lemma leak_free_add_path:
  "leak_free bio log \<Longrightarrow> \<forall>c \<in> ran (served log). safe_for x c \<Longrightarrow> leak_free bio (log @ [Path_Added x])"
  by (auto simp: leak_free_def)


lemma try_add_safe:
  assumes "safe_log bio log" "\<exists>p. b_enabled p \<and> built_from bio p c" "\<forall>x \<in> rib log. safe_for x c" "try_add h c log = (log', e)"
  shows "safe_log bio log' \<and> rib log' = rib log"
  using assms leak_free_add_peer [OF safe_logD [OF assms(1)] assms(2,3)] safe_log_harmless [OF assms(1), of "[Peer_Refused c]"]
  by (auto simp: try_add_def safe_log_snoc harmless_def split: option.splits)

lemma reconcile_peer_safe:
  assumes "host_ok h" "safe_log bio log" "\<exists>p. b_enabled p \<and> built_from bio p c" "\<forall>x \<in> rib log. safe_for x c"
    "reconcile_peer bio h (ip, c) (log, errs) = (log', errs')"
  shows "safe_log bio log' \<and> rib log' = rib log"
proof (cases "served log ip")
  case None
  with assms(5) try_add_safe [OF assms(2-4)] host_okD(2) [OF assms(1)] show ?thesis
    by (auto simp: reconcile_peer_def split: prod.splits option.splits)
next
  case (Some old)
  then have old: "\<exists>p. b_enabled p \<and> built_from bio p old" "\<forall>x \<in> rib log. safe_for x old"
    using safe_logD [OF assms(2)] by (auto simp: leak_free_def intro: ranI)
  have d: "safe_log bio (log @ [Peer_Disposed ip])" "rib (log @ [Peer_Disposed ip]) = rib log"
    using safe_log_harmless [OF assms(2), of "[Peer_Disposed ip]"] by (simp_all add: harmless_def)
  obtain log1 e where a: "try_add h c (log @ [Peer_Disposed ip]) = (log1, e)" by fastforce
  have s1: "safe_log bio log1 \<and> rib log1 = rib log"
    using try_add_safe [OF d(1) assms(3) _ a] assms(4) d(2) by simp
  obtain log2 e' where b: "try_add h old log1 = (log2, e')" by fastforce
  have s2: "safe_log bio log2 \<and> rib log2 = rib log"
    using try_add_safe [OF conjunct1 [OF s1] old(1) _ b] old(2) s1 by simp
  from assms(5) Some host_okD(2) [OF assms(1)] a b s1 s2 assms(2) show ?thesis
    by (auto simp: reconcile_peer_def split: if_splits option.splits)
qed

lemma fold_reconcile_safe:
  assumes "host_ok h" "\<forall>(ip, c) \<in> set ds. (\<exists>p. b_enabled p \<and> built_from bio p c) \<and> (\<forall>x \<in> R. safe_for x c)"
    "safe_log bio log" "rib log = R" "fold (reconcile_peer bio h) ds (log, errs) = (log', errs')"
  shows "safe_log bio log' \<and> rib log' = R"
  using assms(2-)
proof (induction ds arbitrary: log errs)
  case (Cons d ds)
  obtain ip c where d: "d = (ip, c)" by fastforce
  obtain log1 errs1 where r: "reconcile_peer bio h (ip, c) (log, errs) = (log1, errs1)" by fastforce
  have s: "safe_log bio log1 \<and> rib log1 = R"
    using reconcile_peer_safe [OF assms(1) Cons.prems(2) _ _ r] Cons.prems(1,3) d by auto
  show ?case by (rule Cons.IH [of log1 errs1]) (use Cons.prems(1,4) s d r in auto)
qed simp

lemma reconcile_peers_safe:
  assumes "host_ok h" "safe_log bio log" "\<forall>x \<in> rib log. \<exists>s \<in> set local. bio_prefix bio s = Some x"
    "reconcile_peers bio h rid cfg local log = (log', e)"
  shows "safe_log bio log' \<and> rib log' = rib log"
proof (cases "desired_peers bio (route_local_address (ho_dial h log)) cfg rid local")
  case (Inl e)
  with assms(2,4) show ?thesis by (simp add: reconcile_peers_def)
next
  case (Inr des)
  let ?as = "map Peer_Disposed (filter (\<lambda>ip. map_of des ip = None) (ho_peers h log))"
  obtain log2 errs where f: "fold (reconcile_peer bio h) (ho_peer_order h des) (log @ ?as, []) = (log2, errs)" by fastforce
  have "list_all harmless ?as" by (simp add: list_all_iff harmless_def)
  then have s: "safe_log bio (log @ ?as)" by (rule safe_log_harmless [OF assms(2)])
  have "fold originate (map Peer_Disposed ips) r = r" for ips and r :: "'b set"
    by (induction ips arbitrary: r) auto
  then have r: "rib (log @ ?as) = rib log" by (simp add: rib_append)
  have "\<forall>(ip, c) \<in> set (ho_peer_order h des). (\<exists>p. b_enabled p \<and> built_from bio p c) \<and> (\<forall>x \<in> rib log. safe_for x c)"
    using desired_built [OF Inr] desired_safe [OF Inr] assms(3) host_okD(3) [OF assms(1)] by fast
  from fold_reconcile_safe [OF assms(1) this s r f] Inr assms(4) f show ?thesis
    by (simp add: reconcile_peers_def)
qed

section \<open>What a successful reconcile leaves\<close>

definition agrees :: "('ip, 'p) bio \<Rightarrow> ('ip, 'p) peer_config option \<Rightarrow> ('ip, 'p) peer_config \<Rightarrow> bool" where
  "agrees bio cur c \<longleftrightarrow> (\<exists>old. cur = Some old \<and> (old = c \<or> \<not> peer_needs_replacement bio old c))"

lemma reconcile_peer_served:
  assumes "host_ok h" "pc_address c = ip" "reconcile_peer bio h (ip, c) (log, errs) = (log', errs)"
  shows "agrees bio (served log' ip) c" "i \<noteq> ip \<Longrightarrow> served log' i = served log i"
  using assms host_okD(2) [OF assms(1)]
  by (auto simp: reconcile_peer_def try_add_def agrees_def served_append split: option.splits if_splits)

lemma reconcile_peer_errs: "\<exists>es. snd (reconcile_peer bio h d (log, errs)) = errs @ es"
  by (auto simp: reconcile_peer_def try_add_def split: option.splits prod.splits)

lemma fold_reconcile_errs: "\<exists>es. snd (fold (reconcile_peer bio h) ds (log, errs)) = errs @ es"
proof (induction ds arbitrary: log errs)
  case (Cons d ds)
  obtain log1 errs1 where r: "reconcile_peer bio h d (log, errs) = (log1, errs1)" by fastforce
  with reconcile_peer_errs [of bio h d log errs] obtain es where "errs1 = errs @ es" by auto
  with Cons [of log1 errs1] r show ?case by auto
qed simp

lemma fold_reconcile_served:
  assumes "host_ok h" "fold (reconcile_peer bio h) ds (log, []) = (log', [])" "distinct (map fst ds)"
    "\<forall>(ip, c) \<in> set ds. pc_address c = ip"
  shows "(\<forall>(ip, c) \<in> set ds. agrees bio (served log' ip) c) \<and> (\<forall>i. i \<notin> fst ` set ds \<longrightarrow> served log' i = served log i)"
  using assms(2-)
proof (induction ds arbitrary: log)
  case (Cons d ds)
  obtain ip c where d: "d = (ip, c)" by fastforce
  obtain log1 errs1 where r: "reconcile_peer bio h (ip, c) (log, []) = (log1, errs1)" by fastforce
  have "errs1 = []" using fold_reconcile_errs [of bio h ds log1 errs1] Cons.prems(1) r d by auto
  with r have r': "reconcile_peer bio h (ip, c) (log, []) = (log1, [])" by simp
  have a: "pc_address c = ip" using Cons.prems(3) d by simp
  note one = reconcile_peer_served [OF assms(1) a r']
  have i: "(\<forall>(ip, c) \<in> set ds. agrees bio (served log' ip) c) \<and> (\<forall>i. i \<notin> fst ` set ds \<longrightarrow> served log' i = served log1 i)"
    by (rule Cons.IH) (use Cons.prems r' d in auto)
  have "ip \<notin> fst ` set ds" using Cons.prems(2) d by auto
  with i one(1) have "agrees bio (served log' ip) c" by simp
  with i one(2) d show ?case by auto
qed simp

lemma reconcile_peers_converges:
  assumes "host_ok h" "reconcile_peers bio h rid cfg local log = (log', None)"
  shows "\<exists>des. desired_peers bio (route_local_address (ho_dial h log)) cfg rid local = Inr des
    \<and> (\<forall>ip. case map_of des ip of None \<Rightarrow> served log' ip = None | Some c \<Rightarrow> agrees bio (served log' ip) c)"
proof -
  from assms(2) obtain des where des: "desired_peers bio (route_local_address (ho_dial h log)) cfg rid local = Inr des"
    by (auto simp: reconcile_peers_def split: sum.splits)
  let ?gone = "filter (\<lambda>ip. map_of des ip = None) (ho_peers h log)" and ?ds = "ho_peer_order h des"
  let ?log1 = "log @ map Peer_Disposed ?gone"
  have f: "fold (reconcile_peer bio h) ?ds (?log1, []) = (log', [])"
    using assms(2) des by (auto simp: reconcile_peers_def join_errors_def split: prod.splits if_splits)
  have set: "set ?ds = set des" using host_okD(3) [OF assms(1)] .
  have dist: "distinct (map fst ?ds)"
    using desired_peersD(1) [OF des] mset_eq_imp_distinct_iff [of "map fst ?ds" "map fst des"] host_okD(5) [OF assms(1), of des]
    by simp
  have "\<forall>(ip, c) \<in> set ?ds. pc_address c = ip" using desired_address [OF des] set by auto
  from fold_reconcile_served [OF assms(1) f dist this] set
  have a: "\<forall>(ip, c) \<in> set des. agrees bio (served log' ip) c" "\<forall>i. i \<notin> fst ` set des \<longrightarrow> served log' i = served ?log1 i" by auto
  have disp: "fold serve (map Peer_Disposed ips) m ip = (if ip \<in> set ips then None else m ip)" for ips m ip
    by (induction ips arbitrary: m) auto
  have "served ?log1 ip = None" if "map_of des ip = None" for ip
    using that host_okD(1) [OF assms(1), of log] by (auto simp: served_append disp)
  with a show ?thesis using des by (auto split: option.splits dest: map_of_SomeD simp: map_of_eq_None_iff)
qed


section \<open>The runtime and the engine\<close>

definition rt_ok :: "('ip, 'p) bio \<Rightarrow> 'p bgp_runtime \<Rightarrow> ('ip, 'p) actions \<Rightarrow> bool" where
  "rt_ok bio rt log \<longleftrightarrow> (\<forall>(s, p) \<in> set (rt_local rt). bio_prefix bio s = Some p) \<and> rib log \<subseteq> snd ` set (rt_local rt)"

lemma fold_removed: "fold originate (map (\<lambda>x. Path_Removed (snd x)) xs) r = r - snd ` set xs"
  by (induction xs arbitrary: r) auto

lemma withdraw_safe:
  assumes "host_ok h" "safe_log bio log" "rt_ok bio rt log" "withdraw_routes h wanted rt log = (rt1, log1)"
  shows "safe_log bio log1" "rt_ok bio rt1 log1" "fst ` set (rt_local rt1) = fst ` set (rt_local rt) \<inter> set wanted"
    "\<forall>x \<in> rib log1. \<exists>s \<in> set wanted. bio_prefix bio s = Some x" "rt_state rt1 = rt_state rt"
proof -
  let ?as = "map (\<lambda>x. Path_Removed (snd x)) (filter (\<lambda>x. fst x \<notin> set wanted) (ho_route_order h (rt_local rt)))"
  have l: "log1 = log @ ?as" "rt1 = rt\<lparr>rt_local := filter (\<lambda>x. fst x \<in> set wanted) (rt_local rt)\<rparr>"
    using assms(4) by (auto simp: withdraw_routes_def)
  have "list_all harmless ?as" by (simp add: list_all_iff harmless_def)
  then show "safe_log bio log1" unfolding l(1) by (rule safe_log_harmless [OF assms(2)])
  have r: "rib log1 = rib log - snd ` {x \<in> set (rt_local rt). fst x \<notin> set wanted}"
    using host_okD(4) [OF assms(1), of "rt_local rt"] by (simp add: l(1) rib_append fold_removed)
  have k: "\<exists>s. (s, x) \<in> set (rt_local rt) \<and> s \<in> set wanted" if x: "x \<in> rib log1" for x
    using x assms(3) by (force simp: r rt_ok_def)
  then show "\<forall>x \<in> rib log1. \<exists>s \<in> set wanted. bio_prefix bio s = Some x"
    using assms(3) by (fastforce simp: rt_ok_def)
  show "rt_ok bio rt1 log1" using k assms(3) by (force simp: rt_ok_def l(2))
  show "rt_state rt1 = rt_state rt" by (simp add: l(2))
  show "fst ` set (rt_local rt1) = fst ` set (rt_local rt) \<inter> set wanted" by (auto simp: l(2))
qed

lemma install_safe:
  assumes "install_routes bio h ss rt log = (rt', log', e)" "safe_log bio log" "rt_ok bio rt log"
    "\<forall>c \<in> ran (served log). \<forall>s \<in> set ss. \<forall>x. bio_prefix bio s = Some x \<longrightarrow> safe_for x c"
  shows "safe_log bio log' \<and> rt_ok bio rt' log' \<and> rt_state rt' = rt_state rt \<and> served log' = served log
    \<and> (e = None \<longrightarrow> fst ` set (rt_local rt') = fst ` set (rt_local rt) \<union> set ss)"
  using assms
proof (induction bio h ss rt log rule: install_routes.induct)
  case (2 bio h s ss rt log)
  show ?case
  proof (cases "map_of (rt_local rt) s")
    case (Some x)
    then have "s \<in> fst ` set (rt_local rt)" by (metis domI dom_map_of_conv_image_fst)
    with 2 Some show ?thesis by auto
  next
    case None
    show ?thesis
    proof (cases "bio_prefix bio s")
      case None
      with 2 \<open>map_of (rt_local rt) s = None\<close> show ?thesis by auto
    next
      case (Some p)
      show ?thesis
      proof (cases "ho_path h log p")
        case None
        let ?rt = "rt\<lparr>rt_local := rt_local rt @ [(s, p)]\<rparr>" and ?log = "log @ [Path_Added p]"
        have s: "safe_log bio ?log" using 2(4,6) leak_free_add_path [OF safe_logD [OF 2(4)]] Some by (simp add: safe_log_snoc)
        have r: "rt_ok bio ?rt ?log" using 2(5) Some by (auto simp: rt_ok_def)
        have "install_routes bio h ss ?rt ?log = (rt', log', e)"
          using 2(3) \<open>map_of (rt_local rt) s = None\<close> Some None by simp
        from 2(2) [OF _ Some None this s r] 2(6) \<open>map_of (rt_local rt) s = None\<close> show ?thesis by auto
      next
        case (Some e')
        have "safe_log bio (log @ [Path_Refused p])" using safe_log_harmless [OF 2(4), of "[Path_Refused p]"] by (simp add: harmless_def)
        with 2(3,5) Some \<open>bio_prefix bio s = Some p\<close> \<open>map_of (rt_local rt) s = None\<close> show ?thesis by (auto simp: rt_ok_def)
      qed
    qed
  qed
qed simp

lemma safe_for_kept:
  assumes "bio_ok bio" "\<not> peer_needs_replacement bio c d" "safe_for x d"
  shows "safe_for x c"
proof -
  have eq: "map bare a = map bare b" if "bio_chain_equal bio a b" for a b
    using assms(1) that by (simp add: bio_ok_def)
  have one: "opted_chain (snd a) \<or> guard_chain x (snd a)"
    if "\<not> family_changed bio (Some a) f" "\<forall>b. f = Some b \<longrightarrow> opted_chain (snd b) \<or> guard_chain x (snd b)" for a f
    using that by (cases f) (auto simp: family_changed_def dest!: eq dest: opted_chain_bare guard_chain_bare)
  have d: "\<forall>b. pc_v4 d = Some b \<longrightarrow> opted_chain (snd b) \<or> guard_chain x (snd b)"
    "\<forall>b. pc_v6 d = Some b \<longrightarrow> opted_chain (snd b) \<or> guard_chain x (snd b)"
    using assms(3) by (auto simp: safe_for_def exports_def)
  show ?thesis
    using assms(2) one [OF _ d(1)] one [OF _ d(2)]
    by (cases "pc_v4 c"; cases "pc_v6 c") (auto simp: safe_for_def exports_def peer_needs_replacement_def)
qed

definition peers_agree :: "('ip, 'p) bio \<Rightarrow> ('ip, 'p) actions \<Rightarrow> ('ip \<times> ('ip, 'p) peer_config) list \<Rightarrow> bool" where
  "peers_agree bio log des \<longleftrightarrow>
     (\<forall>ip. case map_of des ip of None \<Rightarrow> served log ip = None | Some c \<Rightarrow> agrees bio (served log ip) c)"

lemma peers_agreeD:
  assumes "peers_agree bio log des" "served log ip = Some c"
  shows "\<exists>d. map_of des ip = Some d \<and> agrees bio (Some c) d"
  using assms(1) [unfolded peers_agree_def, rule_format, of ip] assms(2) by (cases "map_of des ip") simp_all

lemma apply_safe:
  assumes "host_ok h" "bio_ok bio" "safe_log bio log" "rt_ok bio rt log" "apply_runtime_config bio h cfg rt log = (rt', log', e)"
  shows "safe_log bio log' \<and> rt_ok bio rt' log' \<and> rt_state rt' = rt_state rt
    \<and> (e = None \<longrightarrow> (\<exists>local lof des. desired_local_prefixes h cfg log = Inr local \<and> fst ` set (rt_local rt') = set local
       \<and> desired_peers bio lof cfg (rs_router_id (rt_state rt)) local = Inr des \<and> peers_agree bio log' des))"
proof (cases "desired_local_prefixes h cfg log")
  case (Inl e)
  with assms show ?thesis by (auto simp: apply_runtime_config_def)
next
  case (Inr local)
  obtain rt1 log1 where w: "withdraw_routes h local rt log = (rt1, log1)" by fastforce
  note ws = withdraw_safe [OF assms(1,3,4) w]
  obtain log2 e2 where r: "reconcile_peers bio h (rs_router_id (rt_state rt)) cfg local log1 = (log2, e2)" by fastforce
  have s2: "safe_log bio log2 \<and> rib log2 = rib log1" by (rule reconcile_peers_safe [OF assms(1) ws(1,4) r])
  then have k2: "rt_ok bio rt1 log2" using ws(2) by (simp add: rt_ok_def)
  show ?thesis
  proof (cases e2)
    case (Some x)
    with Inr w r s2 k2 ws(5) assms(5) show ?thesis by (auto simp: apply_runtime_config_def)
  next
    case None
    let ?rt = "rt1\<lparr>rt_names := session_names bio cfg\<rparr>"
    have i: "install_routes bio h local ?rt log2 = (rt', log', e)"
      using Inr w r None assms(5) by (simp add: apply_runtime_config_def)
    from reconcile_peers_converges [OF assms(1) r [unfolded None]] obtain des where
      des: "desired_peers bio (route_local_address (ho_dial h log1)) cfg (rs_router_id (rt_state rt)) local = Inr des" "peers_agree bio log2 des"
      by (auto simp: peers_agree_def)
    have safe: "safe_for x c" if c: "c \<in> ran (served log2)" "s \<in> set local" "bio_prefix bio s = Some x" for c s x
    proof -
      from c(1) obtain ip where ip: "served log2 ip = Some c" by (auto simp: ran_def)
      from peers_agreeD [OF des(2) ip] obtain d where d: "map_of des ip = Some d" "agrees bio (Some c) d" by (elim exE conjE)
      have "safe_for x d" by (rule desired_safe [OF des(1) map_of_SomeD [OF d(1)] c(2,3)])
      with d(2) safe_for_kept [OF assms(2)] show ?thesis by (auto simp: agrees_def)
    qed
    have k: "rt_ok bio ?rt log2" using k2 by (simp add: rt_ok_def)
    have j: "safe_log bio log' \<and> rt_ok bio rt' log' \<and> rt_state rt' = rt_state rt \<and> served log' = served log2
        \<and> (e = None \<longrightarrow> fst ` set (rt_local rt') = set local)"
    proof -
      have "\<forall>c \<in> ran (served log2). \<forall>s \<in> set local. \<forall>x. bio_prefix bio s = Some x \<longrightarrow> safe_for x c" using safe by blast
      from install_safe [OF i conjunct1 [OF s2] k this] ws(3,5) show ?thesis by (simp add: Un_absorb1)
    qed
    then have "served log' = served log2" by simp
    then have "peers_agree bio log' des" using des(2) unfolding peers_agree_def by (elim ssubst)
    with j Inr des(1) show ?thesis by blast
  qed
qed

definition engine_ok :: "('ip, 'p) bio \<Rightarrow> 'p engine \<Rightarrow> ('ip, 'p) actions \<Rightarrow> bool" where
  "engine_ok bio en log \<longleftrightarrow> safe_log bio log \<and> (\<forall>rt. en_active en = Some rt \<longrightarrow> rt_ok bio rt log)"

lemma shutdown_safe: "safe_log bio log \<Longrightarrow> safe_log bio (fst (shutdown h log))"
  using safe_log_harmless [of bio log "map Peer_Disposed (ho_peers h log) @ [Listeners_Closed, Kernel_Disposed]"]
  by (simp add: shutdown_def Let_def list_all_iff harmless_def ball_Un)

lemma stop_engine_ok: "engine_ok bio en log \<Longrightarrow> stop_engine h en log = (en', log', e) \<Longrightarrow> engine_ok bio en' log' \<and> en_active en' = None"
  using shutdown_safe [of bio log h] by (auto simp: engine_ok_def stop_engine_def split: option.splits prod.splits)

lemma start_engine_ok:
  assumes "host_ok h" "bio_ok bio" "safe_log bio log" "en_active en = None" "start_engine bio h cfg st en log = (en', log', e)"
  shows "engine_ok bio en' log' \<and> (e = None \<longrightarrow> (\<exists>rt local lof des. en_active en' = Some rt \<and> rt_state rt = st
      \<and> fst ` set (rt_local rt) = set local \<and> (\<exists>log0. desired_local_prefixes h cfg log0 = Inr local)
      \<and> desired_peers bio lof cfg (rs_router_id st) local = Inr des \<and> peers_agree bio log' des))
    \<and> (e \<noteq> None \<longrightarrow> en_active en' = None)"
proof (cases "ho_kernel h log")
  case (Some x)
  with assms safe_log_harmless [OF assms(3), of "[Kernel_Refused]"] show ?thesis
    by (auto simp: start_engine_def start_runtime_def engine_ok_def harmless_def)
next
  case None
  let ?rt = "\<lparr>rt_state = st, rt_local = [], rt_names = (\<lambda>_. None)\<rparr> :: 'b bgp_runtime"
  let ?log = "log @ [Kernel_Opened, Server_Created (rs_router_id st) (listen_addresses st)]"
  obtain rt log1 e1 where a: "apply_runtime_config bio h cfg ?rt ?log = (rt, log1, e1)" by (metis prod_cases3)
  have "safe_log bio ?log" by (rule safe_log_harmless [OF assms(3)]) (simp add: harmless_def)
  moreover have "rt_ok bio ?rt ?log" by (simp add: rt_ok_def rib_append)
  ultimately have s: "safe_log bio log1 \<and> rt_ok bio rt log1 \<and> rt_state rt = st
    \<and> (e1 = None \<longrightarrow> (\<exists>local lof des. desired_local_prefixes h cfg ?log = Inr local \<and> fst ` set (rt_local rt) = set local
       \<and> desired_peers bio lof cfg (rs_router_id st) local = Inr des \<and> peers_agree bio log1 des))"
    using apply_safe [OF assms(1,2) _ _ a] by simp
  have started: "safe_log bio (log1 @ [Server_Started])" "rib (log1 @ [Server_Started]) = rib log1" "served (log1 @ [Server_Started]) = served log1"
    using s safe_log_harmless [of bio log1 "[Server_Started]"] by (simp_all add: harmless_def)
  show ?thesis
  proof (cases e1)
    case None
    with \<open>ho_kernel h log = None\<close> a assms(5) have r: "en' = en\<lparr>en_active := Some rt\<rparr>" "log' = log1 @ [Server_Started]" "e = None"
      by (auto simp: start_engine_def start_runtime_def)
    have "engine_ok bio en' log'" using s started(1,2) by (simp add: r engine_ok_def rt_ok_def)
    moreover have "peers_agree bio log' des = peers_agree bio log1 des" for des
      unfolding peers_agree_def r(2) started(3) ..
    ultimately show ?thesis using s None r by auto
  next
    case (Some x)
    with \<open>ho_kernel h log = None\<close> a assms(5) have r: "en' = en" "log' = fst (shutdown h log1)" "e = Some x"
      by (auto simp: start_engine_def start_runtime_def)
    with s shutdown_safe [of bio log1 h] assms(4) show ?thesis by (simp add: engine_ok_def)
  qed
qed

lemma configure_ok:
  assumes "host_ok h" "bio_ok bio" "engine_ok bio en log" "configure bio h cfg en log = (en', log', e)"
  shows "engine_ok bio en' log'
    \<and> (e = None \<and> s_bgp_enabled (cfg_server cfg) \<longrightarrow>
        (\<exists>rid rt local lof des. router_id_from_address (s_address (cfg_server cfg)) = Inr rid \<and> en_active en' = Some rt
          \<and> rt_state rt = state_for (en_zerotier en) (cfg_server cfg) rid
          \<and> fst ` set (rt_local rt) = set local \<and> (\<exists>log0. desired_local_prefixes h cfg log0 = Inr local)
          \<and> desired_peers bio lof cfg rid local = Inr des \<and> peers_agree bio log' des))
    \<and> (\<not> s_bgp_enabled (cfg_server cfg) \<longrightarrow> en_active en' = None)"
proof (cases "s_bgp_enabled (cfg_server cfg)")
  case False
  with assms(4) stop_engine_ok [OF assms(3)] show ?thesis by (auto simp: configure_def)
next
  case True
  show ?thesis
  proof (cases "router_id_from_address (s_address (cfg_server cfg))")
    case (Inl x)
    with True assms(3,4) show ?thesis by (auto simp: configure_def)
  next
    case (Inr rid)
    let ?st = "state_for (en_zerotier en) (cfg_server cfg) rid"
    have id: "rs_router_id ?st = rid" by (simp add: state_for_def Let_def)
    show ?thesis
    proof (cases "en_active en")
      case None
      with True Inr assms(4) have "start_engine bio h cfg ?st en log = (en', log', e)" by (simp add: configure_def Let_def)
      from start_engine_ok [OF assms(1,2) _ None this] assms(3) Inr id True show ?thesis by (auto simp: engine_ok_def)
    next
      case (Some rt)
      show ?thesis
      proof (cases "rt_state rt = ?st")
        case False
        obtain en1 log1 e1 where s: "stop_engine h en log = (en1, log1, e1)" by (metis prod_cases3)
        note s1 = stop_engine_ok [OF assms(3) s]
        show ?thesis
        proof (cases e1)
          case None
          with True Inr Some False s assms(4) have "start_engine bio h cfg ?st en1 log1 = (en', log', e)" by (simp add: configure_def Let_def)
          from start_engine_ok [OF assms(1,2) _ _ this] s1 Inr id True show ?thesis by (auto simp: engine_ok_def)
        next
          case (Some x)
          with True Inr \<open>en_active en = Some rt\<close> False s assms(4) s1 show ?thesis by (auto simp: configure_def Let_def)
        qed
      next
        case same: True
        obtain rt1 log1 e1 where a: "apply_runtime_config bio h cfg rt log = (rt1, log1, e1)" by (metis prod_cases3)
        with True Inr Some same assms(4) have r: "en' = en\<lparr>en_active := Some rt1\<rparr>" "log' = log1" "e = e1" by (auto simp: configure_def Let_def)
        have "safe_log bio log" "rt_ok bio rt log" using assms(3) Some by (auto simp: engine_ok_def)
        from apply_safe [OF assms(1,2) this a] same id Inr True show ?thesis by (auto simp: r engine_ok_def)
      qed
    qed
  qed
qed

text \<open>The engines a process can have.\<close>

inductive engine_run :: "('ip, 'p) bio \<Rightarrow> ('ip, 'p) host \<Rightarrow> 'p engine \<Rightarrow> ('ip, 'p) actions \<Rightarrow> bool" for bio h where
  idle: "engine_run bio h \<lparr>en_active = None, en_zerotier = None\<rparr> []"
| zerotier: "engine_run bio h en log \<Longrightarrow> engine_run bio h (set_zerotier_provider f en) log"
| configured: "engine_run bio h en log \<Longrightarrow> configure bio h cfg en log = (en', log', e) \<Longrightarrow> engine_run bio h en' log'"

lemma engine_run_ok: "engine_run bio h en log \<Longrightarrow> host_ok h \<Longrightarrow> bio_ok bio \<Longrightarrow> engine_ok bio en log"
proof (induction rule: engine_run.induct)
  case (configured en log cfg en' log' e)
  then show ?case using configure_ok by blast
qed (auto simp: engine_ok_def set_zerotier_provider_def)


section \<open>What the chains mean\<close>

text \<open>The documented evaluation of a filter chain: policies and their terms in order, a term
  applies when it has no condition or one of them matches, and the first accept or reject decides.\<close>

fun verdict :: "'ip filter_action list \<Rightarrow> bool option" where
  "verdict [] = None"
| "verdict (Accept # as) = Some True"
| "verdict (Reject # as) = Some False"
| "verdict (Redistributed_Next_Hop ip # as) = verdict as"

definition applies :: "(matcher \<Rightarrow> 'p \<Rightarrow> 'p \<Rightarrow> bool) \<Rightarrow> 'p \<Rightarrow> ('p \<times> matcher) list \<Rightarrow> bool" where
  "applies matches p conds \<longleftrightarrow> conds = [] \<or> list_ex (\<lambda>(q, m). matches m q p) conds"

lemma applies_simps [simp]: "applies matches p []" "applies matches p [(q, m)] = matches m q p"
  by (simp_all add: applies_def)

fun decide :: "(matcher \<Rightarrow> 'p \<Rightarrow> 'p \<Rightarrow> bool) \<Rightarrow> ('ip, 'p) filter_term list \<Rightarrow> 'p \<Rightarrow> bool option" where
  "decide matches [] p = None"
| "decide matches (t # ts) p =
     (if applies matches p (tm_conds t) \<and> verdict (tm_actions t) \<noteq> None
      then verdict (tm_actions t) else decide matches ts p)"

definition filters_ok :: "('ip, 'p) bio \<Rightarrow> (matcher \<Rightarrow> 'p \<Rightarrow> 'p \<Rightarrow> bool) \<Rightarrow> ('p \<Rightarrow> nat) \<Rightarrow> (('ip, 'p) chain \<Rightarrow> 'p \<Rightarrow> bool) \<Rightarrow> bool" where
  "filters_ok bio matches plen process \<longleftrightarrow>
     (\<forall>p q. matches Exact q p \<longleftrightarrow> q = p)
   \<and> (\<forall>a b p. plen p \<le> (if bio_is_v4 bio p then 32 else 128) \<longrightarrow>
        (matches (In_Range a b) (bio_all_v4 bio) p \<longleftrightarrow> bio_is_v4 bio p \<and> a \<le> plen p \<and> plen p \<le> b)
      \<and> (matches (In_Range a b) (bio_all_v6 bio) p \<longleftrightarrow> \<not> bio_is_v4 bio p \<and> a \<le> plen p \<and> plen p \<le> b))
   \<and> (\<forall>p. process (bio_accept_all bio) p)
   \<and> (\<forall>pol c p. process (pol # c) p = (case decide matches (rp_terms pol) p of Some v \<Rightarrow> v | None \<Rightarrow> process c p))"

lemma filters_okD:
  assumes "filters_ok bio matches plen process"
  shows "matches Exact q p \<longleftrightarrow> q = p" "process (bio_accept_all bio) p"
    "process (pol # c) p = (case decide matches (rp_terms pol) p of Some v \<Rightarrow> v | None \<Rightarrow> process c p)"
    "plen p \<le> (if bio_is_v4 bio p then 32 else 128) \<Longrightarrow> matches (In_Range a b) (bio_all_v4 bio) p \<longleftrightarrow> bio_is_v4 bio p \<and> a \<le> plen p \<and> plen p \<le> b"
    "plen p \<le> (if bio_is_v4 bio p then 32 else 128) \<Longrightarrow> matches (In_Range a b) (bio_all_v6 bio) p \<longleftrightarrow> \<not> bio_is_v4 bio p \<and> a \<le> plen p \<and> plen p \<le> b"
  using assms by (simp_all add: filters_ok_def)

text \<open>Terms that can only reject: they decide exactly when one of them matches.\<close>

lemma decide_rejects:
  assumes "\<forall>t \<in> set ts. tm_actions t = [Reject]"
  shows "decide matches ts p =
    (if \<exists>t \<in> set ts. applies matches p (tm_conds t) then Some False else None)"
  using assms by (induction ts) simp_all

lemma guard_chain_rejects:
  assumes "filters_ok bio matches plen process" "guard_chain p e"
  shows "\<not> process e p"
proof -
  from assms(2) obtain pol e' where g: "e = pol # e'" "\<forall>t \<in> set (bare pol). snd t = [Reject]" "([(p, Exact)], [Reject]) \<in> set (bare pol)"
    unfolding guard_chain_def by blast
  have e: "e = pol # e'" "\<forall>t \<in> set (rp_terms pol). tm_actions t = [Reject]" "\<exists>t \<in> set (rp_terms pol). tm_conds t = [(p, Exact)]"
    using g by (simp_all add: bare_def image_iff eq_commute [of "[(p, Exact)]"])
  from e(3) obtain t where t: "t \<in> set (rp_terms pol)" "tm_conds t = [(p, Exact)]" by blast
  have "applies matches p (tm_conds t)" using t(2) filters_okD(1) [OF assms(1), of p p] by simp
  with t(1) have "\<exists>t \<in> set (rp_terms pol). applies matches p (tm_conds t)" by blast
  then have "decide matches (rp_terms pol) p = Some False" unfolding decide_rejects [OF e(2)] by simp
  then show ?thesis by (simp add: e(1) filters_okD(3) [OF assms(1)])
qed


text \<open>What the filters of a BGP peer mean: the first one whose prefix parses and matches decides.\<close>

definition filters_accept :: "('ip, 'p) bio \<Rightarrow> (matcher \<Rightarrow> 'p \<Rightarrow> 'p \<Rightarrow> bool) \<Rightarrow> route_filter list \<Rightarrow> 'p \<Rightarrow> bool" where
  "filters_accept bio matches fs p \<longleftrightarrow> fs = [] \<or>
     (case find (\<lambda>f. case bio_prefix bio (rf_prefix f) of None \<Rightarrow> False
                   | Some q \<Rightarrow> matches (if to_lower (rf_matcher f) = ''exact'' then Exact else Or_Longer) q p) fs of
        None \<Rightarrow> False | Some f \<Rightarrow> to_lower (rf_action f) = ''accept'')"

lemma decide_filters:
  "decide matches (List.map_filter (filter_term_of bio) (enumerate n fs) @ [\<lparr>tm_name = x, tm_conds = [], tm_actions = [Reject]\<rparr>]) p
   = Some (fs \<noteq> [] \<and> filters_accept bio matches fs p)"
proof (induction fs arbitrary: n)
  case (Cons f fs)
  then show ?case
    by (cases fs) (auto simp: List.map_filter_simps filter_term_of_def filters_accept_def split: option.splits)
qed (simp add: List.map_filter_simps)

lemma process_filters:
  assumes "filters_ok bio matches plen process"
  shows "process (build_filter_chain bio kind fs) p = filters_accept bio matches fs p"
  using decide_filters [of matches bio 0 fs "''default-reject''" p] filters_okD(2) [OF assms]
  by (auto simp: build_filter_chain_def filters_okD(3) [OF assms] filters_accept_def)

lemma process_max_length:
  assumes "filters_ok bio matches plen process" "plen p \<le> (if bio_is_v4 bio p then 32 else 128)"
  shows "process (prepend_max_prefix_length bio c kind lim) p \<longleftrightarrow> (lim = 0 \<or> plen p \<le> unat lim) \<and> process c p"
proof -
  let ?ts = "List.map_filter (max_length_term lim) [(''ipv4'', bio_all_v4 bio, 32), (''ipv6'', bio_all_v6 bio, 128)] :: ('a, 'b) filter_term list"
  have succ: "unat (ucast (lim + 1) :: byte) = unat lim + 1" if "unat lim < 128"
  proof -
    have "unat (lim + 1) = unat lim + 1" using that by (simp add: unat_word_ariths)
    with that show ?thesis by (simp add: unsigned_ucast_eq take_bit_nat_eq_self)
  qed
  have rej: "\<forall>t \<in> set ?ts. tm_actions t = [Reject]" by (auto simp: set_map_filter max_length_term_def split: if_splits)
  have "decide matches ?ts p = (if unat lim < plen p then Some False else None)"
    unfolding decide_rejects [OF rej]
    using assms(2) filters_okD(4,5) [OF assms] succ
    by (auto simp: set_map_filter max_length_term_def split: if_splits)
  then show ?thesis
    using assms(2) by (auto simp: prepend_max_prefix_length_def Let_def filters_okD(3) [OF assms(1)] split: if_splits)
qed

text \<open>The export chain is the policy the user wrote.  It advertises a prefix exactly when the
  peer wants connected routes or the prefix is not one of them, it is within the length limit,
  and the first matching export filter accepts it (every prefix when there is no filter).\<close>

theorem export_policy:
  assumes "filters_ok bio matches plen process" "plen p \<le> (if bio_is_v4 bio p then 32 else 128)"
  shows "process (build_export_filter_chain bio fs redistribute limit local (Some ip)) p \<longleftrightarrow>
    (redistribute \<or> (\<forall>s \<in> set local. bio_prefix bio s \<noteq> Some p))
    \<and> (limit = 0 \<or> plen p \<le> unat limit) \<and> filters_accept bio matches fs p"
proof -
  let ?c = "prepend_max_prefix_length bio (build_filter_chain bio ''export'' fs) ''advertised'' limit"
  let ?ts = "List.map_filter (reject_local_term bio) (enumerate 0 local)"
  have c: "process ?c p \<longleftrightarrow> (limit = 0 \<or> plen p \<le> unat limit) \<and> filters_accept bio matches fs p"
    by (simp add: process_max_length [OF assms] process_filters [OF assms(1)])
  show ?thesis
  proof (cases redistribute)
    case True
    with c show ?thesis by (simp add: build_export_filter_chain_def next_hop_self_def filters_okD(3) [OF assms(1)])
  next
    case False
    have "(\<exists>t \<in> set ?ts. applies matches p (tm_conds t)) \<longleftrightarrow> (\<exists>s \<in> set local. bio_prefix bio s = Some p)"
    proof
      assume "\<exists>t \<in> set ?ts. applies matches p (tm_conds t)"
      then show "\<exists>s \<in> set local. bio_prefix bio s = Some p"
        using filters_okD(1) [OF assms(1)]
        by (auto simp: set_map_filter reject_local_term_def in_set_enumerate_eq split: option.splits) (metis nth_mem)
    next
      assume "\<exists>s \<in> set local. bio_prefix bio s = Some p"
      then obtain s where "s \<in> set local" "bio_prefix bio s = Some p" by blast
      from reject_local_terms_cover [OF this] show "\<exists>t \<in> set ?ts. applies matches p (tm_conds t)"
        using filters_okD(1) [OF assms(1), of p p] by (auto intro!: bexI)
    qed
    then have d: "decide matches ?ts p = (if \<exists>s \<in> set local. bio_prefix bio s = Some p then Some False else None)"
      using decide_rejects [of ?ts matches p] reject_local_terms by auto
    show ?thesis
      using False c d by (cases "?ts = []") (auto simp: build_export_filter_chain_def Let_def filters_okD(3) [OF assms(1)] split: if_splits)
  qed
qed


section \<open>A concrete library and host\<close>

definition sample_bio :: "(byte list, ipnet) bio" where
  "sample_bio = \<lparr>bio_ip = parse_ip, bio_ip_text = ip_string, bio_prefix = (\<lambda>s. map_option snd (parse_cidr s)),
     bio_is_v4 = (\<lambda>n. net_bits n = 32), bio_all_v4 = \<lparr>net_ip = replicate 4 0, net_ones = 0, net_bits = 32\<rparr>,
     bio_all_v6 = \<lparr>net_ip = replicate 16 0, net_ones = 0, net_bits = 128\<rparr>, bio_unspecified = replicate 16 0,
     bio_accept_all = [\<lparr>rp_name = ''accept-all'', rp_terms = [\<lparr>tm_name = [], tm_conds = [], tm_actions = [Accept]\<rparr>]\<rparr>],
     bio_needs_restart = (\<lambda>c d. c\<lparr>pc_v4 := None, pc_v6 := None\<rparr> \<noteq> d\<lparr>pc_v4 := None, pc_v6 := None\<rparr>),
     bio_chain_equal = (\<lambda>a b. map bare a = map bare b)\<rparr>"

fun sample_matches :: "matcher \<Rightarrow> ipnet \<Rightarrow> ipnet \<Rightarrow> bool" where
  "sample_matches Exact q p = (q = p)"
| "sample_matches Or_Longer q p = ((net_bits q = 32) = (net_bits p = 32) \<and> net_ones q \<le> net_ones p \<and> and_bytes (net_ip p) (net_mask q) = net_ip q)"
| "sample_matches (In_Range a b) q p = ((net_bits q = 32) = (net_bits p = 32) \<and> a \<le> net_ones p \<and> net_ones p \<le> b
     \<and> (net_ones q = 0 \<or> and_bytes (net_ip p) (net_mask q) = net_ip q))"

fun sample_process :: "(byte list, ipnet) chain \<Rightarrow> ipnet \<Rightarrow> bool" where
  "sample_process [] p = False"
| "sample_process (pol # c) p = (case decide sample_matches (rp_terms pol) p of Some v \<Rightarrow> v | None \<Rightarrow> sample_process c p)"

fun added :: "('ip, 'p) action \<Rightarrow> 'ip option" where
  "added (Peer_Added c) = Some (pc_address c)"
| "added _ = None"

definition sample_host :: "(byte list, ipnet) host" where
  "sample_host = \<lparr>ho_peers = (\<lambda>log. filter (\<lambda>ip. served log ip \<noteq> None) (List.map_filter added log)),
     ho_config = served, ho_add = (\<lambda>_ _. None), ho_path = (\<lambda>_ _. None), ho_kernel = (\<lambda>_. None), ho_close = (\<lambda>_. None),
     ho_dial = (\<lambda>_ _ _. Inr [10, 0, 0, 1]), ho_addresses = (\<lambda>_. Inr [Addr_Net [10, 8, 0, 2] [255, 255, 255, 0]]),
     ho_peer_order = rev, ho_route_order = id\<rparr>"

lemma sample_bio_ok: "bio_ok sample_bio"
  by (auto simp: bio_ok_def sample_bio_def)

lemma sample_filters_ok: "filters_ok sample_bio sample_matches net_ones sample_process"
  by (auto simp: filters_ok_def sample_bio_def)

lemma served_added: "served log ip = Some c \<Longrightarrow> ip \<in> set (List.map_filter added log)"
proof (induction log rule: rev_induct)
  case (snoc a log)
  then show ?case by (cases a) (auto simp: set_map_filter split: if_splits)
qed simp

lemma sample_host_ok: "host_ok sample_host"
  using served_added by (fastforce simp: host_ok_def sample_host_def dom_def)

definition sample_bgp_config :: app_config where
  "sample_bgp_config = zero_config
     \<lparr>cfg_server := zero_server\<lparr>s_address := ''10.0.0.1/24'', s_bgp_enabled := True, s_bgp_asn := 64512, s_bgp_port := 179\<rparr>,
      cfg_bgp_peers := [zero_bgp_peer\<lparr>b_name := ''a'', b_enabled := True, b_redistribute := True, b_peer_ip := ''10.0.0.2'', b_peer_port := 179, b_peer_asn := 64513\<rparr>,
        zero_bgp_peer\<lparr>b_name := ''b'', b_enabled := True, b_peer_ip := ''10.0.0.3'', b_peer_port := 179, b_peer_asn := 64514\<rparr>]\<rparr>"

definition sample_run :: "ipnet engine \<times> (byte list, ipnet) actions \<times> bgp_error option" where
  "sample_run = configure sample_bio sample_host sample_bgp_config \<lparr>en_active = None, en_zerotier = None\<rparr> []"

lemma sample_engine_run: "engine_run sample_bio sample_host (fst sample_run) (fst (snd sample_run))"
  by (rule configured [OF idle, of _ _ sample_bgp_config _ _ "snd (snd sample_run)"]) (simp add: sample_run_def)

definition sample_prefix :: ipnet where
  "sample_prefix = \<lparr>net_ip = [10, 8, 0, 0], net_ones = 24, net_bits = 32\<rparr>"

lemma sample_run_facts:
  "sample_prefix \<in> rib (fst (snd sample_run))" "served (fst (snd sample_run)) (v4_in_v6 @ [10, 0, 0, 3]) \<noteq> None"
  "snd (snd sample_run) = None"
  by code_simp+



theorem export_policy_witness:
  "\<not> sample_process (build_export_filter_chain sample_bio [] False 0 [''10.8.0.0/24''] (Some [])) sample_prefix"
proof -
  have "bio_prefix sample_bio ''10.8.0.0/24'' = Some sample_prefix" by code_simp
  then show ?thesis
    using export_policy [OF sample_filters_ok, of sample_prefix "[]" False 0 "[''10.8.0.0/24'']" "[]"]
    by (simp add: sample_prefix_def sample_bio_def)
qed

end
