(* ===== verification/Ipam.thy ===== *)
theory Ipam
  imports Models
begin

text \<open>
  \<^verbatim>\<open>internal/ipam/ipam.go\<close>: the allocator of peer addresses.  The search over the pool is a
  recursion on the candidate address; its termination measure is the distance to the end of
  the address family.  The lemmas read networks as intervals (theory GoNet) and show that the
  IPv4 search returns the least free address and fails only on an exhausted pool.
\<close>

section \<open>The code\<close>

fun inc_rev :: "byte list \<Rightarrow> byte list option" where
  "inc_rev [] = None"
| "inc_rev (b # r) = (if b + 1 \<noteq> 0 then Some ((b + 1) # r) else map_option (Cons 0) (inc_rev r))"

definition norm_ip :: "byte list \<Rightarrow> byte list" where
  "norm_ip ip = (case to4 ip of Some b \<Rightarrow> b | None \<Rightarrow> if length ip = 16 then ip else [])"

definition next_ip :: "byte list \<Rightarrow> byte list option" where
  "next_ip ip = map_option rev (inc_rev (rev (norm_ip ip)))"

definition broadcast_address :: "ipnet \<Rightarrow> byte list" where
  "broadcast_address n =
     (case to4 (net_ip n) of None \<Rightarrow> [0, 0, 0, 0] | Some ip \<Rightarrow> map2 (\<lambda>a m. a OR NOT m) ip (net_mask n))"

text \<open>\<open>first\<close> is the first network that parsed; an IPv4 entry wins wherever it stands.\<close>

fun allocation_loop :: "(byte list \<times> ipnet) option \<Rightarrow> string list \<Rightarrow> (byte list \<times> ipnet) option" where
  "allocation_loop first [] = first"
| "allocation_loop first (v # vs) =
     (case parse_cidr (trim_space v) of
        None \<Rightarrow> allocation_loop first vs
      | Some (ip, n) \<Rightarrow>
          if to4 ip \<noteq> None then Some (ip, n)
          else allocation_loop (if first = None then Some (ip, n) else first) vs)"

definition allocation_network :: "string \<Rightarrow> (byte list \<times> ipnet) option" where
  "allocation_network addresses = allocation_loop None (split_char CHR '','' addresses)"

definition used_entry :: "string \<Rightarrow> string list" where
  "used_entry cidr =
     (let c = trim_space cidr in
      case parse_cidr c of
        Some (ip, _) \<Rightarrow> [ip_string ip]
      | None \<Rightarrow> (case parse_ip c of Some ip \<Rightarrow> [ip_string ip] | None \<Rightarrow> []))"

definition used_addresses :: "byte list \<Rightarrow> ipnet \<Rightarrow> string list \<Rightarrow> string list" where
  "used_addresses server_ip n used_ips =
     ip_string server_ip
     # (if to4 (net_ip n) \<noteq> None then [ip_string (net_ip n), ip_string (broadcast_address n)] else [])
     @ concat (map (\<lambda>v. concat (map used_entry (split_char CHR '','' v))) used_ips)"

definition ip_distance :: "byte list option \<Rightarrow> nat" where
  "ip_distance ip =
     (case ip of None \<Rightarrow> 0
      | Some b \<Rightarrow> (if length (norm_ip b) = 4 then 2 ^ 32 else 2 ^ 129) - bytes_val (norm_ip b))"

section \<open>Counting up\<close>

lemma byte_wrap: "(x :: byte) + 1 = 0 \<Longrightarrow> unat x = 255"
proof -
  assume "x + 1 = 0"
  then have "x = - 1" by (simp add: eq_neg_iff_add_eq_0)
  then have "x = 255" by simp
  then show ?thesis by simp
qed

lemma inc_rev_Some:
  "inc_rev b = Some b' \<Longrightarrow> length b' = length b \<and> bytes_val (rev b') = bytes_val (rev b) + 1"
proof (induction b arbitrary: b')
  case (Cons x r)
  show ?case
  proof (cases "x + 1 \<noteq> 0")
    case True
    then have "unat (x + 1) = unat x + 1" by (metis add.commute unatSuc Suc_eq_plus1)
    with True Cons.prems show ?thesis by auto
  next
    case False
    with Cons.prems obtain r' where r: "inc_rev r = Some r'" "b' = 0 # r'" by auto
    from False have "unat x = 255" by (simp add: byte_wrap)
    with Cons.IH [OF r(1)] r(2) show ?thesis by auto
  qed
qed simp

lemma inc_rev_None: "inc_rev b = None \<Longrightarrow> bytes_val (rev b) + 1 = 256 ^ length b"
proof (induction b)
  case (Cons x r)
  then have "x + 1 = 0" "inc_rev r = None" by (auto split: if_splits)
  then have "unat x = 255" by (simp add: byte_wrap)
  with Cons.IH [OF \<open>inc_rev r = None\<close>] show ?case by simp
qed simp

lemma next_ip_Some:
  "next_ip ip = Some b \<Longrightarrow> length b = length (norm_ip ip) \<and> bytes_val b = bytes_val (norm_ip ip) + 1"
  by (auto simp: next_ip_def dest!: inc_rev_Some)

lemma next_ip_None: "next_ip ip = None \<Longrightarrow> bytes_val (norm_ip ip) + 1 = 256 ^ length (norm_ip ip)"
  by (auto simp: next_ip_def dest: inc_rev_None)

lemma norm_ip_v4 [simp]: "length b = 4 \<Longrightarrow> norm_ip b = b"
  by (simp add: norm_ip_def)

lemma norm_ip_length: "length (norm_ip ip) \<in> {0, 4, 16}"
  by (auto simp: norm_ip_def dest: to4_length split: option.splits)

lemma norm_ip_bound: "bytes_val (norm_ip b) < (if length (norm_ip b) = 4 then 2 ^ 32 else 2 ^ 129)"
  using bytes_val_less [of "norm_ip b"] norm_ip_length [of b]
  by (auto intro: less_le_trans)

lemma next_ip_distance: "ip_distance (next_ip ip) < ip_distance (Some ip)"
proof (cases "next_ip ip")
  case None
  with norm_ip_bound [of ip] show ?thesis by (simp add: ip_distance_def)
next
  case (Some b)
  note b = next_ip_Some [OF Some]
  show ?thesis
  proof (cases "length (norm_ip b) = length (norm_ip ip)")
    case True
    with b have "norm_ip b = b"
      using norm_ip_length [of ip] by (auto simp: norm_ip_def split: option.splits if_splits dest: to4_length)
    with b Some True norm_ip_bound [of b] show ?thesis by (simp add: ip_distance_def split: if_splits)
  next
    case False
    with b norm_ip_length [of ip] have "length (norm_ip b) = 4" "length (norm_ip ip) \<noteq> 4"
      by (auto simp: norm_ip_def split: option.splits if_splits dest: to4_length)
    moreover have "bytes_val (norm_ip ip) < 2 ^ 128"
      using bytes_val_less [of "norm_ip ip"] norm_ip_length [of ip] by (auto intro: less_le_trans)
    ultimately show ?thesis using Some by (simp add: ip_distance_def)
  qed
qed

function alloc_loop :: "ipnet \<Rightarrow> string list \<Rightarrow> byte list option \<Rightarrow> byte list option" where
  "alloc_loop n used None = None"
| "alloc_loop n used (Some ip) =
     (if \<not> net_contains n ip then None
      else if ip_string ip \<notin> set used then Some ip
      else alloc_loop n used (next_ip ip))"
  by pat_completeness auto
termination
  by (relation "measure (\<lambda>(n, used, ip). ip_distance ip)") (auto simp: next_ip_distance)

definition next_available_ip :: "string \<Rightarrow> string list \<Rightarrow> string + string" where
  "next_available_ip server_address used_ips =
     (case allocation_network server_address of
        None \<Rightarrow> Inl (''invalid server address '' @ go_quote server_address)
      | Some (server_ip, n) \<Rightarrow>
          let used = used_addresses server_ip n used_ips;
              network_addr = (case to4 (net_ip n) of Some b \<Rightarrow> b | None \<Rightarrow> net_ip n);
              prefix_bits = (if to4 (net_ip n) = None then 128 else 32) in
          (case alloc_loop n used (next_ip network_addr) of
             Some ip \<Rightarrow> Inr (ip_string ip @ ''/'' @ nat_dec prefix_bits)
           | None \<Rightarrow> Inl (''no available IPs in subnet '' @ ipnet_string n)))"

section \<open>The IPv4 search\<close>

definition v4_net :: "ipnet \<Rightarrow> bool" where
  "v4_net n \<longleftrightarrow> ipnet_ok n \<and> net_bits n = 32"

lemma contains_v4_iff:
  assumes "v4_net n" "length x = 4"
  shows "net_contains n x \<longleftrightarrow>
    bytes_val (net_ip n) div 2 ^ (32 - net_ones n) = bytes_val x div 2 ^ (32 - net_ones n)"
proof -
  from assms(1) have "length (net_ip n) = 4" "net_bits n = 32" "net_ones n \<le> 8 * 4"
    by (auto simp: v4_net_def ipnet_ok_def)
  with assms(2) show ?thesis
    using and_bytes_mask_eq_iff [of "net_ip n" 4 x "net_ones n"]
    by (simp add: net_contains_def number_and_mask_def net_mask_def cidr_mask_def)
qed

text \<open>Between the network number and a member every address is a member.\<close>

lemma contains_v4_convex:
  assumes "v4_net n" "length x = 4" "length y = 4" "net_contains n y"
    "bytes_val (net_ip n) \<le> bytes_val x" "bytes_val x \<le> bytes_val y"
  shows "net_contains n x"
  using assms(4-6) div_le_mono [OF assms(5), of "2 ^ (32 - net_ones n)"]
    div_le_mono [OF assms(6), of "2 ^ (32 - net_ones n)"]
  by (simp add: contains_v4_iff assms(1-3))

lemma next_ip_v4_gap:
  assumes "next_ip ip = Some b" "length ip = 4" "length x = 4" "bytes_val ip \<le> bytes_val x" "x \<noteq> ip"
  shows "bytes_val b \<le> bytes_val x"
proof -
  have "bytes_val ip \<noteq> bytes_val x" using assms(2,3,5) by (simp add: bytes_val_inj)
  with next_ip_Some [OF assms(1)] assms(2,4) show ?thesis by simp
qed

lemma next_ip_v4_top:
  assumes "next_ip ip = None" "length ip = 4" "length x = 4" "bytes_val ip \<le> bytes_val x"
  shows "x = ip"
proof -
  have "bytes_val x = bytes_val ip"
    using next_ip_None [OF assms(1)] bytes_val_less [of x] assms(2-4) by simp
  then show ?thesis using assms(2,3) by (simp add: bytes_val_inj)
qed

lemma alloc_loop_Some_v4:
  "alloc_loop n used ip = Some r \<Longrightarrow> ip = Some b \<Longrightarrow> length b = 4 \<Longrightarrow>
   length r = 4 \<and> net_contains n r \<and> ip_string r \<notin> set used \<and> bytes_val b \<le> bytes_val r
   \<and> (\<forall>x. length x = 4 \<longrightarrow> bytes_val b \<le> bytes_val x \<longrightarrow> bytes_val x < bytes_val r \<longrightarrow> ip_string x \<in> set used)"
proof (induction n used ip arbitrary: b rule: alloc_loop.induct)
  case (2 n used ip)
  show ?case
  proof (cases "ip_string ip \<notin> set used")
    case True
    with "2.prems" show ?thesis by (auto split: if_splits)
  next
    case False
    with "2.prems" have c: "net_contains n ip" "alloc_loop n used (next_ip ip) = Some r" "length ip = 4" "b = ip"
      by (auto split: if_splits)
    from c(2) obtain b' where b': "next_ip ip = Some b'" by (cases "next_ip ip") simp_all
    then have v: "length b' = 4" "bytes_val b' = bytes_val ip + 1"
      using next_ip_Some [OF b'] c(3) by auto
    note ih = "2.IH" [OF _ False c(2) b' v(1)]
    have "ip_string x \<in> set used"
      if x: "length x = 4" "bytes_val b \<le> bytes_val x" "bytes_val x < bytes_val r" for x
    proof (cases "x = ip")
      case False
      then have "bytes_val b' \<le> bytes_val x" using next_ip_v4_gap [OF b' c(3) x(1)] x(2) c(4) by simp
      with ih c(1) x(1,3) show ?thesis by blast
    qed (use \<open>\<not> ip_string ip \<notin> set used\<close> in simp)
    with ih c(1,4) v(2) show ?thesis by auto
  qed
qed simp

lemma alloc_loop_None_v4:
  "alloc_loop n used ip = None \<Longrightarrow> v4_net n \<Longrightarrow> ip = Some b \<Longrightarrow> length b = 4 \<Longrightarrow>
   bytes_val (net_ip n) \<le> bytes_val b \<Longrightarrow> length x = 4 \<Longrightarrow> net_contains n x \<Longrightarrow>
   bytes_val b \<le> bytes_val x \<Longrightarrow> ip_string x \<in> set used"
proof (induction n used ip arbitrary: b rule: alloc_loop.induct)
  case (2 n used ip)
  note p = "2.prems"
  from p(3) have e: "b = ip" by simp
  have c: "net_contains n ip" using contains_v4_convex [OF p(2,4,6,7,5,8)] e by simp
  with p(1) have l: "alloc_loop n used (next_ip ip) = None" "ip_string ip \<in> set used"
    by (auto split: if_splits)
  show ?case
  proof (cases "x = ip")
    case False
    obtain b' where b': "next_ip ip = Some b'"
      using next_ip_v4_top [of ip x] False p(4,6,8) e by (cases "next_ip ip") auto
    have v: "length b' = 4" "bytes_val b' = bytes_val ip + 1" using next_ip_Some [OF b'] p(4) e by auto
    have g: "bytes_val b' \<le> bytes_val x" using next_ip_v4_gap [OF b' _ p(6)] p(4,8) e False by simp
    have m: "bytes_val (net_ip n) \<le> bytes_val b'" using v(2) p(5) e by simp
    from "2.IH" [OF _ _ l(1) p(2) b' v(1) m p(6,7) g] c l(2) show ?thesis by simp
  qed (use l in simp)
qed simp

lemma alloc_loop_unused: "alloc_loop n used ip = Some r \<Longrightarrow> net_contains n r \<and> ip_string r \<notin> set used"
  by (induction n used ip rule: alloc_loop.induct) (simp_all split: if_splits)

lemma net_contains_length: "net_contains n r \<Longrightarrow> length r = 4 \<or> length r = 16"
  by (auto simp: net_contains_def number_and_mask_def to4_def Let_def split: option.splits if_splits)

lemma ip_string_chars:
  assumes "length r = 4 \<or> length r = 16" "c \<in> set (ip_string r)"
  shows "is_hex c \<or> c = CHR ''.'' \<or> c = CHR '':''"
proof (cases "to4 r")
  case None
  with assms(1) have "r \<noteq> []" "length r = 16" by auto
  with None assms(2) show ?thesis by (auto simp: ip_string_def dest: v6_string_chars)
next
  case (Some b)
  moreover from assms(1) have "r \<noteq> []" by auto
  ultimately show ?thesis
    using assms(2) v4_string_chars [of b c] to4_length [OF Some] by (auto simp: ip_string_def is_hex_def)
qed

lemma hex_plain: "is_hex c \<Longrightarrow> plain_char c"
  by (auto simp: is_hex_def is_digit_def plain_char_def)

lemma dot_colon_plain [simp]: "plain_char CHR ''.''" "plain_char CHR '':''" "plain_char CHR ''/''"
  by (simp_all add: plain_char_def ccode_def)

lemma comma_not_hex [simp]: "\<not> is_hex CHR '',''" "\<not> is_digit CHR '',''"
  by (simp_all add: is_hex_def is_digit_def ccode_def)

lemma ip_string_misc:
  assumes "length r = 4 \<or> length r = 16"
  shows "CHR ''/'' \<notin> set (ip_string r)" "CHR '','' \<notin> set (ip_string r)" "list_all plain_char (ip_string r)"
proof -
  show "CHR ''/'' \<notin> set (ip_string r)" "CHR '','' \<notin> set (ip_string r)"
    using ip_string_chars [OF assms, of "CHR ''/''"] ip_string_chars [OF assms, of "CHR '',''"] by auto
  show "list_all plain_char (ip_string r)"
    unfolding list_all_iff using ip_string_chars [OF assms] hex_plain dot_colon_plain by blast
qed

text \<open>An address printed with any prefix length reads back as itself, or not at all.\<close>

lemma entry_ip_printed:
  assumes "length r = 4 \<or> length r = 16" "list_all is_digit m"
  shows "set (entry_ip (ip_string r @ CHR ''/'' # m)) \<subseteq> {ip_string r}"
proof -
  have t: "trim_space (ip_string r @ CHR ''/'' # m) = ip_string r @ CHR ''/'' # m"
    using assms(2) ip_string_misc(3) [OF assms(1)]
    by (intro trim_space_all_plain) (auto simp: list_all_iff is_digit_plain)
  have "ip_string ip = ip_string r" if "parse_cidr (ip_string r @ CHR ''/'' # m) = Some (ip, n)" for ip n
  proof -
    have "parse_ip (ip_string r) = Some ip"
      using that ip_string_misc(1) [OF assms(1)]
      by (auto simp: parse_cidr_def parse_ip_def index_byte_append Let_def split: option.splits if_splits)
    then have "ip = ip_canon r" using parse_ip_ip_string [OF assms(1)] by simp
    with assms(1) show ?thesis by (auto simp: ip_string_inj ip_canon_def)
  qed
  then show ?thesis
    by (cases "parse_cidr (ip_string r @ CHR ''/'' # m)") (auto simp: entry_ip_def t)
qed

lemma peer_ips_printed:
  assumes "length r = 4 \<or> length r = 16"
  shows "set (peer_ips (ip_string r @ ''/'' @ nat_dec k)) \<subseteq> {ip_string r}"
  using entry_ip_printed [OF assms nat_dec_digits [of k]] ip_string_misc(2) [OF assms]
  by (auto simp: peer_ips_def split_char_absent nat_dec_no_char)

text \<open>What an entry already claims is marked as used.\<close>

lemma used_entry_ips: "set (entry_ip c) \<subseteq> set (used_entry c)"
  by (auto simp: entry_ip_def used_entry_def Let_def split: option.splits)

lemma used_addresses_ips: "v \<in> set used \<Longrightarrow> set (peer_ips v) \<subseteq> set (used_addresses sip n used)"
  using used_entry_ips by (fastforce simp: peer_ips_def used_addresses_def)

lemma allocated_fresh:
  assumes "next_available_ip server_address used = Inr s" "v \<in> set used"
  shows "set (peer_ips s) \<inter> set (peer_ips v) = {}"
proof -
  from assms(1) obtain sip n ip k r where
    "alloc_loop n (used_addresses sip n used) ip = Some r" "s = ip_string r @ ''/'' @ nat_dec k"
    by (auto simp: next_available_ip_def Let_def split: option.splits)
  with peer_ips_printed [of r k] used_addresses_ips [OF assms(2), of sip n] show ?thesis
    using net_contains_length alloc_loop_unused by blast
qed

section \<open>Properties\<close>

text \<open>C13: a handed-out address shares no host address with any entry given as used: two
  peers created one after the other never receive the same address, for IPv4 and IPv6.\<close>

theorem next_available_ip_fresh:
  assumes "next_available_ip server_address used = Inr s" "v \<in> set used"
  shows "set (peer_ips s) \<inter> set (peer_ips v) = {}"
  by (rule allocated_fresh [OF assms])

theorem next_available_ip_fresh_witness:
  "set (peer_ips ''10.0.0.3/32'') \<inter> set (peer_ips ''10.0.0.2/32, x'') = {}"
proof (rule next_available_ip_fresh [of "''10.0.0.1/24''" "[''10.0.0.2/32, x'']"])
  show "next_available_ip ''10.0.0.1/24'' [''10.0.0.2/32, x''] = Inr ''10.0.0.3/32''"
    by code_simp
qed simp

text \<open>On an IPv4 pool the allocator returns, as a /32, the least address above the
  network number that lies in the pool and is neither the server, network or broadcast address nor taken.\<close>

theorem next_available_ip_least:
  assumes "allocation_network server_address = Some (sip, n)" "v4_net n"
    "next_available_ip server_address used = Inr s"
  shows "\<exists>r. s = ip_string r @ ''/32'' \<and> length r = 4 \<and> net_contains n r
    \<and> bytes_val (net_ip n) < bytes_val r \<and> ip_string r \<notin> set (used_addresses sip n used)
    \<and> (\<forall>x. length x = 4 \<and> bytes_val (net_ip n) < bytes_val x \<and> bytes_val x < bytes_val r
          \<longrightarrow> ip_string x \<in> set (used_addresses sip n used))"
proof -
  let ?u = "used_addresses sip n used"
  from assms(2) have l: "length (net_ip n) = 4" by (simp add: v4_net_def ipnet_ok_def)
  with assms(1,3) obtain r where r: "alloc_loop n ?u (next_ip (net_ip n)) = Some r" "s = ip_string r @ ''/'' @ nat_dec 32"
    by (auto simp: next_available_ip_def Let_def split: option.splits)
  then obtain b where b: "next_ip (net_ip n) = Some b" by (cases "next_ip (net_ip n)") auto
  with l have v: "length b = 4" "bytes_val b = bytes_val (net_ip n) + 1"
    using next_ip_Some [OF b] by simp_all
  have "nat_dec 32 = ''32''" by code_simp
  with alloc_loop_Some_v4 [OF r(1) b v(1)] r(2) v(2) show ?thesis by auto
qed

theorem next_available_ip_least_witness:
  "\<exists>r. ''10.0.0.3/32'' = ip_string r @ ''/32'' \<and> length r = 4"
proof -
  have "allocation_network ''10.0.0.1/24'' =
    Some (v4_in_v6 @ [10, 0, 0, 1], \<lparr>net_ip = [10, 0, 0, 0], net_ones = 24, net_bits = 32\<rparr>)"
    by code_simp
  moreover have "v4_net \<lparr>net_ip = [10, 0, 0, 0], net_ones = 24, net_bits = 32\<rparr>" by code_simp
  moreover have "next_available_ip ''10.0.0.1/24'' [''10.0.0.2/32''] = Inr ''10.0.0.3/32''" by code_simp
  ultimately show ?thesis using next_available_ip_least by blast
qed

text \<open>The allocator reports an exhausted IPv4 pool only when every address of the pool
  is taken.\<close>

theorem next_available_ip_exhausted:
  assumes "allocation_network server_address = Some (sip, n)" "v4_net n"
    "next_available_ip server_address used = Inl e" "length x = 4" "net_contains n x"
    "bytes_val (net_ip n) < bytes_val x"
  shows "ip_string x \<in> set (used_addresses sip n used)"
proof -
  let ?u = "used_addresses sip n used"
  from assms(2) have l: "length (net_ip n) = 4" by (simp add: v4_net_def ipnet_ok_def)
  with assms(1,3) have r: "alloc_loop n ?u (next_ip (net_ip n)) = None"
    by (auto simp: next_available_ip_def Let_def split: option.splits)
  obtain b where b: "next_ip (net_ip n) = Some b"
    using next_ip_v4_top [OF _ l assms(4)] assms(6) by (cases "next_ip (net_ip n)") auto
  with l have v: "length b = 4" "bytes_val b = bytes_val (net_ip n) + 1"
    using next_ip_Some [OF b] by simp_all
  show ?thesis using alloc_loop_None_v4 [OF r assms(2) b v(1) _ assms(4,5)] v(2) assms(6) by simp
qed

theorem next_available_ip_exhausted_witness:
  "ip_string [10, 0, 0, 2] \<in> set (used_addresses (v4_in_v6 @ [10, 0, 0, 1])
     \<lparr>net_ip = [10, 0, 0, 0], net_ones = 30, net_bits = 32\<rparr> [''10.0.0.2/32''])"
proof (rule next_available_ip_exhausted)
  show "allocation_network ''10.0.0.1/30'' =
    Some (v4_in_v6 @ [10, 0, 0, 1], \<lparr>net_ip = [10, 0, 0, 0], net_ones = 30, net_bits = 32\<rparr>)"
    by code_simp
  show "next_available_ip ''10.0.0.1/30'' [''10.0.0.2/32''] = Inl ''no available IPs in subnet 10.0.0.0/30''"
    by code_simp
  show "net_contains \<lparr>net_ip = [10, 0, 0, 0], net_ones = 30, net_bits = 32\<rparr> [10, 0, 0, 2]" by code_simp
qed (simp_all add: v4_net_def ipnet_ok_def)

end
