(* ===== verification/Edits.thy ===== *)
theory Edits
  imports Store Ipam
begin

text \<open>
  \<^verbatim>\<open>internal/handlers\<close>: what the request handlers do to the configuration.  Every handler passes
  a closure to \<^verbatim>\<open>Store.Write\<close>; such a closure is an \<open>edit\<close> here, a function that returns the new
  configuration or an error.  A form is the map of its values; generated keys and identifiers,
  the clock and the networks of ZeroTier are arguments.
\<close>

section \<open>Forms\<close>

type_synonym form = "string \<Rightarrow> string list"

definition form_value :: "form \<Rightarrow> string \<Rightarrow> string" where
  "form_value f k = (case f k of [] \<Rightarrow> [] | v # _ \<Rightarrow> v)"

definition form_text :: "form \<Rightarrow> string \<Rightarrow> string" where
  "form_text f k = trim_space (form_value f k)"

definition form_on :: "form \<Rightarrow> string \<Rightarrow> bool" where
  "form_on f k \<longleftrightarrow> form_value f k = ''on''"

text \<open>\<^verbatim>\<open>strconv.ParseUint\<close> with its error dropped: zero for bad syntax, the maximum when out of range.\<close>

definition form_uint :: "nat \<Rightarrow> form \<Rightarrow> string \<Rightarrow> nat" where
  "form_uint bits f k = fst (parse_uint 10 bits (form_value f k))"

definition route_separator :: "char \<Rightarrow> bool" where
  "route_separator c \<longleftrightarrow> ccode c = 10 \<or> ccode c = 13 \<or> c = CHR '',''"

definition parse_route_list :: "string \<Rightarrow> string list" where
  "parse_route_list s = filter (\<lambda>f. f \<noteq> []) (map trim_space (fields_func route_separator [] s))"

section \<open>Edits\<close>

datatype edit_error = Message string | Rejected "validation_error list"

type_synonym edit = "app_config \<Rightarrow> edit_error + app_config"

definition accept_if :: "validation_error list \<Rightarrow> app_config \<Rightarrow> edit_error + app_config" where
  "accept_if errs cfg = (if errs \<noteq> [] then Inl (Rejected errs) else Inr cfg)"

definition set_peers :: "peer list \<Rightarrow> app_config \<Rightarrow> app_config" where
  "set_peers ps cfg = cfg\<lparr>cfg_peers := ps\<rparr>"

definition edit_peer :: "string \<Rightarrow> (peer \<Rightarrow> peer) \<Rightarrow> peer list \<Rightarrow> peer list" where
  "edit_peer i f ps = upd_first (\<lambda>p. p_id p = i) f ps"

definition config_nets :: "gateway_net list \<Rightarrow> app_config \<Rightarrow> gateway_net list" where
  "config_nets zt cfg = gateway_nets (s_address (cfg_server cfg)) zt"

subsection \<open>Peers\<close>

definition assign_new_peer_tables :: "peer list \<Rightarrow> peer \<Rightarrow> peer" where
  "assign_new_peer_tables existing p =
     (let p1 = (if p_is_exit p then p\<lparr>p_table := assign_routing_table_id existing\<rparr> else p) in
      if p_policy_routes p1 \<noteq> [] then p1\<lparr>p_policy_table := assign_routing_table_id (existing @ [p1])\<rparr> else p1)"

definition auto_address :: "peer \<Rightarrow> app_config \<Rightarrow> edit_error + peer" where
  "auto_address p cfg =
     (case next_available_ip (s_address (cfg_server cfg)) (map p_allowed_ips (cfg_peers cfg)) of
        Inl e \<Rightarrow> Inl (Message (''auto-assign IP: '' @ e))
      | Inr ip \<Rightarrow> Inr (p\<lparr>p_allowed_ips := ip\<rparr>))"

definition add_peer :: "gateway_net list \<Rightarrow> peer \<Rightarrow> edit" where
  "add_peer zt p cfg =
     (case (if p_allowed_ips p = [] then auto_address p cfg else Inr p) of
        Inl e \<Rightarrow> Inl e
      | Inr p1 \<Rightarrow>
          let p2 = assign_new_peer_tables (cfg_peers cfg) p1 in
          accept_if (validate_peer (config_nets zt cfg) p2) (set_peers (cfg_peers cfg @ [p2]) cfg))"

definition add_quick_peer :: "gateway_net list \<Rightarrow> peer \<Rightarrow> edit" where
  "add_quick_peer zt p cfg =
     (case auto_address p cfg of
        Inl e \<Rightarrow> Inl e
      | Inr p1 \<Rightarrow> accept_if (validate_peer (config_nets zt cfg) p1) (set_peers (cfg_peers cfg @ [p1]) cfg))"

text \<open>The fields a peer form sets, for a new peer and for an edited one.\<close>

definition peer_form :: "form \<Rightarrow> gotime \<Rightarrow> peer \<Rightarrow> peer" where
  "peer_form f now p =
     p\<lparr>p_name := form_text f ''name'', p_allowed_ips := form_text f ''allowedIPs'',
       p_endpoint := form_text f ''endpoint'', p_keepalive := of_nat (form_uint 16 f ''persistentKeepalive''),
       p_dns := form_text f ''dns'', p_client_allowed_ips := form_text f ''clientAllowedIPs'',
       p_is_exit := form_on f ''isExitNode'',
       p_exit_id := (if form_on f ''isExitNode'' then [] else form_value f ''exitNodeID''),
       p_exit_all := form_on f ''exitNodeAllowAll'',
       p_exit_routes := parse_route_list (form_value f ''exitNodeRoutes''),
       p_advertised := parse_route_list (form_value f ''advertisedRoutes''),
       p_policy_routes := parse_route_list (form_value f ''policyRoutes''),
       p_strict := form_on f ''strictPolicyRouting'', p_gateway_id := form_text f ''vpnGatewayID'',
       p_enabled := form_on f ''enabled'', p_updated := now\<rparr>"

definition new_peer :: "form \<Rightarrow> gotime \<Rightarrow> string \<Rightarrow> string \<times> string \<Rightarrow> string \<Rightarrow> peer" where
  "new_peer f now i keys psk =
     (peer_form f now zero_peer)\<lparr>p_id := i, p_private_key := fst keys, p_public_key := snd keys,
        p_preshared_key := psk, p_created := now\<rparr>"

definition quick_peer :: "string \<Rightarrow> gotime \<Rightarrow> string \<Rightarrow> string \<times> string \<Rightarrow> string \<Rightarrow> peer" where
  "quick_peer name now i keys psk =
     zero_peer\<lparr>p_id := i, p_name := name, p_private_key := fst keys, p_public_key := snd keys,
       p_preshared_key := psk, p_client_allowed_ips := ''0.0.0.0/0, ::/0'', p_keepalive := 25,
       p_enabled := True, p_created := now, p_updated := now\<rparr>"

definition exit_table :: "peer list \<Rightarrow> peer \<Rightarrow> peer" where
  "exit_table ps p =
     (if \<not> p_is_exit p then p\<lparr>p_table := 0\<rparr>
      else if p_table p = 0 then p\<lparr>p_table := assign_routing_table_id ps\<rparr> else p)"

definition policy_table :: "peer list \<Rightarrow> peer \<Rightarrow> peer" where
  "policy_table ps p =
     (if p_policy_routes p = [] then p\<lparr>p_policy_table := 0\<rparr>
      else if p_policy_table p = 0 then p\<lparr>p_policy_table := assign_routing_table_id ps\<rparr> else p)"

text \<open>The pointer \<^verbatim>\<open>p\<close> of the source points into the list, so each step sees the previous one.\<close>

definition update_peer :: "gateway_net list \<Rightarrow> string \<Rightarrow> form \<Rightarrow> gotime \<Rightarrow> edit" where
  "update_peer zt i f now cfg =
     (case find_peer_by_id (cfg_peers cfg) i of
        None \<Rightarrow> Inl (Message ''peer not found'')
      | Some p \<Rightarrow>
          let ps1 = edit_peer i (peer_form f now) (cfg_peers cfg);
              ps2 = edit_peer i (exit_table ps1) ps1;
              ps3 = edit_peer i (policy_table ps2) ps2;
              ps4 = (if p_is_exit p \<and> \<not> form_on f ''isExitNode'' then cascade_clear_exit_node ps3 i else ps3) in
          (case find_peer_by_id ps4 i of
             None \<Rightarrow> Inl (Message ''peer not found'')
           | Some q \<Rightarrow> accept_if (validate_peer (config_nets zt cfg) q) (set_peers ps4 cfg)))"

definition delete_peer :: "string \<Rightarrow> edit" where
  "delete_peer i cfg =
     (case find_peer_by_id (cfg_peers cfg) i of
        None \<Rightarrow> Inl (Message ''peer not found'')
      | Some p \<Rightarrow>
          let ps = (if p_is_exit p then cascade_clear_exit_node (cfg_peers cfg) i else cfg_peers cfg) in
          Inr (set_peers (del_first (\<lambda>p. p_id p = i) ps) cfg))"

definition toggle_peer :: "string \<Rightarrow> gotime \<Rightarrow> edit" where
  "toggle_peer i now cfg =
     (case find_peer_by_id (cfg_peers cfg) i of
        None \<Rightarrow> Inl (Message ''peer not found'')
      | Some p \<Rightarrow>
          let ps = edit_peer i (\<lambda>p. p\<lparr>p_enabled := \<not> p_enabled p, p_updated := now\<rparr>) (cfg_peers cfg) in
          Inr (set_peers (if p_enabled p \<and> p_is_exit p then cascade_clear_exit_node ps i else ps) cfg))"

definition regenerate_keys :: "string \<Rightarrow> string + string \<times> string \<Rightarrow> gotime \<Rightarrow> edit" where
  "regenerate_keys i keys now cfg =
     (case find_peer_by_id (cfg_peers cfg) i of
        None \<Rightarrow> Inl (Message ''peer not found'')
      | Some _ \<Rightarrow>
          (case keys of
             Inl e \<Rightarrow> Inl (Message (''key generation: '' @ e))
           | Inr (priv, pub) \<Rightarrow>
               Inr (set_peers (edit_peer i (\<lambda>p. p\<lparr>p_private_key := priv, p_public_key := pub, p_last_seen := 0,
                      p_rx := 0, p_tx := 0, p_updated := now\<rparr>) (cfg_peers cfg)) cfg)))"

definition assign_gateway :: "string \<Rightarrow> string \<Rightarrow> gotime \<Rightarrow> edit" where
  "assign_gateway i gid now cfg =
     (case find_peer_by_id (cfg_peers cfg) i of
        None \<Rightarrow> Inl (Message ''peer not found'')
      | Some _ \<Rightarrow>
          if gid \<noteq> [] \<and> find_vpn_gateway_by_id (cfg_gateways cfg) gid = None then Inl (Message ''gateway not found'')
          else Inr (set_peers (edit_peer i (\<lambda>p. p\<lparr>p_gateway_id := gid, p_updated := now\<rparr>) (cfg_peers cfg)) cfg))"

subsection \<open>Devices behind a peer\<close>

definition record_scan :: "string \<Rightarrow> net_device list \<Rightarrow> gotime \<Rightarrow> edit" where
  "record_scan i devices now cfg =
     (case find_peer_by_id (cfg_peers cfg) i of
        None \<Rightarrow> Inl (Message ''peer not found'')
      | Some _ \<Rightarrow> Inr (set_peers (edit_peer i (\<lambda>p. p\<lparr>p_devices := map (\<lambda>d. d\<lparr>nd_last_seen := now\<rparr>) devices,
                    p_updated := now\<rparr>) (cfg_peers cfg)) cfg))"

definition route_device :: "string \<Rightarrow> string \<Rightarrow> device_rule list \<Rightarrow> device_rule list" where
  "route_device ip gid rules =
     (if list_ex (\<lambda>r. dr_ip r = ip) rules
      then upd_first (\<lambda>r. dr_ip r = ip) (\<lambda>r. r\<lparr>dr_gateway := gid, dr_enabled := True\<rparr>) rules
      else rules @ [\<lparr>dr_ip = ip, dr_gateway = gid, dr_enabled = True\<rparr>])"

definition set_device_route :: "string \<Rightarrow> string \<Rightarrow> string \<Rightarrow> gotime \<Rightarrow> edit" where
  "set_device_route i ip gid now cfg =
     (case find_peer_by_id (cfg_peers cfg) i of
        None \<Rightarrow> Inl (Message ''peer not found'')
      | Some _ \<Rightarrow> Inr (set_peers (edit_peer i (\<lambda>p. p\<lparr>p_device_rules := route_device ip gid (p_device_rules p),
                    p_updated := now\<rparr>) (cfg_peers cfg)) cfg))"

subsection \<open>Gateways\<close>

definition add_gateway :: "vpn_gateway \<Rightarrow> edit" where
  "add_gateway g cfg = Inr (cfg\<lparr>cfg_gateways := cfg_gateways cfg @ [g]\<rparr>)"

definition delete_gateway :: "string \<Rightarrow> edit" where
  "delete_gateway i cfg =
     (case find_vpn_gateway_by_id (cfg_gateways cfg) i of
        None \<Rightarrow> Inl (Message ''gateway not found'')
      | Some _ \<Rightarrow> Inr (cfg\<lparr>cfg_peers := map (\<lambda>p. if p_gateway_id p = i then p\<lparr>p_gateway_id := []\<rparr> else p) (cfg_peers cfg),
                         cfg_gateways := del_first (\<lambda>g. g_id g = i) (cfg_gateways cfg)\<rparr>))"

definition toggle_gateway :: "string \<Rightarrow> gotime \<Rightarrow> edit" where
  "toggle_gateway i now cfg =
     (case find_vpn_gateway_by_id (cfg_gateways cfg) i of
        None \<Rightarrow> Inl (Message ''gateway not found'')
      | Some _ \<Rightarrow> Inr (cfg\<lparr>cfg_gateways := upd_first (\<lambda>g. g_id g = i)
                    (\<lambda>g. g\<lparr>g_enabled := \<not> g_enabled g, g_updated := now\<rparr>) (cfg_gateways cfg)\<rparr>))"

subsection \<open>Server settings\<close>

definition set_server :: "server_config \<Rightarrow> app_config \<Rightarrow> app_config" where
  "set_server s cfg = cfg\<lparr>cfg_server := s\<rparr>"

definition server_form :: "form \<Rightarrow> server_config \<Rightarrow> server_config" where
  "server_form f s =
     s\<lparr>s_listen_port := of_nat (form_uint 16 f ''listenPort''), s_address := form_text f ''address'',
       s_endpoint := form_text f ''endpoint'', s_dns := form_text f ''dns'', s_mtu := of_nat (form_uint 16 f ''mtu''),
       s_table := form_text f ''table'', s_fwmark := form_text f ''fwMark'', s_pre_up := form_value f ''preUp'',
       s_post_up := form_value f ''postUp'', s_pre_down := form_value f ''preDown'', s_post_down := form_value f ''postDown'',
       s_require_passkey := (form_on f ''requirePasskey'' \<or> form_value f ''requirePasskey'' = ''true'')\<rparr>"

definition update_server :: "form \<Rightarrow> edit" where
  "update_server f cfg =
     (let s = server_form f (cfg_server cfg) in accept_if (validate_server s) (set_server s cfg))"

definition update_bgp_server :: "form \<Rightarrow> edit" where
  "update_bgp_server f cfg =
     Inr (set_server ((cfg_server cfg)\<lparr>s_bgp_enabled := form_on f ''bgpEnabled'',
       s_bgp_asn := of_nat (form_uint 32 f ''bgpAsn''), s_bgp_address := form_text f ''bgpListenAddress'',
       s_bgp_port := of_nat (form_uint 16 f ''bgpListenPort'')\<rparr>) cfg)"

text \<open>\<^verbatim>\<open>main\<close> generates the server key on the first start.\<close>

definition init_server_key :: "string + string \<times> string \<Rightarrow> edit" where
  "init_server_key keys cfg =
     (case keys of
        Inl e \<Rightarrow> Inl (Message e)
      | Inr (priv, _) \<Rightarrow> Inr (set_server ((cfg_server cfg)\<lparr>s_private_key := priv\<rparr>) cfg))"

definition set_passkeys :: "passkey list \<Rightarrow> app_config \<Rightarrow> app_config" where
  "set_passkeys ks cfg = set_server ((cfg_server cfg)\<lparr>s_passkeys := ks\<rparr>) cfg"

definition add_passkey :: "passkey \<Rightarrow> edit" where
  "add_passkey pk cfg =
     (if list_ex (\<lambda>k. pk_id k = pk_id pk) (s_passkeys (cfg_server cfg)) then Inl (Message ''passkey is already registered'')
      else Inr (set_passkeys (s_passkeys (cfg_server cfg) @ [pk]) cfg))"

definition delete_passkey :: "string \<Rightarrow> edit" where
  "delete_passkey i cfg =
     (let ks = s_passkeys (cfg_server cfg); rest = filter (\<lambda>k. pk_id k \<noteq> i) ks; srv = (cfg_server cfg)\<lparr>s_passkeys := rest\<rparr> in
      if \<not> list_ex (\<lambda>k. pk_id k = i) ks then Inl (Message ''passkey not found'')
      else Inr (set_server (if rest = [] then srv\<lparr>s_require_passkey := False\<rparr> else srv) cfg))"

text \<open>After a login: the sign counter and the time of use.\<close>

definition touch_passkey :: "passkey \<Rightarrow> edit" where
  "touch_passkey pk cfg =
     Inr (set_passkeys (upd_first (\<lambda>k. pk_id k = pk_id pk)
       (\<lambda>k. k\<lparr>pk_sign_count := pk_sign_count pk, pk_last_used := pk_last_used pk\<rparr>) (s_passkeys (cfg_server cfg))) cfg)"

subsection \<open>BGP peers\<close>

definition first_value :: "form \<Rightarrow> string \<Rightarrow> string \<Rightarrow> string" where
  "first_value f a b = (if form_value f a = [] then form_value f b else form_value f a)"

definition parse_max_prefix_length :: "string \<Rightarrow> u16" where
  "parse_max_prefix_length v =
     (let s = trim_space v in
      if s = [] then 0
      else case parse_uint 10 16 s of
             (_, Some _) \<Rightarrow> 129 | (n, None) \<Rightarrow> if 128 < n then 129 else of_nat n)"

definition max_length_field :: "form \<Rightarrow> string \<Rightarrow> string \<Rightarrow> u16" where
  "max_length_field f a b =
     (let n = parse_max_prefix_length (form_value f a) in
      if n = 0 then parse_max_prefix_length (form_value f b) else n)"

definition uint_or :: "nat \<Rightarrow> nat \<Rightarrow> string \<Rightarrow> nat" where
  "uint_or bits d s = (let n = fst (parse_uint 10 bits s) in if n = 0 then d else n)"

definition nth_or :: "string \<Rightarrow> string list \<Rightarrow> nat \<Rightarrow> string" where
  "nth_or d xs i = (if i < length xs then trim_space (xs ! i) else d)"

definition parse_route_filter_form :: "form \<Rightarrow> string \<Rightarrow> string \<Rightarrow> string \<Rightarrow> route_filter list" where
  "parse_route_filter_form f pf mf af =
     List.map_filter (\<lambda>(i, p). if trim_space p = [] then None
         else Some \<lparr>rf_prefix = trim_space p, rf_matcher = nth_or ''exact'' (f mf) i, rf_action = nth_or ''accept'' (f af) i\<rparr>)
       (enumerate 0 (f pf))"

definition bgp_peer_form :: "form \<Rightarrow> bgp_peer \<Rightarrow> bgp_peer" where
  "bgp_peer_form f p =
     p\<lparr>b_connect := (form_on f ''connect'' \<or> form_on f ''bgpConnect''),
       b_redistribute := (form_on f ''redistributeConnected'' \<or> form_on f ''bgpRedistributeConnected''),
       b_max_received := max_length_field f ''maxReceivedPrefixLength'' ''bgpMaxReceivedPrefixLength'',
       b_max_advertised := max_length_field f ''maxAdvertisedPrefixLength'' ''bgpMaxAdvertisedPrefixLength'',
       b_peer_ip := (if form_text f ''peerIP'' = [] then form_text f ''bgpPeerIP'' else form_text f ''peerIP''),
       b_peer_port := of_nat (uint_or 16 179 (first_value f ''peerPort'' ''bgpPeerPort'')),
       b_peer_asn := of_nat (uint_or 32 64512 (first_value f ''peerAsn'' ''bgpPeerAsn'')),
       b_route_filters := parse_route_filter_form f ''filterPrefix[]'' ''filterMatcher[]'' ''filterAction[]'',
       b_export_filters := parse_route_filter_form f ''exportFilterPrefix[]'' ''exportFilterMatcher[]'' ''exportFilterAction[]''\<rparr>"

definition edited_bgp_peer :: "form \<Rightarrow> gotime \<Rightarrow> bgp_peer \<Rightarrow> bgp_peer" where
  "edited_bgp_peer f now p =
     (bgp_peer_form f p)\<lparr>b_name := form_text f ''name'', b_enabled := form_on f ''enabled'', b_updated := now\<rparr>"

definition new_bgp_peer :: "form \<Rightarrow> gotime \<Rightarrow> string \<Rightarrow> bgp_peer" where
  "new_bgp_peer f now i = (edited_bgp_peer f now zero_bgp_peer)\<lparr>b_id := i, b_created := now\<rparr>"

definition add_bgp_peer :: "bgp_peer \<Rightarrow> edit" where
  "add_bgp_peer p cfg = accept_if (validate_bgp_peer p) (cfg\<lparr>cfg_bgp_peers := cfg_bgp_peers cfg @ [p]\<rparr>)"

definition update_bgp_peer :: "string \<Rightarrow> form \<Rightarrow> gotime \<Rightarrow> edit" where
  "update_bgp_peer i f now cfg =
     (case find_bgp_peer_by_id (cfg_bgp_peers cfg) i of
        None \<Rightarrow> Inl (Message ''BGP peer not found'')
      | Some p \<Rightarrow> accept_if (validate_bgp_peer (edited_bgp_peer f now p))
                    (cfg\<lparr>cfg_bgp_peers := upd_first (\<lambda>p. b_id p = i) (edited_bgp_peer f now) (cfg_bgp_peers cfg)\<rparr>))"

definition delete_bgp_peer :: "string \<Rightarrow> edit" where
  "delete_bgp_peer i cfg =
     (if find_bgp_peer_by_id (cfg_bgp_peers cfg) i = None then Inl (Message ''BGP peer not found'')
      else Inr (cfg\<lparr>cfg_bgp_peers := del_first (\<lambda>p. b_id p = i) (cfg_bgp_peers cfg)\<rparr>))"

subsection \<open>ZeroTier\<close>

definition set_zerotier :: "zt_config \<Rightarrow> app_config \<Rightarrow> app_config" where
  "set_zerotier z cfg = cfg\<lparr>cfg_zerotier := z\<rparr>"

definition update_zerotier :: "form \<Rightarrow> edit" where
  "update_zerotier f cfg =
     (let z = (cfg_zerotier cfg)\<lparr>zt_enabled := form_on f ''ztEnabled'', zt_port := of_nat (form_uint 16 f ''ztPort''),
          zt_disable_masq := (\<not> form_on f ''ztMasquerade''),
          zt_exclude_adv := form_on f ''ztExcludeAdvertisedRoutesFromMasquerade''\<rparr> in
      accept_if (validate_zerotier z) (set_zerotier z cfg))"

definition network_form :: "form \<Rightarrow> zt_network" where
  "network_form f = \<lparr>zn_id = to_lower (form_text f ''networkID''), zn_name = form_text f ''networkName'',
     zn_managed = form_on f ''allowManaged'', zn_global = form_on f ''allowGlobal'',
     zn_default = form_on f ''allowDefault'', zn_dns = form_on f ''allowDNS''\<rparr>"

definition join_network :: "form \<Rightarrow> edit" where
  "join_network f cfg =
     (let n = network_form f; ns = zt_networks (cfg_zerotier cfg);
          ns' = (if find_zerotier_network ns (zn_id n) = None then ns @ [n]
                 else upd_first (\<lambda>m. equal_fold (zn_id m) (zn_id n)) (\<lambda>_. n) ns);
          z = (cfg_zerotier cfg)\<lparr>zt_networks := ns'\<rparr> in
      accept_if (validate_zerotier z) (set_zerotier z cfg))"

definition leave_network :: "string \<Rightarrow> edit" where
  "leave_network i cfg =
     (let ns = zt_networks (cfg_zerotier cfg) in
      if \<not> list_ex (\<lambda>n. equal_fold (zn_id n) i) ns then Inl (Message (''network '' @ i @ '' is not configured''))
      else Inr (set_zerotier ((cfg_zerotier cfg)\<lparr>zt_networks := del_first (\<lambda>n. equal_fold (zn_id n) i) ns\<rparr>) cfg))"

section \<open>Handing an edit to the store\<close>

text \<open>An error of the closure is returned as it is; the type assertion of the callers tells
  validation errors from the others.\<close>

definition error_text :: "edit_error \<Rightarrow> string" where
  "error_text e = (case e of Message m \<Rightarrow> m | Rejected errs \<Rightarrow> errors_text errs)"

definition edit_fn :: "edit \<Rightarrow> app_config \<Rightarrow> app_config \<times> string option" where
  "edit_fn ed cfg = (case ed cfg of Inl e \<Rightarrow> (cfg, Some (error_text e)) | Inr cfg' \<Rightarrow> (cfg', None))"

definition submit :: "env \<Rightarrow> edit \<Rightarrow> store \<Rightarrow> world \<Rightarrow> store \<times> world \<times> write_error option" where
  "submit env ed s w =
     (case ed (st_config s) of
        Inl (Rejected errs) \<Rightarrow> (s, w, Some (Invalid errs))
      | _ \<Rightarrow> write_store env (edit_fn ed) s w)"

end
