(* ===== verification/Auth_Session.thy ===== *)
theory Auth_Session
  imports Models
begin

text \<open>
  \<^verbatim>\<open>internal/auth/session.go\<close>: login sessions and WebAuthn challenges.  Both stores are maps from
  random tokens to times; the random bytes and the clock are arguments of each operation, so a
  history of the server is a list of timed events.  The mutexes make each operation one step.
\<close>

section \<open>Base64 for tokens\<close>

definition b64_url_char :: "nat \<Rightarrow> char" where
  "b64_url_char n =
     (if n < 26 then char_of (65 + n) else if n < 52 then char_of (71 + n)
      else if n < 62 then char_of (n - 4) else if n = 62 then CHR ''-'' else CHR ''_'')"

text \<open>\<^verbatim>\<open>base64.RawURLEncoding.EncodeToString\<close>\<close>

fun b64_raw_url :: "byte list \<Rightarrow> string" where
  "b64_raw_url [] = []"
| "b64_raw_url [a] = [b64_url_char (unat a div 4), b64_url_char (unat a mod 4 * 16)]"
| "b64_raw_url [a, b] =
     [b64_url_char (unat a div 4), b64_url_char (unat a mod 4 * 16 + unat b div 16),
      b64_url_char (unat b mod 16 * 4)]"
| "b64_raw_url (a # b # c # r) =
     b64_url_char (unat a div 4) # b64_url_char (unat a mod 4 * 16 + unat b div 16)
     # b64_url_char (unat b mod 16 * 4 + unat c div 64) # b64_url_char (unat c mod 64) # b64_raw_url r"

section \<open>Sessions\<close>

definition session_cookie_name :: string where
  "session_cookie_name = ''wg_busy_session''"

definition session_duration :: gotime where
  "session_duration = 7 * 24 * 3600 * second"

definition challenge_ttl :: gotime where
  "challenge_ttl = 5 * 60 * second"

record session =
  ses_created :: gotime
  ses_expires :: gotime

type_synonym sessions = "string \<Rightarrow> session option"

record cookie =
  co_name :: string
  co_value :: string
  co_path :: string
  co_expires :: gotime
  co_max_age :: int
  co_http_only :: bool
  co_lax :: bool

definition session_token :: "byte list \<Rightarrow> string" where
  "session_token b = b64_raw_url b"

definition create_session :: "byte list \<Rightarrow> gotime \<Rightarrow> sessions \<Rightarrow> sessions \<times> cookie \<times> string" where
  "create_session b now sm =
     (let token = session_token b; s = \<lparr>ses_created = now, ses_expires = now + session_duration\<rparr> in
      (sm(token \<mapsto> s),
       \<lparr>co_name = session_cookie_name, co_value = token, co_path = ''/'', co_expires = ses_expires s,
        co_max_age = session_duration div second, co_http_only = True, co_lax = True\<rparr>,
       token))"

text \<open>The argument is the value of the session cookie of the request, if it has one.\<close>

definition validate_session :: "string option \<Rightarrow> gotime \<Rightarrow> sessions \<Rightarrow> sessions \<times> bool" where
  "validate_session cookie now sm =
     (case cookie of
        None \<Rightarrow> (sm, False)
      | Some v \<Rightarrow>
          if v = [] then (sm, False)
          else case sm v of
                 None \<Rightarrow> (sm, False)
               | Some s \<Rightarrow> if ses_expires s < now then (sm(v := None), False) else (sm, True))"

definition clear_session :: "string option \<Rightarrow> sessions \<Rightarrow> sessions \<times> cookie" where
  "clear_session cookie sm =
     ((case cookie of None \<Rightarrow> sm | Some v \<Rightarrow> if v \<noteq> [] then sm(v := None) else sm),
      \<lparr>co_name = session_cookie_name, co_value = [], co_path = ''/'', co_expires = unix_time 0,
       co_max_age = -1, co_http_only = True, co_lax = True\<rparr>)"

section \<open>Challenges\<close>

type_synonym challenges = "string \<Rightarrow> gotime option"

definition prune_challenges :: "gotime \<Rightarrow> challenges \<Rightarrow> challenges" where
  "prune_challenges now cs = (\<lambda>k. case cs k of None \<Rightarrow> None | Some e \<Rightarrow> if e < now then None else Some e)"

text \<open>The random source returns bytes or an error.\<close>

definition generate_challenge :: "string + byte list \<Rightarrow> gotime \<Rightarrow> challenges \<Rightarrow> challenges \<times> (string + string)" where
  "generate_challenge rnd now cs =
     (case rnd of
        Inl e \<Rightarrow> (cs, Inl e)
      | Inr b \<Rightarrow> ((prune_challenges now cs)(b64_raw_url b \<mapsto> now + challenge_ttl), Inr (b64_raw_url b)))"

definition verify_and_consume :: "string \<Rightarrow> gotime \<Rightarrow> challenges \<Rightarrow> challenges \<times> bool" where
  "verify_and_consume ch now cs =
     (if ch = [] then (cs, False)
      else case cs ch of
             None \<Rightarrow> (cs, False)
           | Some e \<Rightarrow> (cs(ch := None), now < e))"

section \<open>Histories\<close>

text \<open>
  A history is a list of timed events.  \<open>timed_history\<close> is the shared contract of the two stores: a
  relation between the store and what its history says, which time preserves and every event
  re-establishes, holds at the end of every history in order of time.
\<close>

fun replay :: "(gotime \<Rightarrow> 'e \<Rightarrow> 's \<Rightarrow> 's) \<Rightarrow> 's \<Rightarrow> (gotime \<times> 'e) list \<Rightarrow> 's" where
  "replay step s [] = s"
| "replay step s ((t, e) # evs) = replay step (step t e s) evs"

locale timed_history =
  fixes step :: "gotime \<Rightarrow> 'e \<Rightarrow> 's \<Rightarrow> 's"
    and ghost :: "gotime \<Rightarrow> 'e \<Rightarrow> 'g \<Rightarrow> 'g"
    and rel :: "gotime \<Rightarrow> 's \<Rightarrow> 'g \<Rightarrow> bool"
    and s0 :: 's
    and g0 :: 'g
  assumes rel_start: "rel t s0 g0"
    and rel_mono: "rel t s g \<Longrightarrow> t \<le> t' \<Longrightarrow> rel t' s g"
    and rel_step: "rel t s g \<Longrightarrow> rel t (step t e s) (ghost t e g)"
begin

lemma rel_replay:
  "rel t s g \<Longrightarrow> sorted (t # map fst evs @ [now]) \<Longrightarrow> rel now (replay step s evs) (replay ghost g evs)"
proof (induction evs arbitrary: t s g)
  case Nil
  then show ?case by (auto intro: rel_mono)
next
  case (Cons p evs)
  obtain t' e where p: "p = (t', e)" by (cases p)
  have "rel t' s g" using Cons.prems by (auto simp: p intro: rel_mono)
  from Cons.IH [OF rel_step [OF this, of e]] Cons.prems show ?case by (simp add: p)
qed

lemma rel_history: "sorted (map fst evs @ [now]) \<Longrightarrow> rel now (replay step s0 evs) (replay ghost g0 evs)"
proof (cases evs)
  case (Cons p r)
  obtain t e where p: "p = (t, e)" by (cases p)
  assume "sorted (map fst evs @ [now])"
  with rel_replay [OF rel_start, of t evs now] show ?thesis by (simp add: Cons p)
qed (simp add: rel_start)

end

section \<open>Histories of sessions\<close>

datatype session_event = Ev_Create "byte list" | Ev_Validate "string option" | Ev_Clear "string option"

fun session_step :: "gotime \<Rightarrow> session_event \<Rightarrow> sessions \<Rightarrow> sessions" where
  "session_step t (Ev_Create b) sm = fst (create_session b t sm)"
| "session_step t (Ev_Validate c) sm = fst (validate_session c t sm)"
| "session_step t (Ev_Clear c) sm = fst (clear_session c sm)"

text \<open>The time of the last creation of a token that no later event cleared.\<close>

fun issued_step :: "string \<Rightarrow> gotime \<Rightarrow> session_event \<Rightarrow> gotime option \<Rightarrow> gotime option" where
  "issued_step tok t (Ev_Create b) g = (if session_token b = tok then Some t else g)"
| "issued_step tok t (Ev_Validate c) g = g"
| "issued_step tok t (Ev_Clear c) g = (if c = Some tok then None else g)"

definition mirrors :: "string \<Rightarrow> gotime \<Rightarrow> sessions \<Rightarrow> gotime option \<Rightarrow> bool" where
  "mirrors tok now sm t0 \<longleftrightarrow> tok = [] \<or>
     (case sm tok of
        Some s \<Rightarrow> t0 = Some (ses_created s) \<and> ses_expires s = ses_created s + session_duration
      | None \<Rightarrow> (case t0 of None \<Rightarrow> True | Some t \<Rightarrow> t + session_duration < now))"

interpretation session_history: timed_history session_step "issued_step tok" "mirrors tok" "\<lambda>_. None" None for tok
proof
  fix t t' sm g assume "mirrors tok t sm g" "t \<le> t'"
  then show "mirrors tok t' sm g" by (auto simp: mirrors_def split: option.splits)
next
  fix t sm g e assume "mirrors tok t sm g"
  then show "mirrors tok t (session_step t e sm) (issued_step tok t e g)"
    by (cases e) (auto simp: mirrors_def create_session_def validate_session_def clear_session_def Let_def split: option.splits)
qed (simp add: mirrors_def)

text \<open>C14: a session is accepted exactly when its token was created, not cleared since, and at most
  seven days ago; no sequence of logins, checks and logouts changes that.\<close>

theorem session_valid_iff:
  assumes "sorted (map fst evs @ [now])" "tok \<noteq> []"
  shows "snd (validate_session (Some tok) now (replay session_step (\<lambda>_. None) evs))
    \<longleftrightarrow> (\<exists>t. replay (issued_step tok) None evs = Some t \<and> now \<le> t + session_duration)"
  using session_history.rel_history [OF assms(1), of tok] assms(2)
  by (auto simp: mirrors_def validate_session_def split: option.splits)

theorem session_valid_iff_witness:
  "snd (validate_session (Some ''AQI'') 20 (replay session_step (\<lambda>_. None) [(10, Ev_Create [1, 2]), (15, Ev_Clear (Some ''x''))]))"
proof -
  have t: "session_token [1, 2] = ''AQI''" by code_simp
  show ?thesis
    by (subst session_valid_iff) (simp_all add: t session_duration_def second_def)
qed

section \<open>Histories of challenges\<close>

datatype challenge_event = Ev_Generate "string + byte list" | Ev_Verify string

fun challenge_step :: "gotime \<Rightarrow> challenge_event \<Rightarrow> challenges \<Rightarrow> challenges" where
  "challenge_step t (Ev_Generate r) cs = fst (generate_challenge r t cs)"
| "challenge_step t (Ev_Verify ch) cs = fst (verify_and_consume ch t cs)"

text \<open>The time a challenge was last generated, unless an attempt to use it followed.\<close>

fun outstanding_step :: "string \<Rightarrow> gotime \<Rightarrow> challenge_event \<Rightarrow> gotime option \<Rightarrow> gotime option" where
  "outstanding_step ch t (Ev_Generate r) g =
     (case r of Inl _ \<Rightarrow> g | Inr b \<Rightarrow> if b64_raw_url b = ch then Some t else g)"
| "outstanding_step ch t (Ev_Verify c) g = (if c = ch then None else g)"

definition tracks :: "string \<Rightarrow> gotime \<Rightarrow> challenges \<Rightarrow> gotime option \<Rightarrow> bool" where
  "tracks ch now cs t0 \<longleftrightarrow> ch = [] \<or>
     (case cs ch of
        Some e \<Rightarrow> (\<exists>t. t0 = Some t \<and> e = t + challenge_ttl)
      | None \<Rightarrow> (case t0 of None \<Rightarrow> True | Some t \<Rightarrow> t + challenge_ttl < now))"

interpretation challenge_history: timed_history challenge_step "outstanding_step ch" "tracks ch" "\<lambda>_. None" None for ch
proof
  fix t t' cs g assume "tracks ch t cs g" "t \<le> t'"
  then show "tracks ch t' cs g" by (auto simp: tracks_def split: option.splits)
next
  fix t cs g e assume "tracks ch t cs g"
  then show "tracks ch t (challenge_step t e cs) (outstanding_step ch t e g)"
    by (cases e) (auto simp: tracks_def generate_challenge_def prune_challenges_def verify_and_consume_def
        split: option.splits sum.splits)
qed (simp add: tracks_def)

text \<open>A challenge is accepted exactly when it was generated less than five minutes ago and has
  not been presented since, so every challenge works at most once.\<close>

theorem challenge_valid_iff:
  assumes "sorted (map fst evs @ [now])" "ch \<noteq> []"
  shows "snd (verify_and_consume ch now (replay challenge_step (\<lambda>_. None) evs))
    \<longleftrightarrow> (\<exists>t. replay (outstanding_step ch) None evs = Some t \<and> now < t + challenge_ttl)"
  using challenge_history.rel_history [OF assms(1), of ch] assms(2)
  by (auto simp: tracks_def verify_and_consume_def split: option.splits)

theorem challenge_valid_iff_witness:
  "\<not> snd (verify_and_consume ''AQI'' 20 (replay challenge_step (\<lambda>_. None) [(10, Ev_Generate (Inr [1, 2])), (15, Ev_Verify ''AQI'')]))"
  by (subst challenge_valid_iff) simp_all

end
