(* ===== verification/Cbor.thy ===== *)
theory Cbor
  imports Models "HOL-Library.AList"
begin

text \<open>
  \<^verbatim>\<open>internal/auth/cbor.go\<close>: the CBOR decoder and COSE keys.  A reader is the list of bytes left.
  A Go \<^verbatim>\<open>any\<close> is a value of \<open>cbor\<close>; a Go map is an association list without duplicate keys, and
  the order in which \<^verbatim>\<open>range\<close> visits it is a parameter.  Panics of the runtime (an unhashable map
  key, a slice longer than the allocator allows) are errors of their own.  The recursion of the
  decoder is bounded by fuel, and one unit more than the bytes left is proved to be enough.
\<close>

section \<open>Values and readers\<close>

datatype cbor =
    C_Uint u64
  | C_Int u64
  | C_Bytes "byte list"
  | C_Text "byte list"
  | C_Array "cbor list"
  | C_Map "(cbor \<times> cbor) list"
  | C_Bool bool
  | C_Nil

datatype cbor_error = Eof | Unexpected_Eof | Bad_Length nat | Panic_Make | Panic_Unhashable | Out_Of_Fuel

type_synonym 'a reader = "byte list \<Rightarrow> cbor_error + 'a \<times> byte list"

text \<open>\<^verbatim>\<open>io.ReadFull\<close> into a buffer of \<open>n\<close> bytes.\<close>

definition read_full :: "nat \<Rightarrow> byte list reader" where
  "read_full n bs =
     (if n = 0 then Inr ([], bs)
      else if bs = [] then Inl Eof
      else if length bs < n then Inl Unexpected_Eof
      else Inr (take n bs, drop n bs))"

definition read_uint :: "nat \<Rightarrow> u64 reader" where
  "read_uint n bs =
     (case read_full n bs of Inl e \<Rightarrow> Inl e | Inr (b, r) \<Rightarrow> Inr (of_nat (bytes_val b), r))"

definition read_length :: "nat \<Rightarrow> u64 reader" where
  "read_length info bs =
     (if info < 24 then Inr (of_nat info, bs)
      else if info = 24 then read_uint 1 bs
      else if info = 25 then read_uint 2 bs
      else if info = 26 then read_uint 4 bs
      else if info = 27 then read_uint 8 bs
      else Inl (Bad_Length info))"

text \<open>Go panics when a slice, a map or a function is used as the key of a \<^verbatim>\<open>map[any]any\<close>.\<close>

fun hashable :: "cbor \<Rightarrow> bool" where
  "hashable (C_Bytes _) = False"
| "hashable (C_Array _) = False"
| "hashable (C_Map _) = False"
| "hashable _ = True"

section \<open>The decoder\<close>

text \<open>The two loops, over the decoder of one item.\<close>

primrec decode_items :: "cbor reader \<Rightarrow> nat \<Rightarrow> cbor list reader" where
  "decode_items dec 0 bs = Inr ([], bs)"
| "decode_items dec (Suc n) bs =
     (case dec bs of
        Inl e \<Rightarrow> Inl e
      | Inr (x, r) \<Rightarrow> (case decode_items dec n r of Inl e \<Rightarrow> Inl e | Inr (xs, r') \<Rightarrow> Inr (x # xs, r')))"

primrec decode_pairs :: "cbor reader \<Rightarrow> nat \<Rightarrow> (cbor \<times> cbor) list \<Rightarrow> (cbor \<times> cbor) list reader" where
  "decode_pairs dec 0 m bs = Inr (m, bs)"
| "decode_pairs dec (Suc n) m bs =
     (case dec bs of
        Inl e \<Rightarrow> Inl e
      | Inr (k, r) \<Rightarrow>
          (case dec r of
             Inl e \<Rightarrow> Inl e
           | Inr (v, r') \<Rightarrow>
               if hashable k then decode_pairs dec n (AList.update k v m) r' else Inl Panic_Unhashable))"

definition read_bytes :: "nat \<Rightarrow> u64 \<Rightarrow> byte list reader" where
  "read_bytes mem val bs = (if mem < unat val then Inl Panic_Make else read_full (unat val) bs)"

definition decode_body :: "nat \<Rightarrow> cbor reader \<Rightarrow> nat \<Rightarrow> nat \<Rightarrow> u64 \<Rightarrow> cbor reader" where
  "decode_body mem dec major info val bs =
     (if major = 0 then Inr (C_Uint val, bs)
      else if major = 1 then Inr (C_Int (- 1 - val), bs)
      else if major = 2 then
        (case read_bytes mem val bs of Inl e \<Rightarrow> Inl e | Inr (b, r) \<Rightarrow> Inr (C_Bytes b, r))
      else if major = 3 then
        (case read_bytes mem val bs of Inl e \<Rightarrow> Inl e | Inr (b, r) \<Rightarrow> Inr (C_Text b, r))
      else if major = 4 then
        (if mem < 16 * unat val then Inl Panic_Make
         else case decode_items dec (unat val) bs of Inl e \<Rightarrow> Inl e | Inr (xs, r) \<Rightarrow> Inr (C_Array xs, r))
      else if major = 5 then
        (case decode_pairs dec (unat val) [] bs of Inl e \<Rightarrow> Inl e | Inr (m, r) \<Rightarrow> Inr (C_Map m, r))
      else if major = 6 then dec bs
      else if info = 20 then Inr (C_Bool False, bs)
      else if info = 21 then Inr (C_Bool True, bs)
      else if info = 22 then Inr (C_Nil, bs)
      else Inr (C_Uint val, bs))"

primrec decode :: "nat \<Rightarrow> nat \<Rightarrow> cbor reader" where
  "decode mem 0 = (\<lambda>bs. Inl Out_Of_Fuel)"
| "decode mem (Suc k) = (\<lambda>bs.
     case read_full 1 bs of
       Inl e \<Rightarrow> Inl e
     | Inr (h, r) \<Rightarrow>
         let major = unat (hd h) div 32; info = unat (hd h) mod 32 in
         (case read_length info r of
            Inl e \<Rightarrow> Inl e
          | Inr (val, r') \<Rightarrow> decode_body mem (decode mem k) major info val r'))"

definition decode_cbor :: "nat \<Rightarrow> cbor reader" where
  "decode_cbor mem bs = decode mem (Suc (length bs)) bs"

section \<open>COSE keys\<close>

text \<open>\<^verbatim>\<open>int64(x)\<close> of an integer value; other dynamic types match no case.\<close>

fun int_of_cbor :: "cbor \<Rightarrow> int option" where
  "int_of_cbor (C_Uint n) = Some (sint n)"
| "int_of_cbor (C_Int n) = Some (sint n)"
| "int_of_cbor _ = None"

fun bytes_of_cbor :: "cbor \<Rightarrow> byte list option" where
  "bytes_of_cbor (C_Bytes b) = Some b"
| "bytes_of_cbor _ = None"

text \<open>\<^verbatim>\<open>for k, v := range m\<close>: the first entry with the label whose value has the wanted type.\<close>

fun label_scan :: "(cbor \<Rightarrow> 'a option) \<Rightarrow> int \<Rightarrow> (cbor \<times> cbor) list \<Rightarrow> 'a option" where
  "label_scan f key [] = None"
| "label_scan f key ((k, v) # m) =
     (if int_of_cbor k = Some key then
        (case f v of Some x \<Rightarrow> Some x | None \<Rightarrow> label_scan f key m)
      else label_scan f key m)"

type_synonym range_order = "int \<Rightarrow> (cbor \<times> cbor) list \<Rightarrow> (cbor \<times> cbor) list"

definition get_map_int :: "range_order \<Rightarrow> (cbor \<times> cbor) list \<Rightarrow> int \<Rightarrow> int option" where
  "get_map_int ord m key = label_scan int_of_cbor key (ord key m)"

definition get_map_bytes :: "range_order \<Rightarrow> (cbor \<times> cbor) list \<Rightarrow> int \<Rightarrow> byte list option" where
  "get_map_bytes ord m key = label_scan bytes_of_cbor key (ord key m)"

datatype public_key =
    PK_ECDSA nat nat
  | PK_RSA nat int
  | PK_Ed25519 "byte list"

record cose_key =
  ck_kty :: int
  ck_alg :: int
  ck_crv :: int
  ck_x :: "byte list"
  ck_y :: "byte list"
  ck_n :: "byte list"
  ck_e :: "byte list"
  ck_public :: public_key

datatype cose_error =
    Missing_Kty | Bad_EC2_Curve int | Bad_EC2_Length | Not_On_Curve | Bad_RSA
  | Bad_OKP_Curve int | Bad_Ed25519_Length | Bad_Key_Type int
  | Cose_Cbor cbor_error | Cose_Not_Map

text \<open>\<^verbatim>\<open>ecdsa.ParseUncompressedPublicKey\<close> on P-256: reduced coordinates on the curve.\<close>

definition p256_p :: int where
  "p256_p = 0xffffffff00000001000000000000000000000000ffffffffffffffffffffffff"

definition p256_b :: int where
  "p256_b = 0x5ac635d8aa3a93e7b3ebbd55769886bc651d06b0cc53b0f63bce3c3e27d2604b"

definition on_p256 :: "nat \<Rightarrow> nat \<Rightarrow> bool" where
  "on_p256 x y \<longleftrightarrow> int x < p256_p \<and> int y < p256_p
     \<and> (int y * int y) mod p256_p = (int x * int x * int x - 3 * int x + p256_b) mod p256_p"

text \<open>\<^verbatim>\<open>int(new(big.Int).SetBytes(e).Int64())\<close>: the low 64 bits, read as signed.\<close>

definition big_int64 :: "byte list \<Rightarrow> int" where
  "big_int64 b = sint (of_nat (bytes_val b) :: u64)"

definition alg_or :: "int \<Rightarrow> int \<Rightarrow> int" where
  "alg_or alg dflt = (if alg = 0 then dflt else alg)"

definition parse_cose_key :: "range_order \<Rightarrow> (cbor \<times> cbor) list \<Rightarrow> cose_error + cose_key" where
  "parse_cose_key ord m =
     (case get_map_int ord m 1 of
        None \<Rightarrow> Inl Missing_Kty
      | Some kty \<Rightarrow>
          let alg = the_default 0 (get_map_int ord m 3);
              crv = the_default 0 (get_map_int ord m (- 1)) in
          if kty = 2 then
            (let x = the_default [] (get_map_bytes ord m (- 2)); y = the_default [] (get_map_bytes ord m (- 3)) in
             if crv \<noteq> 1 then Inl (Bad_EC2_Curve crv)
             else if length x \<noteq> 32 \<or> length y \<noteq> 32 then Inl Bad_EC2_Length
             else if \<not> on_p256 (bytes_val x) (bytes_val y) then Inl Not_On_Curve
             else Inr \<lparr>ck_kty = kty, ck_alg = alg_or alg (- 7), ck_crv = crv, ck_x = x, ck_y = y, ck_n = [], ck_e = [],
                       ck_public = PK_ECDSA (bytes_val x) (bytes_val y)\<rparr>)
          else if kty = 3 then
            (let n = the_default [] (get_map_bytes ord m (- 1)); e = the_default [] (get_map_bytes ord m (- 2)) in
             if n = [] \<or> e = [] then Inl Bad_RSA
             else Inr \<lparr>ck_kty = kty, ck_alg = alg_or alg (- 257), ck_crv = 0, ck_x = [], ck_y = [], ck_n = n, ck_e = e,
                       ck_public = PK_RSA (bytes_val n) (big_int64 e)\<rparr>)
          else if kty = 1 then
            (let x = the_default [] (get_map_bytes ord m (- 2)) in
             if crv \<noteq> 6 then Inl (Bad_OKP_Curve crv)
             else if length x \<noteq> 32 then Inl Bad_Ed25519_Length
             else Inr \<lparr>ck_kty = kty, ck_alg = alg_or alg (- 8), ck_crv = crv, ck_x = x, ck_y = [], ck_n = [], ck_e = [],
                       ck_public = PK_Ed25519 x\<rparr>)
          else Inl (Bad_Key_Type kty))"

definition decode_cose_key :: "nat \<Rightarrow> range_order \<Rightarrow> byte list \<Rightarrow> cose_error + cose_key" where
  "decode_cose_key mem ord data =
     (case decode_cbor mem data of
        Inl e \<Rightarrow> Inl (Cose_Cbor e)
      | Inr (C_Map m, _) \<Rightarrow> parse_cose_key ord m
      | Inr _ \<Rightarrow> Inl Cose_Not_Map)"

section \<open>Termination: the fuel is enough\<close>

text \<open>A reader that takes something from every input and never needs more fuel, on short inputs.\<close>

definition shrinks :: "nat \<Rightarrow> 'a reader \<Rightarrow> bool" where
  "shrinks N dec \<longleftrightarrow> (\<forall>bs. length bs \<le> N \<longrightarrow> dec bs \<noteq> Inl Out_Of_Fuel
     \<and> (\<forall>x r. dec bs = Inr (x, r) \<longrightarrow> length r < length bs))"

definition agree :: "nat \<Rightarrow> 'a reader \<Rightarrow> 'a reader \<Rightarrow> bool" where
  "agree N d d' \<longleftrightarrow> (\<forall>bs. length bs \<le> N \<longrightarrow> d bs = d' bs)"

lemma shrinksD: "shrinks N dec \<Longrightarrow> length bs \<le> N \<Longrightarrow> dec bs = Inr (x, r) \<Longrightarrow> length r < length bs"
  by (simp add: shrinks_def)

lemma shrinks_fuel: "shrinks N dec \<Longrightarrow> length bs \<le> N \<Longrightarrow> dec bs \<noteq> Inl Out_Of_Fuel"
  by (simp add: shrinks_def)

lemma agreeD: "agree N d d' \<Longrightarrow> length bs \<le> N \<Longrightarrow> d bs = d' bs"
  by (simp add: agree_def)

lemma read_full_ok: "read_full n bs = Inr (b, r) \<Longrightarrow> length r \<le> length bs \<and> length b = n \<and> bs = b @ r"
  by (auto simp: read_full_def split: if_splits)

lemma read_full_fuel: "read_full n bs \<noteq> Inl Out_Of_Fuel"
  by (simp add: read_full_def)

lemma read_uint_ok: "read_uint n bs = Inr (v, r) \<Longrightarrow> length r \<le> length bs"
  by (auto simp: read_uint_def split: sum.splits dest: read_full_ok)

lemma read_length_ok: "read_length info bs = Inr (v, r) \<Longrightarrow> length r \<le> length bs"
  by (auto simp: read_length_def split: if_splits dest: read_uint_ok)

lemma read_length_fuel: "read_length info bs \<noteq> Inl Out_Of_Fuel"
  using read_full_fuel by (auto simp: read_length_def read_uint_def split: sum.splits)

lemma decode_items_shrinks:
  "shrinks N dec \<Longrightarrow> length bs \<le> N \<Longrightarrow> decode_items dec n bs \<noteq> Inl Out_Of_Fuel
     \<and> (\<forall>x r. decode_items dec n bs = Inr (x, r) \<longrightarrow> length r \<le> length bs)"
proof (induction n arbitrary: bs)
  case (Suc n)
  show ?case
  proof (cases "dec bs")
    case (Inl e)
    with Suc.prems shrinks_fuel show ?thesis by force
  next
    case (Inr p)
    obtain x r where p: "p = (x, r)" by (cases p)
    with Inr Suc.prems have r: "length r < length bs" by (auto dest: shrinksD)
    with Suc.IH [of r] Suc.prems show ?thesis
      by (fastforce simp: Inr p split: sum.splits)
  qed
qed simp

lemma decode_items_agree:
  "agree N d d' \<Longrightarrow> shrinks N d \<Longrightarrow> length bs \<le> N \<Longrightarrow> decode_items d n bs = decode_items d' n bs"
proof (induction n arbitrary: bs)
  case (Suc n)
  have "decode_items d n r = decode_items d' n r" if "d bs = Inr (x, r)" for x r
    using Suc.IH [of r] Suc.prems that shrinksD by fastforce
  moreover have "d bs = d' bs" using Suc.prems by (simp add: agreeD)
  ultimately show ?case by (auto split: sum.splits)
qed simp

lemma decode_pairs_shrinks:
  "shrinks N dec \<Longrightarrow> length bs \<le> N \<Longrightarrow> decode_pairs dec n m bs \<noteq> Inl Out_Of_Fuel
     \<and> (\<forall>x r. decode_pairs dec n m bs = Inr (x, r) \<longrightarrow> length r \<le> length bs)"
proof (induction n arbitrary: m bs)
  case (Suc n)
  show ?case
  proof (cases "dec bs")
    case (Inl e)
    with Suc.prems shrinks_fuel show ?thesis by force
  next
    case (Inr p)
    obtain k r where p: "p = (k, r)" by (cases p)
    with Inr Suc.prems have r: "length r < length bs" by (auto dest: shrinksD)
    show ?thesis
    proof (cases "dec r")
      case (Inl e)
      with r Suc.prems shrinks_fuel [of N dec r] Inr p show ?thesis by auto
    next
      case (Inr q)
      obtain v r' where q: "q = (v, r')" by (cases q)
      have r': "length r' < length r"
        by (rule shrinksD [OF Suc.prems(1), of r v]) (use r Suc.prems Inr q in auto)
      with r Suc.IH [of r' "AList.update k v m"] Suc.prems \<open>dec bs = Inr p\<close> show ?thesis
        by (auto simp: Inr p q)
    qed
  qed
qed simp

lemma decode_pairs_agree:
  "agree N d d' \<Longrightarrow> shrinks N d \<Longrightarrow> length bs \<le> N \<Longrightarrow> decode_pairs d n m bs = decode_pairs d' n m bs"
proof (induction n arbitrary: m bs)
  case (Suc n)
  have r: "d r = d' r" if "d bs = Inr (k, r)" for k r
    using Suc.prems that shrinksD [of N d bs k r] by (simp add: agreeD)
  have "decode_pairs d n m' r' = decode_pairs d' n m' r'"
    if "d bs = Inr (k, r)" "d r = Inr (v, r')" for k r v r' m'
    using Suc.IH [of r' m'] Suc.prems that shrinksD [of N d bs k r] shrinksD [of N d r v r'] by simp
  with r agreeD [OF Suc.prems(1,3)] show ?case by (auto split: sum.splits)
qed simp

lemma decode_body_agree:
  "agree N d d' \<Longrightarrow> shrinks N d \<Longrightarrow> length bs \<le> N \<Longrightarrow>
   decode_body mem d major info val bs = decode_body mem d' major info val bs"
  using decode_items_agree [of N d d' bs "unat val"] decode_pairs_agree [of N d d' bs "unat val" "[]"] agreeD [of N d d' bs]
  by (simp add: decode_body_def)

lemma decode_body_shrinks:
  assumes "shrinks N dec" "length bs \<le> N"
  shows "decode_body mem dec major info val bs \<noteq> Inl Out_Of_Fuel
     \<and> (\<forall>x r. decode_body mem dec major info val bs = Inr (x, r) \<longrightarrow> length r \<le> length bs)"
proof -
  have b: "read_bytes mem val bs \<noteq> Inl Out_Of_Fuel
      \<and> (\<forall>x r. read_bytes mem val bs = Inr (x, r) \<longrightarrow> length r \<le> length bs)"
    using read_full_fuel by (auto simp: read_bytes_def dest: read_full_ok)
  have t: "dec bs \<noteq> Inl Out_Of_Fuel \<and> (\<forall>x r. dec bs = Inr (x, r) \<longrightarrow> length r \<le> length bs)"
    using assms by (auto simp: shrinks_def intro: less_imp_le)
  note i = decode_items_shrinks [OF assms, of "unat val"] decode_pairs_shrinks [OF assms, of "unat val" "[]"]
  show ?thesis
    unfolding decode_body_def using b t i by (auto split: sum.splits)
qed

lemma decode_Nil [simp]: "decode mem (Suc k) [] = Inl Eof"
  by (simp add: read_full_def)

lemma decode_Cons:
  "decode mem (Suc k) (h # t) =
     (case read_length (unat h mod 32) t of
        Inl e \<Rightarrow> Inl e
      | Inr (val, r) \<Rightarrow> decode_body mem (decode mem k) (unat h div 32) (unat h mod 32) val r)"
  by (cases "read_length (unat h mod 32) t") (auto simp: read_full_def Let_def)

lemmas decode_unfold = decode_Nil decode_Cons

declare decode.simps(2) [simp del]

lemma decode_step:
  assumes "shrinks N (decode mem k)"
  shows "shrinks (Suc N) (decode mem (Suc k))"
  unfolding shrinks_def
proof (intro allI impI)
  fix bs :: "byte list" assume n: "length bs \<le> Suc N"
  show "decode mem (Suc k) bs \<noteq> Inl Out_Of_Fuel \<and> (\<forall>x r. decode mem (Suc k) bs = Inr (x, r) \<longrightarrow> length r < length bs)"
  proof (cases bs)
    case (Cons h t)
    with n have t: "length t \<le> N" by simp
    show ?thesis
    proof (cases "read_length (unat h mod 32) t")
      case (Inl e)
      with read_length_fuel [of "unat h mod 32" t] show ?thesis by (simp add: Cons decode_Cons)
    next
      case (Inr p)
      obtain v r' where p: "p = (v, r')" by (cases p)
      with Inr have r': "length r' \<le> length t" by (auto dest: read_length_ok)
      with t decode_body_shrinks [OF assms, of r' mem "unat h div 32" "unat h mod 32" v]
      show ?thesis by (fastforce simp: Cons decode_Cons Inr p)
    qed
  qed simp
qed

lemma decode_shrinks: "shrinks k (decode mem (Suc k))"
proof (induction k)
  case 0
  then show ?case by (simp add: shrinks_def)
next
  case (Suc k)
  then show ?case by (rule decode_step)
qed

lemma shrinks_mono: "shrinks N d \<Longrightarrow> M \<le> N \<Longrightarrow> shrinks M d"
  by (auto simp: shrinks_def)

lemma decode_agree: "agree k (decode mem (Suc k)) (decode mem (Suc (Suc k)))"
proof (induction k)
  case 0
  then show ?case by (simp add: agree_def)
next
  case (Suc k)
  show ?case
    unfolding agree_def
  proof (intro allI impI)
    fix bs :: "byte list" assume n: "length bs \<le> Suc k"
    show "decode mem (Suc (Suc k)) bs = decode mem (Suc (Suc (Suc k))) bs"
    proof (cases bs)
      case (Cons h t)
      have "decode_body mem (decode mem (Suc k)) a b v r = decode_body mem (decode mem (Suc (Suc k))) a b v r"
        if "read_length (unat h mod 32) t = Inr (v, r)" for a b v r
        using read_length_ok [OF that] n Cons decode_body_agree [OF Suc.IH decode_shrinks] by simp
      then show ?thesis by (auto simp: Cons decode_Cons split: sum.splits)
    qed simp
  qed
qed

lemma decode_enough: "length bs < k \<Longrightarrow> decode mem k bs = decode_cbor mem bs"
proof (induction k)
  case (Suc k)
  show ?case
  proof (cases "length bs < k")
    case True
    then obtain j where j: "k = Suc j" by (cases k) auto
    from agreeD [OF decode_agree, of bs j mem] True Suc.IH show ?thesis by (simp add: j)
  next
    case False
    with Suc.prems have "length bs = k" by simp
    then show ?thesis by (simp add: decode_cbor_def)
  qed
qed simp

text \<open>C16: decoding terminates on every input.  Fuel for one more call than there are bytes is
  always enough, more fuel never changes the result, and a decoded item has consumed input.\<close>

theorem decode_cbor_terminates:
  "decode_cbor mem bs \<noteq> Inl Out_Of_Fuel
   \<and> (\<forall>k > length bs. decode mem k bs = decode_cbor mem bs)
   \<and> (\<forall>v r. decode_cbor mem bs = Inr (v, r) \<longrightarrow> length r < length bs)"
  using shrinks_fuel [OF decode_shrinks, of bs "length bs" mem] shrinksD [OF decode_shrinks, of bs "length bs" mem]
  by (simp add: decode_enough)

theorem decode_cbor_terminates_witness: "decode 100 7 [0x81, 0x01] = decode_cbor 100 [0x81, 0x01]"
  using decode_cbor_terminates [of 100 "[0x81, 0x01]"] by simp

section \<open>Round trip\<close>

text \<open>The preferred serialisation of RFC 8949, as the specification the decoder is checked against.\<close>

fun be_bytes :: "nat \<Rightarrow> nat \<Rightarrow> byte list" where
  "be_bytes 0 n = []"
| "be_bytes (Suc k) n = be_bytes k (n div 256) @ [of_nat (n mod 256)]"

lemma length_be_bytes [simp]: "length (be_bytes k n) = k"
  by (induction k arbitrary: n) auto

lemma bytes_val_be_bytes: "n < 256 ^ k \<Longrightarrow> bytes_val (be_bytes k n) = n"
proof (induction k arbitrary: n)
  case (Suc k)
  then have "n div 256 < 256 ^ k" by (simp add: div_less_iff_less_mult mult.commute)
  with Suc.IH have "bytes_val (be_bytes k (n div 256)) = n div 256" by blast
  moreover have "unat (of_nat (n mod 256) :: byte) = n mod 256"
    by (simp add: unat_of_nat take_bit_eq_mod)
  ultimately show ?case by simp
qed simp

definition head :: "nat \<Rightarrow> nat \<Rightarrow> byte list" where
  "head major n =
     (if n < 24 then [of_nat (major * 32 + n)]
      else if n < 2 ^ 8 then of_nat (major * 32 + 24) # be_bytes 1 n
      else if n < 2 ^ 16 then of_nat (major * 32 + 25) # be_bytes 2 n
      else if n < 2 ^ 32 then of_nat (major * 32 + 26) # be_bytes 4 n
      else of_nat (major * 32 + 27) # be_bytes 8 n)"

fun encode :: "cbor \<Rightarrow> byte list" where
  "encode (C_Uint n) = head 0 (unat n)"
| "encode (C_Int n) = head 1 (unat (- 1 - n))"
| "encode (C_Bytes b) = head 2 (length b) @ b"
| "encode (C_Text b) = head 3 (length b) @ b"
| "encode (C_Array xs) = head 4 (length xs) @ concat (map encode xs)"
| "encode (C_Map m) = head 5 (length m) @ concat (map (\<lambda>(k, v). encode k @ encode v) m)"
| "encode (C_Bool b) = [if b then 0xF5 else 0xF4]"
| "encode C_Nil = [0xF6]"

text \<open>Values whose sizes the decoder's runtime can hold, with hashable, distinct map keys.\<close>

fun fits :: "nat \<Rightarrow> cbor \<Rightarrow> bool" where
  "fits mem (C_Bytes b) \<longleftrightarrow> length b < 2 ^ 64 \<and> length b \<le> mem"
| "fits mem (C_Text b) \<longleftrightarrow> length b < 2 ^ 64 \<and> length b \<le> mem"
| "fits mem (C_Array xs) \<longleftrightarrow> length xs < 2 ^ 64 \<and> 16 * length xs \<le> mem \<and> list_all (fits mem) xs"
| "fits mem (C_Map m) \<longleftrightarrow> length m < 2 ^ 64 \<and> distinct (map fst m)
     \<and> list_all (\<lambda>(k, v). hashable k \<and> fits mem k \<and> fits mem v) m"
| "fits mem _ = True"

lemma unat_head: "major < 8 \<Longrightarrow> i < 32 \<Longrightarrow> unat (of_nat (major * 32 + i) :: byte) = major * 32 + i"
  by (simp add: unat_of_nat take_bit_eq_mod del: of_nat_add of_nat_mult)

lemma read_full_append [simp]: "read_full (length b) (b @ r) = Inr (b, r)"
  by (simp add: read_full_def)

lemma read_uint_be: "n < 256 ^ k \<Longrightarrow> read_uint k (be_bytes k n @ r) = Inr (of_nat n, r)"
  using read_full_append [of "be_bytes k n" r] by (simp add: read_uint_def bytes_val_be_bytes)

lemma decode_head:
  assumes "major < 8" "n < 2 ^ 64"
  shows "\<exists>info. decode mem (Suc k) (head major n @ r) = decode_body mem (decode mem k) major info (of_nat n) r"
proof -
  have "read_uint 1 (be_bytes 1 n @ r) = Inr (of_nat n, r)" if "n < 2 ^ 8" using that read_uint_be [of n 1 r] by simp
  moreover have "read_uint 2 (be_bytes 2 n @ r) = Inr (of_nat n, r)" if "n < 2 ^ 16" using that read_uint_be [of n 2 r] by simp
  moreover have "read_uint 4 (be_bytes 4 n @ r) = Inr (of_nat n, r)" if "n < 2 ^ 32" using that read_uint_be [of n 4 r] by simp
  moreover have "read_uint 8 (be_bytes 8 n @ r) = Inr (of_nat n, r)" using assms(2) read_uint_be [of n 8 r] by simp
  ultimately show ?thesis
    using assms(1) unat_head [of major n] unat_head [of major 24] unat_head [of major 25] unat_head [of major 26] unat_head [of major 27]
    by (auto simp: head_def decode_Cons read_length_def simp del: be_bytes.simps of_nat_add of_nat_mult)
qed


lemma update_new: "k \<notin> fst ` set m \<Longrightarrow> AList.update k v m = m @ [(k, v)]"
  by (induction m) auto

text \<open>An item is decoded back in front of any rest, with enough fuel.\<close>

definition inverts :: "nat \<Rightarrow> cbor \<Rightarrow> bool" where
  "inverts mem v \<longleftrightarrow> (\<forall>k r. length (encode v @ r) < k \<longrightarrow> decode mem k (encode v @ r) = Inr (v, r))"

lemma invertsD: "inverts mem v \<Longrightarrow> length (encode v @ r) < k \<Longrightarrow> decode mem k (encode v @ r) = Inr (v, r)"
  by (simp add: inverts_def)

lemma items_inverts:
  "\<forall>x \<in> set xs. inverts mem x \<Longrightarrow> length (concat (map encode xs) @ r) < k \<Longrightarrow>
   decode_items (decode mem k) (length xs) (concat (map encode xs) @ r) = Inr (xs, r)"
  by (induction xs) (auto simp: invertsD)

lemma pairs_inverts:
  "\<forall>(a, b) \<in> set m. inverts mem a \<and> inverts mem b \<and> hashable a \<Longrightarrow> distinct (map fst (acc @ m)) \<Longrightarrow>
   length (concat (map (\<lambda>(k, v). encode k @ encode v) m) @ r) < k \<Longrightarrow>
   decode_pairs (decode mem k) (length m) acc (concat (map (\<lambda>(k, v). encode k @ encode v) m) @ r) = Inr (acc @ m, r)"
proof (induction m arbitrary: acc)
  case (Cons p m)
  obtain a b where p: "p = (a, b)" by (cases p)
  from Cons.prems(1) p have i: "inverts mem a" "inverts mem b" "hashable a" by auto
  from Cons.prems(2) p have "AList.update a b acc = acc @ [(a, b)]" by (intro update_new) auto
  with Cons.IH [of "acc @ [(a, b)]"] Cons.prems show ?case by (simp add: p i invertsD)
qed simp

lemma inverts_head:
  assumes "encode v = head major n @ b" "major < 8" "n < 2 ^ 64"
    "\<And>j info r. length (b @ r) < j \<Longrightarrow> decode_body mem (decode mem j) major info (of_nat n) (b @ r) = Inr (v, r)"
  shows "inverts mem v"
  unfolding inverts_def
proof (intro allI impI)
  fix k r assume l: "length (encode v @ r) < k"
  have "1 \<le> length (head major n)" by (simp add: head_def)
  with l assms(1) obtain j where "k = Suc j" "length (b @ r) < j" by (cases k) auto
  with assms decode_head [OF assms(2,3), of mem j "b @ r"] show "decode mem k (encode v @ r) = Inr (v, r)" by auto
qed

lemma inverts_simple:
  assumes "encode v = [h]" "\<And>j r. decode mem (Suc j) (h # r) = Inr (v, r)"
  shows "inverts mem v"
  unfolding inverts_def
proof (intro allI impI)
  fix k r assume "length (encode v @ r) < k"
  then obtain j where "k = Suc j" by (cases k) auto
  with assms show "decode mem k (encode v @ r) = Inr (v, r)" by simp
qed

lemma read_bytes_append: "length b < 2 ^ 64 \<Longrightarrow> length b \<le> mem \<Longrightarrow> read_bytes mem (of_nat (length b)) (b @ r) = Inr (b, r)"
  by (simp add: read_bytes_def unat_of_nat take_bit_nat_eq_self)

lemma fits_inverts: "fits mem v \<Longrightarrow> inverts mem v"
proof (induction v)
  case (C_Uint n)
  show ?case
    by (rule inverts_head [of _ 0 "unat n" "[]"]) (use unsigned_less [of n] in \<open>simp_all add: decode_body_def\<close>)
next
  case (C_Int n)
  show ?case
    by (rule inverts_head [of _ 1 "unat (- 1 - n)" "[]"])
      (use unsigned_less [of "- 1 - n"] in \<open>simp_all add: decode_body_def\<close>)
next
  case (C_Bytes b)
  then show ?case
    by (intro inverts_head [of _ 2 "length b" b]) (simp_all add: decode_body_def read_bytes_append)
next
  case (C_Text b)
  then show ?case
    by (intro inverts_head [of _ 3 "length b" b]) (simp_all add: decode_body_def read_bytes_append)
next
  case (C_Array xs)
  then have "\<forall>x \<in> set xs. inverts mem x" by (auto simp: list_all_iff)
  note i = items_inverts [OF this]
  from C_Array.prems show ?case
    by (intro inverts_head [of _ 4 "length xs" "concat (map encode xs)"])
      (use i in \<open>simp_all add: decode_body_def unat_of_nat take_bit_nat_eq_self\<close>)
next
  case (C_Map m)
  then have "\<forall>(a, b) \<in> set m. inverts mem a \<and> inverts mem b \<and> hashable a" "distinct (map fst ([] @ m))"
    by (fastforce simp: list_all_iff)+
  note i = pairs_inverts [OF this]
  from C_Map.prems show ?case
    by (intro inverts_head [of _ 5 "length m" "concat (map (\<lambda>(k, v). encode k @ encode v) m)"])
      (use i in \<open>simp_all add: decode_body_def unat_of_nat take_bit_nat_eq_self\<close>)
next
  case (C_Bool b)
  show ?case
    by (rule inverts_simple [of _ "if b then 0xF5 else 0xF4"]) (simp_all add: decode_Cons read_length_def decode_body_def)
next
  case C_Nil
  show ?case
    by (rule inverts_simple [of _ "0xF6"]) (simp_all add: decode_Cons read_length_def decode_body_def)
qed

text \<open>C11: round trip.  The decoder reads the preferred RFC 8949 serialisation of every value whose
  sizes fit the runtime back to that value, and leaves exactly the bytes that follow it.\<close>

theorem decode_encode:
  assumes "fits mem v"
  shows "decode_cbor mem (encode v @ r) = Inr (v, r)"
  unfolding decode_cbor_def by (rule invertsD [OF fits_inverts [OF assms]]) simp

theorem decode_encode_witness:
  "decode_cbor 64 (encode (C_Map [(C_Uint 1, C_Array [C_Int (- 7)])]) @ [9]) = Inr (C_Map [(C_Uint 1, C_Array [C_Int (- 7)])], [9])"
  by (rule decode_encode) simp

section \<open>Well-formed values\<close>

text \<open>What a Go value built by the decoder satisfies: map keys are hashable and distinct.\<close>

fun well_formed :: "cbor \<Rightarrow> bool" where
  "well_formed (C_Array xs) \<longleftrightarrow> list_all well_formed xs"
| "well_formed (C_Map m) \<longleftrightarrow> distinct (map fst m) \<and> list_all (\<lambda>(k, v). hashable k \<and> well_formed k \<and> well_formed v) m"
| "well_formed _ = True"

definition yields_wf :: "cbor reader \<Rightarrow> bool" where
  "yields_wf dec \<longleftrightarrow> (\<forall>bs x r. dec bs = Inr (x, r) \<longrightarrow> well_formed x)"

lemma yieldsD: "yields_wf dec \<Longrightarrow> dec bs = Inr (x, r) \<Longrightarrow> well_formed x"
  unfolding yields_wf_def by blast

lemma items_wf: "yields_wf dec \<Longrightarrow> decode_items dec n bs = Inr (xs, r) \<Longrightarrow> list_all well_formed xs"
proof (induction n arbitrary: bs xs)
  case (Suc n)
  then obtain x r1 xs' where "dec bs = Inr (x, r1)" "decode_items dec n r1 = Inr (xs', r)" "xs = x # xs'"
    by (auto split: sum.splits)
  with Suc.IH Suc.prems(1) yieldsD show ?case by auto
qed simp

lemma update_wf:
  "well_formed (C_Map m) \<Longrightarrow> hashable k \<Longrightarrow> well_formed k \<Longrightarrow> well_formed v \<Longrightarrow> well_formed (C_Map (AList.update k v m))"
proof -
  have "\<forall>p \<in> set (AList.update k v m). p = (k, v) \<or> p \<in> set m"
    by (induction m) auto
  then show "well_formed (C_Map m) \<Longrightarrow> hashable k \<Longrightarrow> well_formed k \<Longrightarrow> well_formed v \<Longrightarrow> ?thesis"
    using distinct_update [of m k v] by (auto simp: list_all_iff)
qed

lemma pairs_wf:
  "yields_wf dec \<Longrightarrow> well_formed (C_Map m) \<Longrightarrow> decode_pairs dec n m bs = Inr (m', r) \<Longrightarrow> well_formed (C_Map m')"
proof (induction n arbitrary: m bs)
  case (Suc n)
  from Suc.prems(3) obtain k r1 v r2 where s: "dec bs = Inr (k, r1)" "dec r1 = Inr (v, r2)" "hashable k"
    "decode_pairs dec n (AList.update k v m) r2 = Inr (m', r)"
    by (auto split: sum.splits if_splits)
  with update_wf Suc.prems(1,2) have "well_formed (C_Map (AList.update k v m))" by (blast dest: yieldsD)
  with Suc.IH Suc.prems(1) s(4) show ?case by blast
qed simp

lemma decode_wf: "yields_wf (decode mem k)"
proof (induction k)
  case 0
  then show ?case by (simp add: yields_wf_def)
next
  case (Suc k)
  have b: "well_formed x" if "decode_body mem (decode mem k) a i v bs = Inr (x, r)" for a i v bs x r
    using that yieldsD [OF Suc] items_wf [OF Suc] pairs_wf [OF Suc, of "[]"]
    by (auto simp: decode_body_def split: if_splits sum.splits)
  show ?case
    unfolding yields_wf_def
  proof (intro allI impI)
    fix bs x r assume d: "decode mem (Suc k) bs = Inr (x, r)"
    then obtain h t where "bs = h # t" by (cases bs) auto
    with d b show "well_formed x" by (auto simp: decode_Cons split: sum.splits)
  qed
qed



section \<open>COSE keys do not depend on the order of the map\<close>

definition labels_distinct :: "(cbor \<times> cbor) list \<Rightarrow> bool" where
  "labels_distinct m \<longleftrightarrow> (\<forall>p \<in> set m. \<forall>q \<in> set m. int_of_cbor (fst p) \<noteq> None \<and> int_of_cbor (fst p) = int_of_cbor (fst q) \<longrightarrow> p = q)"

lemma labels_distinct_mono: "labels_distinct m \<Longrightarrow> set m' \<subseteq> set m \<Longrightarrow> labels_distinct m'"
  unfolding labels_distinct_def by blast

lemma label_scan_unique:
  "labels_distinct m \<Longrightarrow> (k, v) \<in> set m \<Longrightarrow> int_of_cbor k = Some key \<Longrightarrow> label_scan f key m = f v"
proof (induction m)
  case (Cons p m)
  have d: "labels_distinct m" using Cons.prems(1) by (rule labels_distinct_mono) auto
  obtain a b where p: "p = (a, b)" by (cases p)
  show ?case
  proof (cases "int_of_cbor a = Some key")
    case True
    have same: "v' = b" if "(k', v') \<in> set (p # m)" "int_of_cbor k' = Some key" for k' v'
    proof -
      have "(a, b) \<in> set (p # m)" by (simp add: p)
      with Cons.prems(1) that True have "(a, b) = (k', v')" unfolding labels_distinct_def by (metis fst_conv option.distinct(1))
      then show ?thesis by simp
    qed
    have b: "v = b" using same [OF Cons.prems(2,3)] .
    have "label_scan f key m' = None" if "set m' \<subseteq> set m" "f b = None" for m'
      using that
    proof (induction m')
      case (Cons q m')
      obtain a' b' where q: "q = (a', b')" by (cases q)
      with Cons.prems same [of a' b'] have "int_of_cbor a' = Some key \<longrightarrow> b' = b" by auto
      with Cons show ?case by (auto simp: q)
    qed simp
    then show ?thesis using True b by (auto simp: p split: option.split)
  next
    case False
    with Cons.prems d Cons.IH show ?thesis by (auto simp: p)
  qed
qed simp

lemma label_scan_None: "\<forall>(k, v) \<in> set m. int_of_cbor k \<noteq> Some key \<Longrightarrow> label_scan f key m = None"
  by (induction m) auto

lemma label_scan_order:
  assumes "labels_distinct m" "set m' = set m"
  shows "label_scan f key m' = label_scan f key m"
proof -
  have d: "labels_distinct m'" using assms by (auto intro: labels_distinct_mono)
  show ?thesis
  proof (cases "\<exists>k v. (k, v) \<in> set m \<and> int_of_cbor k = Some key")
    case True
    then obtain k v where "(k, v) \<in> set m" "int_of_cbor k = Some key" by blast
    with label_scan_unique [OF assms(1) this, where f = f] label_scan_unique [OF d _ this(2), where f = f] assms(2) show ?thesis by simp
  next
    case False
    then have "\<forall>(k, v) \<in> set m. int_of_cbor k \<noteq> Some key" by blast
    with label_scan_None [of m key f] label_scan_None [of m' key f] assms(2) show ?thesis by simp
  qed
qed

text \<open>If no two keys of the map denote the same integer label, parsing a COSE key gives the same
  result whatever order Go ranges over the map in.\<close>

theorem parse_cose_key_any_order:
  assumes "labels_distinct m" "\<And>l. set (ord l m) = set m"
  shows "parse_cose_key ord m = parse_cose_key (\<lambda>_ m. m) m"
proof -
  have e: "get_map_int ord m = get_map_int (\<lambda>_ m. m) m" "get_map_bytes ord m = get_map_bytes (\<lambda>_ m. m) m"
    by (simp_all add: get_map_int_def get_map_bytes_def fun_eq_iff label_scan_order [OF assms(1,2)])
  show ?thesis unfolding parse_cose_key_def e by (rule refl)
qed

theorem parse_cose_key_any_order_witness:
  "parse_cose_key (\<lambda>_. rev) [(C_Uint 1, C_Uint 3), (C_Int (- 1), C_Bytes [7]), (C_Int (- 2), C_Bytes [3])]
   = parse_cose_key (\<lambda>_ m. m) [(C_Uint 1, C_Uint 3), (C_Int (- 1), C_Bytes [7]), (C_Int (- 2), C_Bytes [3])]"
  by (rule parse_cose_key_any_order) (simp_all add: labels_distinct_def, code_simp)

text \<open>The hypothesis is needed: the label 1 has a second encoding, as a negative integer that
  \<^verbatim>\<open>-1 - int64(val)\<close> wraps round to 1.\<close>

lemma decode_wrapped_label:
  "decode_cbor 100 [0x3B, 255, 255, 255, 255, 255, 255, 255, 254] = Inr (C_Int 1, [])"
  by code_simp

lemma duplicate_label_order:
  "parse_cose_key (\<lambda>_ m. m) [(C_Uint 1, C_Uint 3), (C_Int 1, C_Uint 9)] = Inl Bad_RSA
   \<and> parse_cose_key (\<lambda>_. rev) [(C_Uint 1, C_Uint 3), (C_Int 1, C_Uint 9)] = Inl (Bad_Key_Type 9)"
  by code_simp

section \<open>What an accepted key satisfies\<close>

fun key_usable :: "public_key \<Rightarrow> bool" where
  "key_usable (PK_ECDSA x y) \<longleftrightarrow> on_p256 x y"
| "key_usable (PK_RSA n e) \<longleftrightarrow> True"
| "key_usable (PK_Ed25519 b) \<longleftrightarrow> length b = 32"

lemma key_sound: "parse_cose_key ord m = Inr key \<Longrightarrow> key_usable (ck_public key)"
  by (auto simp: parse_cose_key_def Let_def split: option.splits if_splits)

text \<open>An accepted COSE key names a supported key type, has the public key of that type, on the
  curve for P-256 and of the right length for Ed25519, and never algorithm 0.\<close>

theorem parse_cose_key_sound:
  assumes "parse_cose_key ord m = Inr key"
  shows "key_usable (ck_public key) \<and> ck_alg key \<noteq> 0
    \<and> (ck_kty key = 2 \<and> ck_public key = PK_ECDSA (bytes_val (ck_x key)) (bytes_val (ck_y key))
       \<or> ck_kty key = 3 \<and> ck_public key = PK_RSA (bytes_val (ck_n key)) (big_int64 (ck_e key))
       \<or> ck_kty key = 1 \<and> ck_public key = PK_Ed25519 (ck_x key))"
  using assms by (auto simp: parse_cose_key_def alg_or_def Let_def split: option.splits if_splits)

theorem parse_cose_key_sound_witness:
  "\<exists>key. parse_cose_key (\<lambda>_ m. m) [(C_Uint 1, C_Uint 3), (C_Int (- 1), C_Bytes [7]), (C_Int (- 2), C_Bytes [3])] = Inr key \<and> ck_alg key \<noteq> 0"
proof -
  let ?m = "[(C_Uint 1, C_Uint 3), (C_Int (- 1), C_Bytes [7]), (C_Int (- 2), C_Bytes [3])]"
  obtain key where "parse_cose_key (\<lambda>_ m. m) ?m = Inr key"
    by (cases "parse_cose_key (\<lambda>_ m. m) ?m") (simp_all add: parse_cose_key_def get_map_int_def get_map_bytes_def Let_def)
  with parse_cose_key_sound [OF this] show ?thesis by blast
qed

end
