(* ===== verification/Webauthn.thy ===== *)
theory Webauthn
  imports Auth_Session Cbor
begin

text \<open>
  \<^verbatim>\<open>internal/auth/webauthn.go\<close>: the WebAuthn ceremonies.  JSON parsing, SHA-256 and the three
  signature checks are arguments (\<open>web_env\<close>); base64, CBOR, COSE keys, authenticator data and the
  challenge store are modelled in full.  One reading of the clock serves a whole request.
\<close>

section \<open>Requests and options\<close>

record client_data =
  cd_type :: string
  cd_challenge :: string
  cd_origin :: string
  cd_cross_origin :: bool

record web_env =
  we_json :: "byte list \<Rightarrow> string + client_data"
  we_mem :: nat
  we_order :: range_order
  we_sha256 :: "byte list \<Rightarrow> byte list"
  we_ecdsa :: "nat \<Rightarrow> nat \<Rightarrow> byte list \<Rightarrow> byte list \<Rightarrow> bool"
  we_rsa :: "nat \<Rightarrow> int \<Rightarrow> byte list \<Rightarrow> byte list \<Rightarrow> string option"
  we_ed25519 :: "byte list \<Rightarrow> byte list \<Rightarrow> byte list \<Rightarrow> bool"

record registration_request =
  rr_name :: string
  rr_id :: string
  rr_client_data :: string
  rr_attestation :: string

record authentication_request =
  ar_id :: string
  ar_client_data :: string
  ar_auth_data :: string
  ar_signature :: string

record creation_options =
  cr_rp_id :: string
  cr_rp_name :: string
  cr_user_id :: string
  cr_user_name :: string
  cr_user_display :: string
  cr_challenge :: string
  cr_params :: "(string \<times> int) list"
  cr_timeout :: u32
  cr_resident_key :: string
  cr_verification :: string
  cr_attestation :: string

record request_options =
  ro_challenge :: string
  ro_timeout :: u32
  ro_rp_id :: string
  ro_allow :: "(string \<times> string) list"
  ro_verification :: string

datatype webauthn_error =
    Missing_Id | Not_Registered
  | Bad_Base64 string | Bad_Json string | Bad_Type string | Bad_Challenge
  | Bad_Cbor cbor_error | Not_A_Map | Missing_Auth_Data | Too_Short | Not_Present | No_Credential_Data
  | Short_Credential | Panic_Slice | Bad_Key cose_error
  | Bad_Key_Kind string | Bad_Signature string | Bad_Algorithm int
  | No_Random string

section \<open>Helpers\<close>

definition bytes_of_string :: "string \<Rightarrow> byte list" where
  "bytes_of_string s = map (\<lambda>c. of_nat (ccode c)) s"

definition hex_bytes :: "byte list \<Rightarrow> string" where
  "hex_bytes bs = concat (map (\<lambda>b. [hex_digit (unat b div 16), hex_digit (unat b mod 16)]) bs)"

definition be_u32 :: "byte list \<Rightarrow> u32" where
  "be_u32 b = of_nat (bytes_val b)"

definition decode_base64url :: "string \<Rightarrow> byte list option" where
  "decode_base64url s =
     (let t = trim_space s in
      b64_decode b64_url
        (if length t mod 4 = 2 then t @ ''=='' else if length t mod 4 = 3 then t @ ''='' else t))"

text \<open>The flag bits: user present and attested credential data.\<close>

definition flag_set :: "byte \<Rightarrow> byte \<Rightarrow> bool" where
  "flag_set flags f \<longleftrightarrow> flags AND f \<noteq> 0"

definition auth_flags :: "byte list \<Rightarrow> byte" where
  "auth_flags a = a ! 32"

definition sign_count :: "byte list \<Rightarrow> u32" where
  "sign_count a = be_u32 (take 4 (drop 33 a))"

text \<open>Client data of a ceremony: decoded, parsed, of the right type, with a live challenge.\<close>

definition check_client_data ::
  "web_env \<Rightarrow> gotime \<Rightarrow> string \<Rightarrow> string \<Rightarrow> challenges \<Rightarrow> challenges \<times> (webauthn_error + byte list)" where
  "check_client_data env now ty text cs =
     (case decode_base64url text of
        None \<Rightarrow> (cs, Inl (Bad_Base64 ''clientDataJSON''))
      | Some data \<Rightarrow>
          (case we_json env data of
             Inl e \<Rightarrow> (cs, Inl (Bad_Json e))
           | Inr cd \<Rightarrow>
               if cd_type cd \<noteq> ty then (cs, Inl (Bad_Type (cd_type cd)))
               else (case verify_and_consume (cd_challenge cd) now cs of
                       (cs', False) \<Rightarrow> (cs', Inl Bad_Challenge)
                     | (cs', True) \<Rightarrow> (cs', Inr data))))"

section \<open>Registration\<close>

definition begin_registration ::
  "string + byte list \<Rightarrow> gotime \<Rightarrow> string \<Rightarrow> string \<Rightarrow> challenges \<Rightarrow> challenges \<times> (webauthn_error + creation_options)" where
  "begin_registration rnd now rp_id rp_name cs =
     (case generate_challenge rnd now cs of
        (cs', Inl e) \<Rightarrow> (cs', Inl (No_Random e))
      | (cs', Inr ch) \<Rightarrow> (cs', Inr \<lparr>
          cr_rp_id = rp_id, cr_rp_name = (if rp_name = [] then ''WG Busy'' else rp_name),
          cr_user_id = b64_raw_url (bytes_of_string ''admin''), cr_user_name = ''admin'',
          cr_user_display = ''Administrator'', cr_challenge = ch,
          cr_params = [(''public-key'', - 7), (''public-key'', - 257), (''public-key'', - 8)],
          cr_timeout = 60000, cr_resident_key = ''preferred'', cr_verification = ''preferred'',
          cr_attestation = ''none''\<rparr>))"

definition attested_auth_data :: "web_env \<Rightarrow> string \<Rightarrow> webauthn_error + byte list" where
  "attested_auth_data env text =
     (case decode_base64url text of
        None \<Rightarrow> Inl (Bad_Base64 ''attestationObject'')
      | Some data \<Rightarrow>
          (case decode_cbor (we_mem env) data of
             Inl e \<Rightarrow> Inl (Bad_Cbor e)
           | Inr (C_Map m, _) \<Rightarrow>
               (case map_of m (C_Text (bytes_of_string ''authData'')) of
                  Some (C_Bytes a) \<Rightarrow> Inr a
                | _ \<Rightarrow> Inl Missing_Auth_Data)
           | Inr _ \<Rightarrow> Inl Not_A_Map))"

text \<open>
  The credential ID and the key bytes.  The length check is made on \<^verbatim>\<open>int\<close>, the slices with a
  \<^verbatim>\<open>uint16\<close> bound \<^verbatim>\<open>55+credIDLen\<close>, which may wrap round and make the slice expression panic.
\<close>

definition credential_parts :: "byte list \<Rightarrow> webauthn_error + (byte list \<times> byte list)" where
  "credential_parts a =
     (let len = (of_nat (bytes_val (take 2 (drop 53 a))) :: u16); bound = unat (55 + len) in
      if length a < 55 + unat len then Inl Short_Credential
      else if bound < 55 then Inl Panic_Slice
      else Inr (take (bound - 55) (drop 55 a), drop bound a))"

definition passkey_of_auth_data :: "web_env \<Rightarrow> gotime \<Rightarrow> string \<Rightarrow> byte list \<Rightarrow> webauthn_error + passkey" where
  "passkey_of_auth_data env now name a =
     (if length a < 55 then Inl Too_Short
      else if \<not> flag_set (auth_flags a) 0x01 then Inl Not_Present
      else if \<not> flag_set (auth_flags a) 0x40 then Inl No_Credential_Data
      else case credential_parts a of
             Inl e \<Rightarrow> Inl e
           | Inr (cred, key_bytes) \<Rightarrow>
               (case decode_cose_key (we_mem env) (we_order env) key_bytes of
                  Inl e \<Rightarrow> Inl (Bad_Key e)
                | Inr key \<Rightarrow>
                    Inr \<lparr>pk_id = b64_raw_url cred,
                         pk_name = (if trim_space name = [] then ''Admin Passkey'' else trim_space name),
                         pk_public_key = b64_raw_url key_bytes, pk_algorithm = ck_alg key,
                         pk_sign_count = sign_count a, pk_aaguid = hex_bytes (take 16 (drop 37 a)),
                         pk_created = now, pk_last_used = None\<rparr>))"

definition finish_registration ::
  "web_env \<Rightarrow> gotime \<Rightarrow> registration_request \<Rightarrow> challenges \<Rightarrow> challenges \<times> (webauthn_error + passkey)" where
  "finish_registration env now req cs =
     (if rr_id req = [] then (cs, Inl Missing_Id)
      else case check_client_data env now ''webauthn.create'' (rr_client_data req) cs of
             (cs', Inl e) \<Rightarrow> (cs', Inl e)
           | (cs', Inr _) \<Rightarrow>
               (case attested_auth_data env (rr_attestation req) of
                  Inl e \<Rightarrow> (cs', Inl e)
                | Inr a \<Rightarrow> (cs', passkey_of_auth_data env now (rr_name req) a)))"

section \<open>Login\<close>

definition begin_login ::
  "string + byte list \<Rightarrow> gotime \<Rightarrow> string \<Rightarrow> passkey list \<Rightarrow> challenges \<Rightarrow> challenges \<times> (webauthn_error + request_options)" where
  "begin_login rnd now rp_id passkeys cs =
     (case generate_challenge rnd now cs of
        (cs', Inl e) \<Rightarrow> (cs', Inl (No_Random e))
      | (cs', Inr ch) \<Rightarrow> (cs', Inr \<lparr>
          ro_challenge = ch, ro_timeout = 60000, ro_rp_id = rp_id,
          ro_allow = map (\<lambda>p. (''public-key'', pk_id p)) passkeys, ro_verification = ''preferred''\<rparr>))"

text \<open>The switch over the algorithm, with the type assertion on the public key.\<close>

definition check_signature :: "web_env \<Rightarrow> cose_key \<Rightarrow> byte list \<Rightarrow> byte list \<Rightarrow> webauthn_error option" where
  "check_signature env key msg sig =
     (if ck_alg key = - 7 then
        (case ck_public key of
           PK_ECDSA x y \<Rightarrow> if we_ecdsa env x y (we_sha256 env msg) sig then None else Some (Bad_Signature ''ES256'')
         | _ \<Rightarrow> Some (Bad_Key_Kind ''ECDSA''))
      else if ck_alg key = - 257 then
        (case ck_public key of
           PK_RSA n e \<Rightarrow> (case we_rsa env n e (we_sha256 env msg) sig of
                             None \<Rightarrow> None | Some _ \<Rightarrow> Some (Bad_Signature ''RS256''))
         | _ \<Rightarrow> Some (Bad_Key_Kind ''RSA''))
      else if ck_alg key = - 8 then
        (case ck_public key of
           PK_Ed25519 k \<Rightarrow> if we_ed25519 env k msg sig then None else Some (Bad_Signature ''EdDSA'')
         | _ \<Rightarrow> Some (Bad_Key_Kind ''Ed25519''))
      else Some (Bad_Algorithm (ck_alg key)))"

definition verify_assertion ::
  "web_env \<Rightarrow> gotime \<Rightarrow> passkey \<Rightarrow> byte list \<Rightarrow> authentication_request \<Rightarrow> webauthn_error + passkey" where
  "verify_assertion env now pk client req =
     (case decode_base64url (ar_auth_data req) of
        None \<Rightarrow> Inl (Bad_Base64 ''authenticatorData'')
      | Some a \<Rightarrow>
          if length a < 37 then Inl Too_Short
          else if \<not> flag_set (auth_flags a) 0x01 then Inl Not_Present
          else (case decode_base64url (ar_signature req) of
                  None \<Rightarrow> Inl (Bad_Base64 ''signature'')
                | Some sig \<Rightarrow>
                    (case decode_base64url (pk_public_key pk) of
                       None \<Rightarrow> Inl (Bad_Base64 ''stored passkey public key'')
                     | Some key_bytes \<Rightarrow>
                         (case decode_cose_key (we_mem env) (we_order env) key_bytes of
                            Inl e \<Rightarrow> Inl (Bad_Key e)
                          | Inr key \<Rightarrow>
                              (case check_signature env key (a @ we_sha256 env client) sig of
                                 Some e \<Rightarrow> Inl e
                               | None \<Rightarrow> Inr (pk\<lparr>pk_sign_count := sign_count a, pk_last_used := Some now\<rparr>))))))"

definition finish_login ::
  "web_env \<Rightarrow> gotime \<Rightarrow> passkey list \<Rightarrow> authentication_request \<Rightarrow> challenges \<Rightarrow> challenges \<times> (webauthn_error + passkey)" where
  "finish_login env now passkeys req cs =
     (if ar_id req = [] then (cs, Inl Missing_Id)
      else case find (\<lambda>p. pk_id p = ar_id req) passkeys of
             None \<Rightarrow> (cs, Inl Not_Registered)
           | Some pk \<Rightarrow>
               (case check_client_data env now ''webauthn.get'' (ar_client_data req) cs of
                  (cs', Inl e) \<Rightarrow> (cs', Inl e)
                | (cs', Inr client) \<Rightarrow> (cs', verify_assertion env now pk client req)))"

section \<open>Base64 round trip\<close>

lemma b64_url_char_all:
  "list_all (\<lambda>n. b64_url (b64_url_char n) = Some n \<and> b64_url_char n \<noteq> CHR ''='' \<and> plain_char (b64_url_char n)
     \<and> ccode (b64_url_char n) \<noteq> 10 \<and> ccode (b64_url_char n) \<noteq> 13) [0..<64]"
  by code_simp

lemma b64_url_char:
  assumes "n < 64"
  shows "b64_url (b64_url_char n) = Some n" "b64_url_char n \<noteq> CHR ''=''" "plain_char (b64_url_char n)"
    "ccode (b64_url_char n) \<noteq> 10" "ccode (b64_url_char n) \<noteq> 13"
  using b64_url_char_all assms by (simp_all add: list_all_iff)

lemma byte_div: "unat (a :: byte) div 4 < 64" "unat a div 16 < 16" "unat a div 64 < 4"
  using unat_byte [of a] by (simp_all add: div_less_iff_less_mult)

lemma byte_sum: "unat (a :: byte) mod 4 * 16 + unat (b :: byte) div 16 < 64" "unat a mod 16 * 4 + unat b div 64 < 64"
proof -
  have "unat a mod 4 \<le> 3" "unat a mod 16 \<le> 15" by simp_all
  with byte_div [of b] show "unat a mod 4 * 16 + unat b div 16 < 64" "unat a mod 16 * 4 + unat b div 64 < 64" by linarith+
qed

lemma byte_single: "unat (a :: byte) mod 4 * 16 < 64" "unat a mod 16 * 4 < 64" "unat a mod 64 < 64"
proof -
  have "unat a mod 4 \<le> 3" "unat a mod 16 \<le> 15" by simp_all
  then show "unat a mod 4 * 16 < 64" "unat a mod 16 * 4 < 64" by linarith+
qed simp

lemmas byte_bounds = byte_div(1) byte_sum byte_single

lemma byte_join:
  fixes a b :: byte
  shows "(unat a mod 4 * 16 + unat b div 16) div 16 = unat a mod 4"
    "(unat a mod 4 * 16 + unat b div 16) mod 16 = unat b div 16"
    "(unat a mod 16 * 4 + unat b div 64) div 4 = unat a mod 16"
    "(unat a mod 16 * 4 + unat b div 64) mod 4 = unat b div 64"
    "unat b div 16 mod 16 = unat b div 16" "unat b div 64 mod 4 = unat b div 64"
  using byte_div [of b] by simp_all

lemma byte_again:
  "of_nat (unat (a :: byte) div 4 * 4 + unat a mod 4) = a" "of_nat (unat a div 16 * 16 + unat a mod 16) = a"
  "of_nat (unat a div 64 * 64 + unat a mod 64) = a"
  by (simp_all only: div_mult_mod_eq) simp_all

text \<open>What \<^verbatim>\<open>DecodeBase64URL\<close> appends to an unpadded text.\<close>

definition b64_padding :: "nat \<Rightarrow> string" where
  "b64_padding n = (if n mod 4 = 2 then ''=='' else if n mod 4 = 3 then ''='' else [])"

lemma b64_padding_4: "b64_padding (Suc (Suc (Suc (Suc n)))) = b64_padding n"
  by (simp add: b64_padding_def)

lemma b64_quanta_raw: "b64_quanta b64_url (b64_raw_url bs @ b64_padding (length (b64_raw_url bs))) = Some bs"
proof (induction bs rule: b64_raw_url.induct)
  case (2 a)
  then show ?case
    by (simp add: b64_padding_def b64_url_char byte_bounds byte_again del: of_nat_add of_nat_mult)
next
  case (3 a b)
  then show ?case
    by (simp add: b64_padding_def b64_url_char byte_bounds byte_join byte_again del: of_nat_add of_nat_mult)
next
  case (4 a b c r)
  then show ?case
    by (simp add: b64_padding_4 b64_url_char byte_bounds byte_join byte_again del: of_nat_add of_nat_mult)
qed (simp add: b64_padding_def)

lemma b64_raw_url_chars: "\<forall>c \<in> set (b64_raw_url bs). plain_char c \<and> ccode c \<noteq> 10 \<and> ccode c \<noteq> 13"
  by (induction bs rule: b64_raw_url.induct) (auto simp: b64_url_char byte_bounds)

lemma decode_raw: "decode_base64url (b64_raw_url bs) = Some bs"
proof -
  let ?s = "b64_raw_url bs"
  have t: "trim_space ?s = ?s" using b64_raw_url_chars [of bs] by (intro trim_space_all_plain) (simp add: list_all_iff)
  have "\<forall>c \<in> set (?s @ b64_padding (length ?s)). ccode c \<noteq> 10 \<and> ccode c \<noteq> 13"
    using b64_raw_url_chars [of bs] by (auto simp: b64_padding_def ccode_def)
  then have "filter (\<lambda>c. ccode c \<noteq> 10 \<and> ccode c \<noteq> 13) (?s @ b64_padding (length ?s)) = ?s @ b64_padding (length ?s)"
    by (simp only: filter_id_conv)
  moreover have "decode_base64url ?s = b64_decode b64_url (?s @ b64_padding (length ?s))"
    by (simp add: decode_base64url_def t b64_padding_def Let_def)
  ultimately show ?thesis by (simp only: b64_decode_def b64_quanta_raw)
qed


text \<open>The login ceremony decodes every key and identifier that the registration ceremony stored
  to the bytes it was made from.\<close>

theorem base64url_round_trip: "decode_base64url (b64_raw_url bs) = Some bs"
  by (rule decode_raw)

section \<open>Registration\<close>

lemma check_client_data_ok:
  "check_client_data env now ty text cs = (cs', Inr data) \<Longrightarrow>
   decode_base64url text = Some data \<and>
   (\<exists>cd. we_json env data = Inr cd \<and> cd_type cd = ty \<and> verify_and_consume (cd_challenge cd) now cs = (cs', True))"
  by (auto simp: check_client_data_def split: option.splits sum.splits if_splits prod.splits bool.splits)

lemma verify_consumed: "verify_and_consume ch now cs = (cs', True) \<Longrightarrow> cs' ch = None \<and> (\<exists>e. cs ch = Some e \<and> now < e) \<and> cs' = cs(ch := None)"
  by (auto simp: verify_and_consume_def split: option.splits if_splits)

lemma finish_registration_ok:
  assumes "finish_registration env now req cs = (cs', Inr pk)"
  obtains a data where "check_client_data env now ''webauthn.create'' (rr_client_data req) cs = (cs', Inr data)"
    "attested_auth_data env (rr_attestation req) = Inr a" "passkey_of_auth_data env now (rr_name req) a = Inr pk"
  using assms that by (auto simp: finish_registration_def split: if_splits prod.splits sum.splits)

text \<open>A registered passkey can be used.  The stored key text decodes to key bytes that parse to a
  COSE key with the recorded algorithm, exactly as the login ceremony will parse it; the user was
  present, and the challenge was live and is now spent.\<close>

theorem registration_sound:
  assumes "finish_registration env now req cs = (cs', Inr pk)"
  shows "(\<exists>key_bytes key. decode_base64url (pk_public_key pk) = Some key_bytes
      \<and> decode_cose_key (we_mem env) (we_order env) key_bytes = Inr key
      \<and> pk_algorithm pk = ck_alg key \<and> key_usable (ck_public key))
    \<and> pk_name pk \<noteq> [] \<and> pk_created pk = now
    \<and> (\<exists>a. attested_auth_data env (rr_attestation req) = Inr a \<and> flag_set (auth_flags a) 1 \<and> flag_set (auth_flags a) 0x40)
    \<and> (\<exists>ch e. cs ch = Some e \<and> now < e \<and> cs' = cs(ch := None))"
  using assms
proof (rule finish_registration_ok)
  fix a data
  assume c: "check_client_data env now ''webauthn.create'' (rr_client_data req) cs = (cs', Inr data)"
    and a: "attested_auth_data env (rr_attestation req) = Inr a" and p: "passkey_of_auth_data env now (rr_name req) a = Inr pk"
  from p obtain cred kb key where k: "decode_cose_key (we_mem env) (we_order env) kb = Inr key"
    "pk_public_key pk = b64_raw_url kb" "pk_algorithm pk = ck_alg key"
    and m: "pk_name pk \<noteq> []" "pk_created pk = now" "flag_set (auth_flags a) 1" "flag_set (auth_flags a) 0x40"
    by (auto simp: passkey_of_auth_data_def split: if_splits sum.splits)
  have "key_usable (ck_public key)"
    using k(1) key_sound by (auto simp: decode_cose_key_def split: sum.splits cbor.splits)
  with k decode_raw have "\<exists>key_bytes key. decode_base64url (pk_public_key pk) = Some key_bytes
      \<and> decode_cose_key (we_mem env) (we_order env) key_bytes = Inr key
      \<and> pk_algorithm pk = ck_alg key \<and> key_usable (ck_public key)" by auto
  moreover from check_client_data_ok [OF c] verify_consumed have "\<exists>ch e. cs ch = Some e \<and> now < e \<and> cs' = cs(ch := None)" by blast
  ultimately show ?thesis using m a by blast
qed

definition sample_rsa :: cbor where
  "sample_rsa = C_Map [(C_Uint 1, C_Uint 3), (C_Uint 3, C_Int (- 7)), (C_Int (- 1), C_Bytes [7]), (C_Int (- 2), C_Bytes [3])]"

definition sample_auth_data :: "byte list" where
  "sample_auth_data = replicate 32 0 @ [0x41, 0, 0, 0, 5] @ replicate 16 0xAB @ [0, 2, 9, 9] @ encode sample_rsa"

definition sample_web_env :: web_env where
  "sample_web_env = \<lparr>we_json = (\<lambda>b. Inr \<lparr>cd_type = (if b = [] then ''webauthn.create'' else ''webauthn.get''),
     cd_challenge = ''abc'', cd_origin = [], cd_cross_origin = False\<rparr>), we_mem = 1000, we_order = (\<lambda>_ m. m),
     we_sha256 = (\<lambda>b. [1]), we_ecdsa = (\<lambda>_ _ _ _. True), we_rsa = (\<lambda>_ _ _ _. None), we_ed25519 = (\<lambda>_ _ _. True)\<rparr>"

definition sample_registration :: registration_request where
  "sample_registration = \<lparr>rr_name = [], rr_id = ''x'', rr_client_data = [],
     rr_attestation = b64_raw_url (encode (C_Map [(C_Text (bytes_of_string ''authData''), C_Bytes sample_auth_data)]))\<rparr>"

definition sample_passkey :: passkey where
  "sample_passkey = \<lparr>pk_id = ''CQk'', pk_name = ''Admin Passkey'', pk_public_key = b64_raw_url (encode sample_rsa),
     pk_algorithm = - 7, pk_sign_count = 5, pk_aaguid = ''abababababababababababababababab'', pk_created = 10,
     pk_last_used = None\<rparr>"

lemma sample_registers:
  "snd (finish_registration sample_web_env 10 sample_registration ((\<lambda>_. None)(''abc'' \<mapsto> 20))) = Inr sample_passkey"
  by code_simp

theorem registration_sound_witness: "pk_created sample_passkey = 10"
proof -
  obtain cs' where "finish_registration sample_web_env 10 sample_registration ((\<lambda>_. None)(''abc'' \<mapsto> 20)) = (cs', Inr sample_passkey)"
    using sample_registers by (metis prod.collapse)
  from registration_sound [OF this] show ?thesis by blast
qed

text \<open>The credential identifier and the key bytes are the two parts of the attested data that the
  length field separates, except that a length of 65481 or more makes the slice bound wrap round
  and the request panic.\<close>

theorem credential_parts_spec:
  assumes "len = bytes_val (take 2 (drop 53 a))" "55 \<le> length a"
  shows "credential_parts a =
    (if length a < 55 + len then Inl Short_Credential
     else if 65481 \<le> len then Inl Panic_Slice
     else Inr (take len (drop 55 a), drop (55 + len) a))"
proof -
  have "len < 256 ^ length (take 2 (drop 53 a))" unfolding assms(1) by (rule bytes_val_less)
  also have "\<dots> \<le> 256 ^ 2" by (rule power_increasing) auto
  finally have l: "len < 65536" by simp
  then have u: "unat (of_nat len :: u16) = len" by (simp add: unat_of_nat take_bit_nat_eq_self)
  have "unat (55 + of_nat len :: u16) = (55 + len) mod 65536"
    by (simp add: unat_word_ariths u)
  also have "\<dots> = (if 65481 \<le> len then 55 + len - 65536 else 55 + len)"
    using l by (auto simp: mod_if)
  finally show ?thesis
    using l by (auto simp: credential_parts_def u Let_def assms(1) [symmetric])
qed

theorem credential_parts_spec_witness:
  "credential_parts sample_auth_data = Inr ([9, 9], encode sample_rsa)"
proof -
  have v: "2 = bytes_val (take 2 (drop 53 sample_auth_data))" by code_simp
  have l: "55 \<le> length sample_auth_data" by code_simp
  have p: "take 2 (drop 55 sample_auth_data) = [9, 9]" "drop (55 + 2) sample_auth_data = encode sample_rsa"
    by (simp_all add: sample_auth_data_def)
  have "\<not> length sample_auth_data < 55 + 2" by code_simp
  with credential_parts_spec [OF v l] p show ?thesis by simp
qed

section \<open>Login\<close>

definition signature_ok :: "web_env \<Rightarrow> cose_key \<Rightarrow> byte list \<Rightarrow> byte list \<Rightarrow> bool" where
  "signature_ok env key msg sig \<longleftrightarrow>
     (ck_alg key = - 7 \<and> (\<exists>x y. ck_public key = PK_ECDSA x y \<and> we_ecdsa env x y (we_sha256 env msg) sig))
   \<or> (ck_alg key = - 257 \<and> (\<exists>n e. ck_public key = PK_RSA n e \<and> we_rsa env n e (we_sha256 env msg) sig = None))
   \<or> (ck_alg key = - 8 \<and> (\<exists>k. ck_public key = PK_Ed25519 k \<and> we_ed25519 env k msg sig))"

lemma check_signature_None: "check_signature env key msg sig = None \<longleftrightarrow> signature_ok env key msg sig"
  by (auto simp: check_signature_def signature_ok_def split: public_key.split option.split)

text \<open>The declarative reading of an accepted assertion.\<close>

definition assertion_ok :: "web_env \<Rightarrow> passkey \<Rightarrow> byte list \<Rightarrow> authentication_request \<Rightarrow> byte list \<Rightarrow> bool" where
  "assertion_ok env pk client req a \<longleftrightarrow>
     decode_base64url (ar_auth_data req) = Some a \<and> 37 \<le> length a \<and> flag_set (auth_flags a) 1
     \<and> (\<exists>sig kb key. decode_base64url (ar_signature req) = Some sig
          \<and> decode_base64url (pk_public_key pk) = Some kb
          \<and> decode_cose_key (we_mem env) (we_order env) kb = Inr key
          \<and> signature_ok env key (a @ we_sha256 env client) sig)"

lemma verify_assertion_iff:
  "verify_assertion env now pk client req = Inr pk' \<longleftrightarrow>
     (\<exists>a. assertion_ok env pk client req a \<and> pk' = pk\<lparr>pk_sign_count := sign_count a, pk_last_used := Some now\<rparr>)"
  by (auto simp: verify_assertion_def assertion_ok_def not_less check_signature_None [symmetric]
      split: option.splits sum.splits)

lemma finish_login_ok:
  assumes "finish_login env now passkeys req cs = (cs', Inr pk')"
  obtains pk client where "pk \<in> set passkeys" "pk_id pk = ar_id req"
    "check_client_data env now ''webauthn.get'' (ar_client_data req) cs = (cs', Inr client)"
    "verify_assertion env now pk client req = Inr pk'"
proof -
  from assms obtain pk client where p: "find (\<lambda>p. pk_id p = ar_id req) passkeys = Some pk"
    "check_client_data env now ''webauthn.get'' (ar_client_data req) cs = (cs', Inr client)"
    "verify_assertion env now pk client req = Inr pk'"
    by (auto simp: finish_login_def split: if_splits option.splits prod.splits sum.splits)
  from p(1) have "pk \<in> set passkeys" "pk_id pk = ar_id req" by (auto simp: find_Some_iff)
  with p(2,3) that show thesis by blast
qed

text \<open>C7: whoever logs in has proved possession of a registered passkey.  A successful login names a
  registered credential, answers a live challenge that is thereby spent, shows the user present,
  and carries a signature by that credential's key over the authenticator data and the hash of
  the client data.\<close>

theorem login_sound:
  assumes "finish_login env now passkeys req cs = (cs', Inr pk')"
  shows "\<exists>pk client cd a e. pk \<in> set passkeys \<and> pk_id pk = ar_id req
    \<and> decode_base64url (ar_client_data req) = Some client \<and> we_json env client = Inr cd \<and> cd_type cd = ''webauthn.get''
    \<and> cs (cd_challenge cd) = Some e \<and> now < e \<and> cs' = cs(cd_challenge cd := None)
    \<and> assertion_ok env pk client req a
    \<and> pk' = pk\<lparr>pk_sign_count := sign_count a, pk_last_used := Some now\<rparr>"
  using assms
proof (rule finish_login_ok)
  fix pk client
  assume p: "pk \<in> set passkeys" "pk_id pk = ar_id req"
    and c: "check_client_data env now ''webauthn.get'' (ar_client_data req) cs = (cs', Inr client)"
    and v: "verify_assertion env now pk client req = Inr pk'"
  from check_client_data_ok [OF c] obtain cd where cd: "decode_base64url (ar_client_data req) = Some client"
    "we_json env client = Inr cd" "cd_type cd = ''webauthn.get''" "verify_and_consume (cd_challenge cd) now cs = (cs', True)" by blast
  from verify_consumed [OF cd(4)] p cd(1-3) v show ?thesis by (auto simp: verify_assertion_iff)
qed

definition sample_key_passkey :: passkey where
  "sample_key_passkey = sample_passkey\<lparr>pk_public_key := b64_raw_url (encode (C_Map [(C_Uint 1, C_Uint 3), (C_Int (- 1), C_Bytes [7]), (C_Int (- 2), C_Bytes [3])]))\<rparr>"

definition sample_login :: authentication_request where
  "sample_login = \<lparr>ar_id = ''CQk'', ar_client_data = ''AQI'', ar_auth_data = b64_raw_url (take 37 sample_auth_data), ar_signature = ''AQI''\<rparr>"

lemma sample_logs_in:
  "snd (finish_login sample_web_env 10 [sample_key_passkey] sample_login ((\<lambda>_. None)(''abc'' \<mapsto> 20)))
   = Inr (sample_key_passkey\<lparr>pk_sign_count := 5, pk_last_used := Some 10\<rparr>)"
  by code_simp

lemma sample_login_result:
  obtains cs' pk' where "finish_login sample_web_env 10 [sample_key_passkey] sample_login ((\<lambda>_. None)(''abc'' \<mapsto> 20)) = (cs', Inr pk')"
  using sample_logs_in by (metis prod.collapse)

theorem login_sound_witness: "\<exists>client a. assertion_ok sample_web_env sample_key_passkey client sample_login a"
proof -
  obtain cs' pk' where "finish_login sample_web_env 10 [sample_key_passkey] sample_login ((\<lambda>_. None)(''abc'' \<mapsto> 20)) = (cs', Inr pk')"
    by (rule sample_login_result)
  from login_sound [OF this] show ?thesis by auto
qed

text \<open>C12: a login cannot be replayed.  Once a request has logged in, the same request fails against
  the challenge store it left, at any time and for any set of passkeys.\<close>

theorem login_not_replayable:
  assumes "finish_login env now passkeys req cs = (cs', Inr pk)"
  shows "snd (finish_login env later passkeys' req cs') \<noteq> Inr pk'"
proof
  assume "snd (finish_login env later passkeys' req cs') = Inr pk'"
  then obtain cs'' where r: "finish_login env later passkeys' req cs' = (cs'', Inr pk')" by (metis prod.collapse)
  from assms obtain data where "check_client_data env now ''webauthn.get'' (ar_client_data req) cs = (cs', Inr data)"
    by (rule finish_login_ok)
  from check_client_data_ok [OF this] obtain cd where d: "decode_base64url (ar_client_data req) = Some data"
    "we_json env data = Inr cd" "cs' (cd_challenge cd) = None" using verify_consumed by blast
  from r obtain data' where "check_client_data env later ''webauthn.get'' (ar_client_data req) cs' = (cs'', Inr data')"
    by (rule finish_login_ok)
  from check_client_data_ok [OF this] d verify_consumed show False by fastforce
qed

theorem login_not_replayable_witness:
  "\<exists>cs'. \<forall>pk'. snd (finish_login sample_web_env 11 [sample_key_passkey] sample_login cs') \<noteq> Inr pk'"
proof -
  obtain cs' pk' where "finish_login sample_web_env 10 [sample_key_passkey] sample_login ((\<lambda>_. None)(''abc'' \<mapsto> 20)) = (cs', Inr pk')"
    by (rule sample_login_result)
  from login_not_replayable [OF this] show ?thesis by blast
qed

text \<open>A login gets through.  After any history in which the challenge of the request was issued
  less than five minutes ago and not presented since, a present user with a valid signature by
  the named passkey is logged in.\<close>

theorem login_succeeds:
  assumes "sorted (map fst evs @ [now])" "replay (outstanding_step ch) None evs = Some t" "now < t + challenge_ttl" "ch \<noteq> []"
    and "find (\<lambda>p. pk_id p = ar_id req) passkeys = Some pk" "ar_id req \<noteq> []"
    and "decode_base64url (ar_client_data req) = Some client" "we_json env client = Inr cd"
      "cd_type cd = ''webauthn.get''" "cd_challenge cd = ch"
    and "assertion_ok env pk client req a"
  shows "snd (finish_login env now passkeys req (replay challenge_step (\<lambda>_. None) evs))
    = Inr (pk\<lparr>pk_sign_count := sign_count a, pk_last_used := Some now\<rparr>)"
proof -
  let ?cs = "replay challenge_step (\<lambda>_. None) evs"
  have "snd (verify_and_consume ch now ?cs)"
    using challenge_history.rel_history [OF assms(1), of ch] assms(2-4)
    by (auto simp: tracks_def verify_and_consume_def split: option.splits)
  then obtain cs' where "verify_and_consume ch now ?cs = (cs', True)" by (metis prod.collapse)
  with assms(7-10) have "check_client_data env now ''webauthn.get'' (ar_client_data req) ?cs = (cs', Inr client)"
    by (simp add: check_client_data_def)
  moreover have "verify_assertion env now pk client req = Inr (pk\<lparr>pk_sign_count := sign_count a, pk_last_used := Some now\<rparr>)"
    using assms(11) by (auto simp: verify_assertion_iff)
  ultimately show ?thesis using assms(5,6) by (simp add: finish_login_def)
qed

theorem login_succeeds_witness:
  "snd (finish_login sample_web_env 20 [sample_key_passkey] sample_login
      (replay challenge_step (\<lambda>_. None) [(10, Ev_Generate (Inr [105, 183]))]))
   = Inr (sample_key_passkey\<lparr>pk_sign_count := 5, pk_last_used := Some 20\<rparr>)"
proof -
  let ?evs = "[(10, Ev_Generate (Inr [105, 183]))] :: (gotime \<times> challenge_event) list"
  let ?a = "take 37 sample_auth_data"
  have t: "b64_raw_url [105, 183] = ''abc''" by code_simp
  have a: "assertion_ok sample_web_env sample_key_passkey [1, 2] sample_login ?a"
  proof -
    obtain cs' pk' where "finish_login sample_web_env 10 [sample_key_passkey] sample_login ((\<lambda>_. None)(''abc'' \<mapsto> 20)) = (cs', Inr pk')"
      by (rule sample_login_result)
    then obtain client where "check_client_data sample_web_env 10 ''webauthn.get'' (ar_client_data sample_login) ((\<lambda>_. None)(''abc'' \<mapsto> 20)) = (cs', Inr client)"
      "verify_assertion sample_web_env 10 sample_key_passkey client sample_login = Inr pk'"
      by (rule finish_login_ok) auto
    moreover have "decode_base64url ''AQI'' = Some [1, 2]" by code_simp
    ultimately obtain a where "assertion_ok sample_web_env sample_key_passkey [1, 2] sample_login a"
      using check_client_data_ok by (fastforce simp: verify_assertion_iff sample_login_def)
    then show ?thesis by (auto simp: assertion_ok_def sample_login_def decode_raw)
  qed
  have c: "sign_count ?a = 5" by code_simp
  have "snd (finish_login sample_web_env 20 [sample_key_passkey] sample_login (replay challenge_step (\<lambda>_. None) ?evs))
      = Inr (sample_key_passkey\<lparr>pk_sign_count := sign_count ?a, pk_last_used := Some 20\<rparr>)"
  proof (rule login_succeeds [where ch = "''abc''" and t = 10 and client = "[1, 2]" and
      cd = "\<lparr>cd_type = ''webauthn.get'', cd_challenge = ''abc'', cd_origin = [], cd_cross_origin = False\<rparr>"])
    show "decode_base64url (ar_client_data sample_login) = Some [1, 2]" by code_simp
  qed (use a in \<open>simp_all add: t challenge_ttl_def second_def sample_login_def sample_key_passkey_def sample_passkey_def sample_web_env_def del: b64_raw_url.simps\<close>)
  then show ?thesis by (simp add: c)
qed

section \<open>Keys whose algorithm does not fit\<close>

text \<open>Registration accepts a key whose declared algorithm belongs to another key type, and such a
  passkey can then never log in, whatever the signature.\<close>

theorem unusable_passkey_registers:
  "snd (finish_registration sample_web_env 10 sample_registration ((\<lambda>_. None)(''abc'' \<mapsto> 20))) = Inr sample_passkey
   \<and> (\<forall>now req cs pk'. snd (finish_login sample_web_env now [sample_passkey] req cs) \<noteq> Inr pk')"
proof (intro conjI allI notI)
  fix now req cs pk'
  assume "snd (finish_login sample_web_env now [sample_passkey] req cs) = Inr pk'"
  then obtain cs' where "finish_login sample_web_env now [sample_passkey] req cs = (cs', Inr pk')" by (metis prod.collapse)
  then obtain client where "verify_assertion sample_web_env now sample_passkey client req = Inr pk'"
    by (rule finish_login_ok) auto
  then obtain kb key msg sig where k: "decode_base64url (pk_public_key sample_passkey) = Some kb"
    "decode_cose_key (we_mem sample_web_env) (we_order sample_web_env) kb = Inr key" "signature_ok sample_web_env key msg sig"
    by (auto simp: verify_assertion_iff assertion_ok_def)
  have "kb = encode sample_rsa" using k(1) by (simp add: sample_passkey_def decode_raw)
  moreover have "decode_cose_key (we_mem sample_web_env) (we_order sample_web_env) (encode sample_rsa)
      = Inr \<lparr>ck_kty = 3, ck_alg = - 7, ck_crv = 0, ck_x = [], ck_y = [], ck_n = [7], ck_e = [3], ck_public = PK_RSA 7 3\<rparr>"
    by code_simp
  ultimately show False using k(2,3) by (auto simp: signature_ok_def)
qed (rule sample_registers)

end
