(* ===== verification/Stats.thy ===== *)
theory Stats
  imports Models
begin

text \<open>
  \<^verbatim>\<open>internal/wgstats/wgstats.go\<close>: the collector of traffic counters.  Counters are \<^verbatim>\<open>int64\<close>,
  added with wrap-around.  A rate is kept as the exact quotient the code divides in floating
  point: a pair of bytes and elapsed nanoseconds, \<open>(0, 1)\<close> for zero.  The output of
  \<^verbatim>\<open>wg show wg0 dump\<close> and the clock are arguments of a poll.  The SVG and text formatting of the
  values is not modelled.
\<close>

section \<open>State\<close>

type_synonym rate = "int \<times> int"

definition no_rate :: rate where
  "no_rate = (0, 1)"

definition history_size :: nat where
  "history_size = 60"

record interface_stats =
  if_rx :: int
  if_tx :: int
  if_rx_ps :: rate
  if_tx_ps :: rate

record live_stats =
  ls_key :: string
  ls_endpoint :: string
  ls_handshake :: gotime
  ls_rx :: int
  ls_tx :: int
  ls_rx_ps :: rate
  ls_tx_ps :: rate

record history_point =
  hp_time :: gotime
  hp_rx :: rate
  hp_tx :: rate

record collector =
  cl_started :: gotime
  cl_iface :: interface_stats
  cl_peers :: "string \<Rightarrow> live_stats option"
  cl_history :: "history_point list"
  cl_peer_history :: "string \<Rightarrow> history_point list option"
  cl_prev_rx :: int
  cl_prev_tx :: int
  cl_prev_peer_rx :: "string \<Rightarrow> int option"
  cl_prev_peer_tx :: "string \<Rightarrow> int option"
  cl_base_rx :: "string \<Rightarrow> int option"
  cl_base_tx :: "string \<Rightarrow> int option"
  cl_session_rx :: "string \<Rightarrow> int option"
  cl_session_tx :: "string \<Rightarrow> int option"
  cl_seen_ever :: "string \<Rightarrow> bool"
  cl_prev_time :: gotime
  cl_up :: bool
  cl_on_handshakes :: bool
  cl_on_stats :: bool

definition new_collector :: collector where
  "new_collector = \<lparr>cl_started = 0, cl_iface = \<lparr>if_rx = 0, if_tx = 0, if_rx_ps = no_rate, if_tx_ps = no_rate\<rparr>,
     cl_peers = (\<lambda>_. None), cl_history = [], cl_peer_history = (\<lambda>_. None), cl_prev_rx = 0, cl_prev_tx = 0,
     cl_prev_peer_rx = (\<lambda>_. None), cl_prev_peer_tx = (\<lambda>_. None), cl_base_rx = (\<lambda>_. None), cl_base_tx = (\<lambda>_. None),
     cl_session_rx = (\<lambda>_. None), cl_session_tx = (\<lambda>_. None), cl_seen_ever = (\<lambda>_. False), cl_prev_time = 0, cl_up = False,
     cl_on_handshakes = False, cl_on_stats = False\<rparr>"

text \<open>A Go map read: the zero value for an absent key.\<close>

definition get0 :: "(string \<Rightarrow> int option) \<Rightarrow> string \<Rightarrow> int" where
  "get0 m k = the_default 0 (m k)"

section \<open>Setters and getters\<close>

definition set_peer_bases :: "(string \<times> int \<times> int) list \<Rightarrow> collector \<Rightarrow> collector" where
  "set_peer_bases bases c =
     c\<lparr>cl_base_rx := foldl (\<lambda>m (k, rx, tx). m(k \<mapsto> rx)) (cl_base_rx c) bases,
       cl_base_tx := foldl (\<lambda>m (k, rx, tx). m(k \<mapsto> tx)) (cl_base_tx c) bases\<rparr>"

definition reset_peer_base :: "string \<Rightarrow> collector \<Rightarrow> collector" where
  "reset_peer_base k c =
     c\<lparr>cl_base_rx := (cl_base_rx c)(k \<mapsto> 0), cl_base_tx := (cl_base_tx c)(k \<mapsto> 0),
       cl_session_rx := (cl_session_rx c)(k \<mapsto> 0), cl_session_tx := (cl_session_tx c)(k \<mapsto> 0),
       cl_seen_ever := (cl_seen_ever c)(k := False),
       cl_prev_peer_rx := (cl_prev_peer_rx c)(k := None), cl_prev_peer_tx := (cl_prev_peer_tx c)(k := None)\<rparr>"

definition on_handshakes :: "bool \<Rightarrow> collector \<Rightarrow> collector" where
  "on_handshakes f c = c\<lparr>cl_on_handshakes := f\<rparr>"

definition on_stats :: "bool \<Rightarrow> collector \<Rightarrow> collector" where
  "on_stats f c = c\<lparr>cl_on_stats := f\<rparr>"

definition set_started_at :: "gotime \<Rightarrow> collector \<Rightarrow> collector" where
  "set_started_at t c = c\<lparr>cl_started := t\<rparr>"

definition get_peer_stats :: "collector \<Rightarrow> string \<Rightarrow> live_stats option" where
  "get_peer_stats c k = cl_peers c k"

definition get_peer_history :: "collector \<Rightarrow> string \<Rightarrow> history_point list option" where
  "get_peer_history c k = cl_peer_history c k"

definition collector_uptime :: "gotime \<Rightarrow> collector \<Rightarrow> int" where
  "collector_uptime now c = (if cl_started c = 0 then 0 else now - cl_started c)"

section \<open>Polling\<close>

text \<open>One peer line of the dump; \<^verbatim>\<open>ParseInt\<close> errors are dropped with the value it returns.\<close>

record dump_line =
  dl_key :: string
  dl_endpoint :: string
  dl_handshake :: int
  dl_rx :: int
  dl_tx :: int

definition parse_dump_line :: "string \<Rightarrow> dump_line option" where
  "parse_dump_line line =
     (let f = split_char (char_of (9 :: nat)) line in
      if length f < 8 then None
      else Some \<lparr>dl_key = f ! 0, dl_endpoint = f ! 2, dl_handshake = fst (parse_int (f ! 4)),
                 dl_rx = fst (parse_int (f ! 5)), dl_tx = fst (parse_int (f ! 6))\<rparr>)"

definition dump_lines :: "string \<Rightarrow> dump_line list" where
  "dump_lines output = List.map_filter parse_dump_line (tl (split_char (char_of (10 :: nat)) (trim_space output)))"

text \<open>The delta of one counter; a smaller value means the kernel counter was reset.\<close>

definition counter_delta :: "int \<Rightarrow> int \<Rightarrow> int" where
  "counter_delta prev now = (if prev \<le> now then sub64 now prev else now)"

definition push_history :: "history_point \<Rightarrow> history_point list \<Rightarrow> history_point list" where
  "push_history p h =
     (let h' = h @ [p] in if history_size < length h' then drop (length h' - history_size) h' else h')"

definition line_rates :: "gotime \<Rightarrow> dump_line \<Rightarrow> collector \<Rightarrow> rate \<times> rate" where
  "line_rates now d c =
     (let k = dl_key d; prx = get0 (cl_prev_peer_rx c) k; ptx = get0 (cl_prev_peer_tx c) k; dt = now - cl_prev_time c in
      if \<not> cl_seen_ever c k \<or> cl_prev_time c = 0 \<or> dt \<le> 0 \<or> dl_rx d < prx \<or> dl_tx d < ptx then (no_rate, no_rate)
      else ((counter_delta prx (dl_rx d), dt), (counter_delta ptx (dl_tx d), dt)))"

definition account_line :: "dump_line \<Rightarrow> collector \<Rightarrow> collector" where
  "account_line d c =
     (let k = dl_key d;
          c1 = (if \<not> cl_seen_ever c k then c\<lparr>cl_seen_ever := (cl_seen_ever c)(k := True)\<rparr>
                else c\<lparr>cl_session_rx := (cl_session_rx c)(k \<mapsto>
                          add64 (get0 (cl_session_rx c) k) (counter_delta (get0 (cl_prev_peer_rx c) k) (dl_rx d))),
                       cl_session_tx := (cl_session_tx c)(k \<mapsto>
                          add64 (get0 (cl_session_tx c) k) (counter_delta (get0 (cl_prev_peer_tx c) k) (dl_tx d)))\<rparr>) in
      c1\<lparr>cl_prev_peer_rx := (cl_prev_peer_rx c)(k \<mapsto> dl_rx d), cl_prev_peer_tx := (cl_prev_peer_tx c)(k \<mapsto> dl_tx d)\<rparr>)"

definition combined :: "collector \<Rightarrow> string \<Rightarrow> int \<times> int" where
  "combined c k = (add64 (get0 (cl_base_rx c) k) (get0 (cl_session_rx c) k),
                   add64 (get0 (cl_base_tx c) k) (get0 (cl_session_tx c) k))"

definition handshake_time :: "dump_line \<Rightarrow> gotime" where
  "handshake_time d = (if 0 < dl_handshake d then unix_time (dl_handshake d) else 0)"

text \<open>One round of the loop; the totals are the second component.\<close>

definition poll_line :: "gotime \<Rightarrow> dump_line \<Rightarrow> collector \<times> int \<times> int \<Rightarrow> collector \<times> int \<times> int" where
  "poll_line now d s =
     (case s of (c, total_rx, total_tx) \<Rightarrow>
        let k = dl_key d; (rxps, txps) = line_rates now d c; c1 = account_line d c; (rx, tx) = combined c1 k in
        (c1\<lparr>cl_peers := (cl_peers c1)(k \<mapsto> \<lparr>ls_key = k, ls_endpoint = dl_endpoint d, ls_handshake = handshake_time d,
               ls_rx = rx, ls_tx = tx, ls_rx_ps = rxps, ls_tx_ps = txps\<rparr>),
            cl_peer_history := (cl_peer_history c1)(k \<mapsto>
               push_history \<lparr>hp_time = now, hp_rx = rxps, hp_tx = txps\<rparr> (the_default [] (cl_peer_history c1 k)))\<rparr>,
         add64 total_rx rx, add64 total_tx tx))"

text \<open>Peers that are gone lose their entries, except those of the transmit counters.\<close>

definition forget_absent :: "string list \<Rightarrow> collector \<Rightarrow> collector" where
  "forget_absent seen c =
     (let gone = (\<lambda>k. cl_peers c k \<noteq> None \<and> k \<notin> set seen) in
      c\<lparr>cl_peers := (\<lambda>k. if gone k then None else cl_peers c k),
        cl_prev_peer_rx := (\<lambda>k. if gone k then None else cl_prev_peer_rx c k),
        cl_prev_peer_tx := (\<lambda>k. if gone k then None else cl_prev_peer_tx c k),
        cl_peer_history := (\<lambda>k. if gone k then None else cl_peer_history c k),
        cl_seen_ever := (\<lambda>k. if gone k then False else cl_seen_ever c k),
        cl_base_rx := (\<lambda>k. if gone k then None else cl_base_rx c k),
        cl_session_rx := (\<lambda>k. if gone k then None else cl_session_rx c k)\<rparr>)"

definition close_poll :: "gotime \<Rightarrow> int \<Rightarrow> int \<Rightarrow> collector \<Rightarrow> collector" where
  "close_poll now rx tx c =
     (let dt = now - cl_prev_time c;
          (rxps, txps) = (if cl_prev_time c \<noteq> 0 \<and> 0 < dt \<and> cl_prev_rx c \<le> rx \<and> cl_prev_tx c \<le> tx
                          then ((sub64 rx (cl_prev_rx c), dt), (sub64 tx (cl_prev_tx c), dt)) else (no_rate, no_rate)) in
      c\<lparr>cl_iface := \<lparr>if_rx = rx, if_tx = tx, if_rx_ps = rxps, if_tx_ps = txps\<rparr>,
        cl_prev_rx := rx, cl_prev_tx := tx, cl_prev_time := now,
        cl_history := push_history \<lparr>hp_time = now, hp_rx = rxps, hp_tx = txps\<rparr> (cl_history c)\<rparr>)"

text \<open>The maps passed to the two callbacks, when they are registered and the map is not empty.\<close>

record poll_calls =
  pc_stats :: "(string \<Rightarrow> live_stats option) option"
  pc_handshakes :: "(string \<Rightarrow> gotime option) option"

definition poll_calls_of :: "dump_line list \<Rightarrow> collector \<Rightarrow> poll_calls" where
  "poll_calls_of ds c =
     (let hs = filter (\<lambda>d. 0 < dl_handshake d) ds in
      \<lparr>pc_stats = (if cl_on_stats c \<and> ds \<noteq> [] then Some (cl_peers c) else None),
       pc_handshakes = (if cl_on_handshakes c \<and> hs \<noteq> []
          then Some (foldl (\<lambda>m d. m(dl_key d \<mapsto> handshake_time d)) (\<lambda>_. None) hs) else None)\<rparr>)"

definition poll :: "string + string \<Rightarrow> gotime \<Rightarrow> collector \<Rightarrow> collector \<times> poll_calls" where
  "poll dump now c =
     (case dump of
        Inl _ \<Rightarrow> (c\<lparr>cl_up := False\<rparr>, \<lparr>pc_stats = None, pc_handshakes = None\<rparr>)
      | Inr output \<Rightarrow>
          let ds = dump_lines output in
          (case fold (poll_line now) ds (c\<lparr>cl_up := True\<rparr>, 0, 0) of
             (c1, rx, tx) \<Rightarrow>
               let c2 = close_poll now rx tx (forget_absent (map dl_key ds) c1) in (c2, poll_calls_of ds c2)))"

section \<open>Bounded histories\<close>

text \<open>The collectors the program can have: every operation in any order.\<close>

inductive collected :: "collector \<Rightarrow> bool" where
  fresh: "collected new_collector"
| bases: "collected c \<Longrightarrow> collected (set_peer_bases b c)"
| resetted: "collected c \<Longrightarrow> collected (reset_peer_base k c)"
| callbacks: "collected c \<Longrightarrow> collected (on_handshakes f (on_stats g c))"
| started: "collected c \<Longrightarrow> collected (set_started_at t c)"
| polled: "collected c \<Longrightarrow> collected (fst (poll dump now c))"

definition histories_bounded :: "collector \<Rightarrow> bool" where
  "histories_bounded c \<longleftrightarrow> length (cl_history c) \<le> history_size
     \<and> (\<forall>k h. cl_peer_history c k = Some h \<longrightarrow> length h \<le> history_size)"

lemma push_history_bound: "length (push_history p h) \<le> history_size"
  by (simp add: push_history_def history_size_def Let_def)

lemma account_line_history [simp]:
  "cl_history (account_line d c) = cl_history c" "cl_peer_history (account_line d c) = cl_peer_history c"
  by (simp_all add: account_line_def Let_def)

lemma poll_line_bounded: "histories_bounded (fst s) \<Longrightarrow> histories_bounded (fst (poll_line now d s))"
  by (auto simp: histories_bounded_def poll_line_def Let_def push_history_bound split: prod.splits)

lemma fold_lines_bounded: "histories_bounded (fst s) \<Longrightarrow> histories_bounded (fst (fold (poll_line now) ds s))"
proof (induction ds arbitrary: s)
  case (Cons d ds)
  from Cons.IH [OF poll_line_bounded [OF Cons.prems]] show ?case by simp
qed simp

lemma poll_bounded: "histories_bounded c \<Longrightarrow> histories_bounded (fst (poll dump now c))"
proof (cases dump)
  case (Inr out)
  assume c: "histories_bounded c"
  obtain c1 rx tx where f: "fold (poll_line now) (dump_lines out) (c\<lparr>cl_up := True\<rparr>, 0, 0) = (c1, rx, tx)"
    by (metis prod_cases3)
  have "histories_bounded (c\<lparr>cl_up := True\<rparr>)" using c by (simp add: histories_bounded_def)
  with fold_lines_bounded [of "(c\<lparr>cl_up := True\<rparr>, 0, 0)" now "dump_lines out"] have "histories_bounded c1" by (simp add: f)
  then have "histories_bounded (close_poll now rx tx (forget_absent (map dl_key (dump_lines out)) c1))"
    by (auto simp: histories_bounded_def close_poll_def forget_absent_def Let_def push_history_bound split: prod.splits)
  then show ?thesis by (simp add: poll_def Inr f Let_def)
qed (simp add: poll_def histories_bounded_def)

text \<open>Memory stays bounded.  Whatever is polled, reset or configured in whatever order, the
  interface history and every peer's history never hold more than 60 points.\<close>

theorem collector_history_bounded:
  assumes "collected c"
  shows "length (cl_history c) \<le> 60 \<and> (\<forall>k h. cl_peer_history c k = Some h \<longrightarrow> length h \<le> 60)"
proof -
  from assms have "histories_bounded c"
  proof (induction rule: collected.induct)
    case (polled c dump now)
    from poll_bounded [OF polled.IH] show ?case .
  qed (auto simp: histories_bounded_def new_collector_def set_peer_bases_def reset_peer_base_def on_handshakes_def on_stats_def set_started_at_def)
  then show ?thesis by (simp add: histories_bounded_def history_size_def)
qed

theorem collector_history_bounded_witness: "length (cl_history (fst (poll (Inr ''x'') 5 new_collector))) \<le> 60"
  using collector_history_bounded [OF polled [OF fresh]] by blast

section \<open>Traffic accounting\<close>

text \<open>What the counters of one peer depend on.\<close>

definition peer_view :: "string \<Rightarrow> collector \<Rightarrow> bool \<times> int \<times> int \<times> int" where
  "peer_view k c = (cl_seen_ever c k, get0 (cl_prev_peer_rx c) k, get0 (cl_session_rx c) k, get0 (cl_base_rx c) k)"

lemma get0_upd [simp]: "get0 (m(k \<mapsto> v)) j = (if j = k then v else get0 m j)"
  by (simp add: get0_def)

lemma account_line_other: "dl_key d \<noteq> k \<Longrightarrow> peer_view k (account_line d c) = peer_view k c"
  by (simp add: peer_view_def account_line_def Let_def)

lemma account_line_view:
  "peer_view (dl_key d) (account_line d c) =
     (case peer_view (dl_key d) c of (seen, prev, ses, base) \<Rightarrow>
        (True, dl_rx d, if seen then add64 ses (counter_delta prev (dl_rx d)) else ses, base))"
  by (simp add: peer_view_def account_line_def Let_def)

lemma poll_line_view [simp]: "peer_view k (fst (poll_line now d s)) = peer_view k (account_line d (fst s))"
  by (simp add: poll_line_def peer_view_def Let_def split: prod.splits)

lemma poll_line_peers: "dl_key d \<noteq> k \<Longrightarrow> cl_peers (fst (poll_line now d s)) k = cl_peers (fst s) k"
  by (simp add: poll_line_def account_line_def Let_def split: prod.splits)

lemma fold_lines_other:
  "\<forall>d \<in> set ds. dl_key d \<noteq> k \<Longrightarrow> peer_view k (fst (fold (poll_line now) ds s)) = peer_view k (fst s)
     \<and> cl_peers (fst (fold (poll_line now) ds s)) k = cl_peers (fst s) k"
  by (induction ds arbitrary: s) (simp_all add: account_line_other poll_line_peers)

lemma filter_single_split:
  "filter P xs = [x] \<Longrightarrow> \<exists>us vs. xs = us @ x # vs \<and> P x \<and> (\<forall>y \<in> set (us @ vs). \<not> P y)"
proof (induction xs)
  case (Cons a xs)
  show ?case
  proof (cases "P a")
    case True
    with Cons.prems have "a = x" "filter P xs = []" by simp_all
    with True show ?thesis by (intro exI [of _ "[]"] exI [of _ xs]) (auto simp: filter_empty_conv)
  next
    case False
    with Cons obtain us vs where "xs = us @ x # vs" "P x" "\<forall>y \<in> set (us @ vs). \<not> P y" by auto
    with False show ?thesis by (intro exI [of _ "a # us"] exI [of _ vs]) auto
  qed
qed simp

lemma poll_view:
  assumes "filter (\<lambda>d. dl_key d = k) (dump_lines out) = [d]"
  shows "peer_view k (fst (poll (Inr out) now c)) = peer_view k (account_line d c)
    \<and> (\<exists>st. cl_peers (fst (poll (Inr out) now c)) k = Some st \<and> ls_rx st = fst (combined (fst (poll (Inr out) now c)) k))"
proof -
  from filter_single_split [OF assms] obtain us vs where
    ds: "dump_lines out = us @ d # vs" "dl_key d = k" "\<forall>x \<in> set us. dl_key x \<noteq> k" "\<forall>x \<in> set vs. dl_key x \<noteq> k" by auto
  let ?s0 = "(c\<lparr>cl_up := True\<rparr>, 0, 0) :: collector \<times> int \<times> int"
  let ?s1 = "fold (poll_line now) us ?s0" and ?s3 = "fold (poll_line now) (dump_lines out) ?s0"
  let ?s2 = "poll_line now d ?s1"
  have s3: "?s3 = fold (poll_line now) vs ?s2" by (simp add: ds(1))
  have v0: "peer_view k (account_line d (c\<lparr>cl_up := True\<rparr>)) = peer_view k (account_line d c)"
    by (simp add: peer_view_def account_line_def Let_def)
  have v1: "peer_view k (fst ?s1) = peer_view k (c\<lparr>cl_up := True\<rparr>)"
    using fold_lines_other [OF ds(3), of now ?s0] by simp
  have "peer_view k (fst ?s2) = peer_view k (account_line d (c\<lparr>cl_up := True\<rparr>))"
    using account_line_view [of d] v1 ds(2) by simp
  with v0 fold_lines_other [OF ds(4), of now ?s2] have v3: "peer_view k (fst ?s3) = peer_view k (account_line d c)"
    by (simp add: s3)
  have p2: "\<exists>st. cl_peers (fst ?s2) k = Some st \<and> ls_rx st = fst (combined (fst ?s2) k)"
    using ds(2) by (simp add: poll_line_def combined_def Let_def split: prod.splits)
  have comb: "fst (combined c' k) = (case peer_view k c' of (_, _, ses, base) \<Rightarrow> add64 base ses)" for c'
    by (simp add: combined_def peer_view_def)
  from p2 fold_lines_other [OF ds(4), of now ?s2] have p3: "\<exists>st. cl_peers (fst ?s3) k = Some st \<and> ls_rx st = fst (combined (fst ?s3) k)"
    by (auto simp: s3 comb)
  obtain c1 rx tx where f: "?s3 = (c1, rx, tx)" by (metis prod_cases3)
  let ?c2 = "close_poll now rx tx (forget_absent (map dl_key (dump_lines out)) c1)"
  have k: "k \<in> set (map dl_key (dump_lines out))" using ds by simp
  have v4: "peer_view k ?c2 = peer_view k c1" "cl_peers ?c2 k = cl_peers c1 k"
    using k by (simp_all add: peer_view_def close_poll_def forget_absent_def get0_def Let_def split: prod.splits)
  have "fst (poll (Inr out) now c) = ?c2" by (simp add: poll_def f Let_def)
  with v3 v4 p3 show ?thesis by (simp add: f comb)
qed

text \<open>The traffic that a sequence of raw counters stands for: increases, and the whole value after a reset.\<close>

fun traffic :: "int \<Rightarrow> int list \<Rightarrow> int" where
  "traffic prev [] = 0"
| "traffic prev (r # rs) = (if prev \<le> r then r - prev else r) + traffic r rs"

definition poll_all :: "(string \<times> gotime) list \<Rightarrow> collector \<Rightarrow> collector" where
  "poll_all outs c = fold (\<lambda>(out, now) c. fst (poll (Inr out) now c)) outs c"

lemma traffic_nonneg: "\<forall>r \<in> set rs. 0 \<le> r \<Longrightarrow> 0 \<le> traffic prev rs"
  by (induction prev rs rule: traffic.induct) auto

lemma add64_id: "0 \<le> a + b \<Longrightarrow> a + b < 2 ^ 63 \<Longrightarrow> add64 a b = a + b"
  unfolding add64_def by (rule int64_id) simp_all

lemma sub64_id: "0 \<le> a - b \<Longrightarrow> a - b < 2 ^ 63 \<Longrightarrow> sub64 a b = a - b"
  unfolding sub64_def by (rule int64_id) simp_all

lemma poll_all_view:
  assumes "peer_view k c = (True, prev, ses, base)" "list_all2 (\<lambda>(out, now) r. \<exists>d. filter (\<lambda>d. dl_key d = k) (dump_lines out) = [d] \<and> dl_rx d = r) outs rs"
    "\<forall>r \<in> set rs. 0 \<le> r" "0 \<le> ses" "ses + traffic prev rs < 2 ^ 63" "0 \<le> prev"
  shows "\<exists>p. peer_view k (poll_all outs c) = (True, p, ses + traffic prev rs, base)"
  using assms
proof (induction rs arbitrary: outs c prev ses)
  case (Cons r rs)
  from Cons.prems(2) obtain out now outs' d where o: "outs = (out, now) # outs'" "filter (\<lambda>d. dl_key d = k) (dump_lines out) = [d]" "dl_rx d = r"
    "list_all2 (\<lambda>(out, now) r. \<exists>d. filter (\<lambda>d. dl_key d = k) (dump_lines out) = [d] \<and> dl_rx d = r) outs' rs"
    by (auto simp: list_all2_Cons2)
  let ?c1 = "fst (poll (Inr out) now c)"
  let ?d = "if prev \<le> r then r - prev else r"
  from o(2) have "dl_key d = k" by (metis (mono_tags) filter_eq_ConsD)
  with poll_view [OF o(2), of now c] account_line_view [of d c] Cons.prems(1) o(3)
  have v: "peer_view k ?c1 = (True, r, add64 ses (counter_delta prev r), base)" by simp
  have n: "0 \<le> traffic r rs" using Cons.prems(3) by (intro traffic_nonneg) simp
  have d0: "0 \<le> ?d" using Cons.prems(3,6) by simp
  have b: "ses + ?d < 2 ^ 63" using Cons.prems(5) n by simp
  have "counter_delta prev r = ?d"
    using b d0 Cons.prems(4) by (auto simp: counter_delta_def intro: sub64_id)
  with v b d0 Cons.prems(4) have v': "peer_view k ?c1 = (True, r, ses + ?d, base)" by (simp add: add64_id)
  have "\<exists>p. peer_view k (poll_all outs' ?c1) = (True, p, ses + ?d + traffic r rs, base)"
    by (rule Cons.IH [OF v' o(4)]) (use Cons.prems d0 in \<open>auto\<close>)
  then show ?case by (simp add: o(1) poll_all_def add.assoc)
qed (simp add: poll_all_def)



definition tab :: string where
  "tab = [char_of (9 :: nat)]"

definition sample_dump :: "string \<Rightarrow> string" where
  "sample_dump rx = ''wg0'' @ [char_of (10 :: nat)] @ join tab [''k'', ''psk'', ''1.2.3.4:5'', ''10.0.0.2/32'', ''7'', rx, ''4'', ''off'']"


section \<open>A peer that disappears\<close>

text \<open>A peer that is missing from one dump loses its received bytes, base included, while the bytes
  sent survive: at its next appearance the reported receive counter is zero again.\<close>

theorem absent_peer_loses_receive_base:
  assumes "cl_peers c k \<noteq> None" "k \<notin> dl_key ` set (dump_lines out1)" "filter (\<lambda>d. dl_key d = k) (dump_lines out2) = [d]"
  shows "\<exists>st. cl_peers (poll_all [(out1, t1), (out2, t2)] c) k = Some st \<and> ls_rx st = 0
    \<and> cl_base_tx (poll_all [(out1, t1)] c) k = cl_base_tx c k"
proof -
  let ?s0 = "(c\<lparr>cl_up := True\<rparr>, 0, 0) :: collector \<times> int \<times> int"
  obtain c1 rx tx where f: "fold (poll_line t1) (dump_lines out1) ?s0 = (c1, rx, tx)" by (metis prod_cases3)
  let ?c2 = "close_poll t1 rx tx (forget_absent (map dl_key (dump_lines out1)) c1)"
  have p: "fst (poll (Inr out1) t1 c) = ?c2" by (simp add: poll_def f Let_def)
  have "\<forall>d \<in> set (dump_lines out1). dl_key d \<noteq> k" using assms(2) by auto
  from fold_lines_other [OF this, of t1 ?s0] have "cl_peers c1 k = cl_peers c k" by (simp add: f)
  with assms(1,2) have v: "peer_view k ?c2 = (False, 0, 0, 0)"
    by (simp add: peer_view_def close_poll_def forget_absent_def get0_def Let_def split: prod.splits)
  have tx: "cl_base_tx (fst (poll_line t d s)) = cl_base_tx (fst s)" for t d s
    by (simp add: poll_line_def account_line_def Let_def split: prod.splits)
  have "cl_base_tx (fst (fold (poll_line t1) ds s)) = cl_base_tx (fst s)" for ds s
    by (induction ds arbitrary: s) (simp_all add: tx)
  from this [of "dump_lines out1" ?s0] have b: "cl_base_tx ?c2 = cl_base_tx c"
    by (simp add: f close_poll_def forget_absent_def Let_def split: prod.splits)
  from assms(3) have "dl_key d = k" by (metis (mono_tags) filter_eq_ConsD)
  with poll_view [OF assms(3), of t2 ?c2] account_line_view [of d ?c2] v have
    "peer_view k (fst (poll (Inr out2) t2 ?c2)) = (True, dl_rx d, 0, 0)"
    "\<exists>st. cl_peers (fst (poll (Inr out2) t2 ?c2)) k = Some st \<and> ls_rx st = fst (combined (fst (poll (Inr out2) t2 ?c2)) k)" by auto
  then show ?thesis using b by (auto simp: poll_all_def p combined_def peer_view_def add64_def)
qed

theorem absent_peer_loses_receive_base_witness:
  "\<exists>st. cl_peers (poll_all [(''wg0'', 20), (sample_dump ''9'', 30)] (fst (poll (Inr (sample_dump ''5'')) 10 (set_peer_bases [(''k'', 100, 7)] new_collector)))) ''k'' = Some st
     \<and> ls_rx st = 0"
proof -
  let ?c = "fst (poll (Inr (sample_dump ''5'')) 10 (set_peer_bases [(''k'', 100, 7)] new_collector))"
  let ?d = "\<lambda>rx. \<lparr>dl_key = ''k'', dl_endpoint = ''1.2.3.4:5'', dl_handshake = 7, dl_rx = rx, dl_tx = 4\<rparr>"
  have d: "dump_lines (sample_dump ''5'') = [?d 5]" "dump_lines (sample_dump ''9'') = [?d 9]" "dump_lines ''wg0'' = []"
    by code_simp+
  have "cl_peers ?c ''k'' \<noteq> None" using poll_view [of "''k''" "sample_dump ''5''" "?d 5"] d(1) by auto
  from absent_peer_loses_receive_base [OF this, of "''wg0''" "sample_dump ''9''" "?d 9" 20 30] d show ?thesis by auto
qed

end
