(* ===== verification/Http.thy ===== *)
theory Http
  imports Edits Gateway Webauthn Stats
begin

text \<open>
  \<^verbatim>\<open>internal/handlers\<close>: the web interface.  A request is a record of what the handlers read of it,
  with its path both escaped, as the multiplexer reads it, and decoded, as the middleware reads it;
  the clock, the random source and the networks of ZeroTier come with the moment of the request.
  The state \<open>app\<close> is what the handlers share: the store and its world, sessions, challenges,
  the gateway manager, the traffic collector and the audit log.  The data a template shows is
  not modelled, only which template is sent and the error it carries.  Handlers that are not
  modelled are an argument.
\<close>

section \<open>Requests and replies\<close>

record request =
  rq_method :: string
  rq_escaped :: string
  rq_path :: string
  rq_cookie :: "string option"
  rq_form :: form
  rq_form_ok :: bool
  rq_upload :: "string + string"
  rq_body :: string
  rq_host :: string
  rq_forwarded :: string
  rq_remote :: string
  rq_htmx :: bool

record moment =
  mo_now :: gotime
  mo_bytes :: "byte list"
  mo_challenge :: "string + byte list"
  mo_keys :: "string + string \<times> string"
  mo_psk :: "string + string"
  mo_id :: "string + byte list"
  mo_zerotier :: "gateway_net list"
  mo_scan :: "peer \<Rightarrow> string \<Rightarrow> string + net_device list"
  mo_audit_ok :: bool

datatype body =
    Template string
  | Warned string write_error
  | Failed string write_error
  | Noted string string
  | Toast string string
  | Page_Error string
  | File string string
  | Plain string
  | Redirect string
  | Auth_Info bool bool nat bool
  | Login_Options request_options
  | Registration_Options creation_options
  | Passkey_Added passkey
  | Done

record response =
  re_status :: nat
  re_body :: body
  re_cookie :: "cookie option"

definition reply :: "nat \<Rightarrow> body \<Rightarrow> response" where
  "reply status b = \<lparr>re_status = status, re_body = b, re_cookie = None\<rparr>"

record app =
  ap_store :: store
  ap_world :: world
  ap_sessions :: sessions
  ap_challenges :: challenges
  ap_gateways :: manager
  ap_effects :: "effect list"
  ap_stats :: collector
  ap_audit :: string

section \<open>Routes\<close>

datatype endpoint =
    Files | Version | Stats_Bar
  | Auth_Status | Login_Begin | Login_Finish | Logout | Passkey_Begin | Passkey_Finish | Passkey_Delete string
  | Quick_Form | Quick_Create | Peers | Peer_New | Peer_Edit string | Peer_Create | Peer_Update string
  | Peer_Delete string | Peer_Toggle string | Peer_QR string
  | Devices string | Scan string | Device_Route string string
  | Server | Server_Update | Server_Show
  | BGP_Tab | BGP_Server | BGP_New | BGP_Edit string | BGP_Create | BGP_Update string | BGP_Delete string
  | System_Tab
  | Assignments | Assign string | Gateways | Gateway_New | Gateway_Create | Gateway_Delete string
  | Gateway_Toggle string | Gateway_Status string
  | ZeroTier | ZeroTier_Status | ZeroTier_Update | ZeroTier_Join | ZeroTier_Leave string
  | Client_Config string | Client_QR string | Server_Download | Apply | Regenerate string | ZeroTier_Restart

datatype segment = Lit string | Var

text \<open>\<^verbatim>\<open>url.PathUnescape\<close>\<close>

fun path_unescape :: "string \<Rightarrow> string option" where
  "path_unescape [] = Some []"
| "path_unescape (c # s) =
     (if c \<noteq> CHR ''%'' then map_option ((#) c) (path_unescape s)
      else (case s of
              a # b # r \<Rightarrow>
                if is_hex a \<and> is_hex b then map_option ((#) (char_of (hex_val a * 16 + hex_val b))) (path_unescape r)
                else None
            | _ \<Rightarrow> None))"

definition unescape_segment :: "string \<Rightarrow> string" where
  "unescape_segment s = (case path_unescape s of None \<Rightarrow> s | Some t \<Rightarrow> t)"

definition path_segments :: "string \<Rightarrow> string list" where
  "path_segments escaped = map unescape_segment (tl (split_char CHR ''/'' escaped))"

text \<open>
  The multiplexer matches the segments of the escaped path.  A variable stands for one segment that
  is neither empty nor a slash, which is how the multiplexer writes the end of a path.
\<close>

fun match_path :: "segment list \<Rightarrow> string list \<Rightarrow> string list option" where
  "match_path [] [] = Some []"
| "match_path (Lit l # ps) (s # ss) = (if s = l then match_path ps ss else None)"
| "match_path (Var # ps) (s # ss) = (if s \<in> {[], ''/''} then None else map_option ((#) s) (match_path ps ss))"
| "match_path _ _ = None"

definition pattern :: "string \<Rightarrow> segment list" where
  "pattern p = map (\<lambda>s. if s = ''*'' then Var else Lit s) (tl (split_char CHR ''/'' p))"

definition arg :: "(string \<Rightarrow> endpoint) \<Rightarrow> string list \<Rightarrow> endpoint" where
  "arg f vs = f (case vs of [] \<Rightarrow> [] | v # _ \<Rightarrow> v)"

definition routes :: "(string \<times> string \<times> (string list \<Rightarrow> endpoint)) list" where
  "routes =
    [(''GET'', ''/version'', \<lambda>_. Version), (''GET'', ''/stats'', \<lambda>_. Stats_Bar),
     (''GET'', ''/api/auth/status'', \<lambda>_. Auth_Status), (''POST'', ''/api/auth/login/begin'', \<lambda>_. Login_Begin),
     (''POST'', ''/api/auth/login/finish'', \<lambda>_. Login_Finish), (''POST'', ''/api/auth/logout'', \<lambda>_. Logout),
     (''POST'', ''/api/auth/passkeys/begin'', \<lambda>_. Passkey_Begin), (''POST'', ''/api/auth/passkeys/finish'', \<lambda>_. Passkey_Finish),
     (''DELETE'', ''/api/auth/passkeys/*'', arg Passkey_Delete),
     (''GET'', ''/peers/quick'', \<lambda>_. Quick_Form), (''POST'', ''/peers/quick'', \<lambda>_. Quick_Create), (''GET'', ''/peers'', \<lambda>_. Peers),
     (''GET'', ''/peers/new'', \<lambda>_. Peer_New), (''GET'', ''/peers/*/edit'', arg Peer_Edit), (''POST'', ''/peers'', \<lambda>_. Peer_Create),
     (''PUT'', ''/peers/*'', arg Peer_Update), (''DELETE'', ''/peers/*'', arg Peer_Delete), (''PUT'', ''/peers/*/toggle'', arg Peer_Toggle),
     (''GET'', ''/peers/*/qr'', arg Peer_QR), (''GET'', ''/peers/*/network-devices'', arg Devices),
     (''POST'', ''/peers/*/network-scan'', arg Scan),
     (''PUT'', ''/peers/*/device-routes/*'', \<lambda>vs. Device_Route (vs ! 0) (vs ! 1)),
     (''GET'', ''/server'', \<lambda>_. Server), (''PUT'', ''/server'', \<lambda>_. Server_Update), (''GET'', ''/server/show'', \<lambda>_. Server_Show),
     (''GET'', ''/bgp/stats'', \<lambda>_. BGP_Tab), (''PUT'', ''/bgp/server'', \<lambda>_. BGP_Server), (''GET'', ''/bgp/peers/new'', \<lambda>_. BGP_New),
     (''GET'', ''/bgp/peers/*/edit'', arg BGP_Edit), (''POST'', ''/bgp/peers'', \<lambda>_. BGP_Create),
     (''PUT'', ''/bgp/peers/*'', arg BGP_Update), (''DELETE'', ''/bgp/peers/*'', arg BGP_Delete),
     (''GET'', ''/system'', \<lambda>_. System_Tab),
     (''GET'', ''/gateway-assignments'', \<lambda>_. Assignments), (''PUT'', ''/gateway-assignments/*'', arg Assign),
     (''GET'', ''/gateways'', \<lambda>_. Gateways), (''GET'', ''/gateways/new'', \<lambda>_. Gateway_New), (''POST'', ''/gateways'', \<lambda>_. Gateway_Create),
     (''DELETE'', ''/gateways/*'', arg Gateway_Delete), (''PUT'', ''/gateways/*/toggle'', arg Gateway_Toggle),
     (''GET'', ''/gateways/*/status'', arg Gateway_Status),
     (''GET'', ''/zerotier'', \<lambda>_. ZeroTier), (''GET'', ''/zerotier/status'', \<lambda>_. ZeroTier_Status), (''PUT'', ''/zerotier'', \<lambda>_. ZeroTier_Update),
     (''POST'', ''/zerotier/networks'', \<lambda>_. ZeroTier_Join), (''DELETE'', ''/zerotier/networks/*'', arg ZeroTier_Leave),
     (''GET'', ''/api/peers/*/config'', arg Client_Config), (''GET'', ''/api/peers/*/qr'', arg Client_QR),
     (''GET'', ''/api/server/config'', \<lambda>_. Server_Download), (''POST'', ''/api/server/apply'', \<lambda>_. Apply),
     (''POST'', ''/api/peers/*/regenerate-keys'', arg Regenerate), (''POST'', ''/api/zerotier/restart'', \<lambda>_. ZeroTier_Restart)]"

text \<open>A pattern for GET also serves HEAD; \<^verbatim>\<open>GET /\<close> takes every other path.\<close>

definition method_matches :: "string \<Rightarrow> string \<Rightarrow> bool" where
  "method_matches m rq \<longleftrightarrow> rq = m \<or> m = ''GET'' \<and> rq = ''HEAD''"

fun find_route :: "(string \<times> string \<times> (string list \<Rightarrow> endpoint)) list \<Rightarrow> string \<Rightarrow> string list \<Rightarrow> endpoint option" where
  "find_route [] m segs = None"
| "find_route ((m', p, f) # rs) m segs =
     (case (if method_matches m' m then match_path (pattern p) segs else None) of
        Some vs \<Rightarrow> Some (f vs) | None \<Rightarrow> find_route rs m segs)"

definition route :: "string \<Rightarrow> string \<Rightarrow> endpoint option" where
  "route m escaped =
     (case find_route routes m (path_segments escaped) of
        Some e \<Rightarrow> Some e
      | None \<Rightarrow> if method_matches ''GET'' m then Some Files else None)"

text \<open>The multiplexer redirects a path that is not clean before it looks for a handler.\<close>

definition clean_path :: "string \<Rightarrow> bool" where
  "clean_path path \<longleftrightarrow> has_prefix path ''/'' \<and> (let segs = tl (split_char CHR ''/'' path) in
     list_all (\<lambda>s. s \<noteq> ''.'' \<and> s \<noteq> ''..'') segs \<and> list_all (\<lambda>s. s \<noteq> []) (butlast segs))"

section \<open>Middleware\<close>

definition enforced :: "app \<Rightarrow> bool" where
  "enforced a \<longleftrightarrow> s_require_passkey (cfg_server (st_config (ap_store a))) \<and> s_passkeys (cfg_server (st_config (ap_store a))) \<noteq> []"

definition open_path :: "string \<Rightarrow> bool" where
  "open_path p \<longleftrightarrow> p \<in> {''/'', ''/version'', ''/favicon.ico'', ''/index.css'', ''/templates.html'', ''/api/auth/status'',
     ''/api/auth/login/begin'', ''/api/auth/login/finish'', ''/api/auth/logout''} \<or> has_prefix p ''/favicon-options/''"

definition check_session :: "request \<Rightarrow> moment \<Rightarrow> app \<Rightarrow> app \<times> bool" where
  "check_session rq mo a =
     (case validate_session (rq_cookie rq) (mo_now mo) (ap_sessions a) of (sm, ok) \<Rightarrow> (a\<lparr>ap_sessions := sm\<rparr>, ok))"

definition refuse :: "request \<Rightarrow> response" where
  "refuse rq =
     (if rq_htmx rq then reply 401 (Template ''login-card'')
      else if has_prefix (rq_path rq) ''/api/'' then reply 401 (Plain ''unauthorized'')
      else reply 303 (Redirect ''/''))"

definition require_auth :: "(app \<Rightarrow> app \<times> response) \<Rightarrow> request \<Rightarrow> moment \<Rightarrow> app \<Rightarrow> app \<times> response" where
  "require_auth next_handler rq mo a =
     (if \<not> enforced a \<or> open_path (rq_path rq) then next_handler a
      else case check_session rq mo a of
             (a', True) \<Rightarrow> next_handler a'
           | (a', False) \<Rightarrow> (a', refuse rq))"

text \<open>The format string of the source ends in a backslash and an \<^verbatim>\<open>n\<close>, not in a line break.\<close>

definition audit_line :: "(gotime \<Rightarrow> string) \<Rightarrow> request \<Rightarrow> moment \<Rightarrow> nat \<Rightarrow> string" where
  "audit_line stamp rq mo status =
     stamp (mo_now mo) @ '' '' @ rq_method rq @ '' '' @ rq_path rq @ '' from ''
     @ (case split_host_port (rq_remote rq) of Some (h, _) \<Rightarrow> h | None \<Rightarrow> rq_remote rq)
     @ '' status='' @ nat_dec status @ [char_of (92 :: nat), CHR ''n'']"

definition audit_mutation :: "(gotime \<Rightarrow> string) \<Rightarrow> request \<Rightarrow> moment \<Rightarrow> nat \<Rightarrow> app \<Rightarrow> app" where
  "audit_mutation stamp rq mo status a =
     (if 400 \<le> status \<or> rq_method rq \<notin> {''POST'', ''PUT'', ''DELETE'', ''PATCH''} \<or> \<not> mo_audit_ok mo then a
      else a\<lparr>ap_audit := ap_audit a @ audit_line stamp rq mo status\<rparr>)"

end
