(* ===== verification/Handlers.thy ===== *)
theory Handlers
  imports Http
begin

text \<open>
  \<^verbatim>\<open>internal/handlers\<close>: the handlers themselves, and the router that puts them behind the
  authentication and the audit log.  \<open>context\<close> holds what they call outside of this program: JSON,
  the key derivation, the time format, and \<open>cx_other\<close>, the handlers that are not modelled.
\<close>

section \<open>Context\<close>

record web_context =
  cx_env :: env
  cx_web :: web_env
  cx_host :: responder
  cx_login_json :: "string \<Rightarrow> authentication_request option"
  cx_registration_json :: "string \<Rightarrow> registration_request option"
  cx_derive :: "string \<Rightarrow> string + string"
  cx_stamp :: "gotime \<Rightarrow> string"
  cx_other :: "endpoint \<Rightarrow> request \<Rightarrow> moment \<Rightarrow> app \<Rightarrow> app \<times> response"

definition app_config_of :: "app \<Rightarrow> app_config" where
  "app_config_of a = st_config (ap_store a)"

definition write_edit :: "web_context \<Rightarrow> edit \<Rightarrow> app \<Rightarrow> app \<times> write_error option" where
  "write_edit cx ed a =
     (case submit (cx_env cx) ed (ap_store a) (ap_world a) of
        (s, w, e) \<Rightarrow> (a\<lparr>ap_store := s, ap_world := w\<rparr>, e))"

text \<open>The usual answers: a page, a page with a warning when the change was saved but not applied,
  a form with the validation errors, or a failure.\<close>

definition answer :: "string \<Rightarrow> nat \<times> body \<Rightarrow> nat \<times> body \<Rightarrow> write_error option \<Rightarrow> response" where
  "answer page invalid other err =
     (case err of
        None \<Rightarrow> reply 200 (Template page)
      | Some (Apply_Error es) \<Rightarrow> reply 200 (Warned page (Apply_Error es))
      | Some (Invalid v) \<Rightarrow> reply (fst invalid) (snd invalid)
      | Some e \<Rightarrow> reply (fst other) (snd other))"

definition failure :: "write_error option \<Rightarrow> string \<Rightarrow> body" where
  "failure err page = (case err of None \<Rightarrow> Template page | Some e \<Rightarrow> Failed page e)"

text \<open>Most handlers: an edit, then one page on success and another for a rejected form.\<close>

definition edit_and_answer :: "web_context \<Rightarrow> edit \<Rightarrow> string \<Rightarrow> nat \<times> string \<Rightarrow> nat \<times> string \<Rightarrow> app \<Rightarrow> app \<times> response" where
  "edit_and_answer cx ed page invalid other a =
     (case write_edit cx ed a of
        (a', err) \<Rightarrow> (a', answer page (fst invalid, failure err (snd invalid)) (fst other, failure err (snd other)) err))"

definition bad_request :: response where
  "bad_request = reply 400 (Page_Error ''bad request'')"

definition is_applied :: "write_error option \<Rightarrow> bool" where
  "is_applied err = (case err of None \<Rightarrow> True | Some (Apply_Error _) \<Rightarrow> True | _ \<Rightarrow> False)"

section \<open>Authentication\<close>

definition start_session :: "moment \<Rightarrow> app \<Rightarrow> app \<times> cookie" where
  "start_session mo a =
     (case create_session (mo_bytes mo) (mo_now mo) (ap_sessions a) of
        (sm, c, _) \<Rightarrow> (a\<lparr>ap_sessions := sm\<rparr>, c))"

definition get_rp_id :: "string \<Rightarrow> string" where
  "get_rp_id host =
     (let h = (if CHR '':'' \<in> set host then (case split_host_port host of Some (h, _) \<Rightarrow> h | None \<Rightarrow> host) else host) in
      if h = [] then ''localhost'' else h)"

definition get_auth_status :: "request \<Rightarrow> moment \<Rightarrow> app \<Rightarrow> app \<times> response" where
  "get_auth_status rq mo a =
     (case check_session rq mo a of
        (a', ok) \<Rightarrow>
          let srv = cfg_server (app_config_of a); n = length (s_passkeys srv) in
          (a', reply 200 (Auth_Info (s_require_passkey srv) (0 < n) n (ok \<or> \<not> enforced a))))"

definition login_begin :: "web_context \<Rightarrow> request \<Rightarrow> moment \<Rightarrow> app \<Rightarrow> app \<times> response" where
  "login_begin cx rq mo a =
     (let ks = s_passkeys (cfg_server (app_config_of a)) in
      if ks = [] then (a, reply 400 (Plain ''no passkeys registered''))
      else case begin_login (mo_challenge mo) (mo_now mo) (get_rp_id (rq_host rq)) ks (ap_challenges a) of
             (cs, Inl e) \<Rightarrow> (a\<lparr>ap_challenges := cs\<rparr>, reply 500 (Plain ''initiating login''))
           | (cs, Inr opts) \<Rightarrow> (a\<lparr>ap_challenges := cs\<rparr>, reply 200 (Login_Options opts)))"

text \<open>The error of the update of the passkey is ignored.\<close>

definition login_finish :: "web_context \<Rightarrow> request \<Rightarrow> moment \<Rightarrow> app \<Rightarrow> app \<times> response" where
  "login_finish cx rq mo a =
     (case cx_login_json cx (rq_body rq) of
        None \<Rightarrow> (a, reply 400 (Plain ''invalid request payload''))
      | Some req \<Rightarrow>
          (case finish_login (cx_web cx) (mo_now mo) (s_passkeys (cfg_server (app_config_of a))) req (ap_challenges a) of
             (cs, Inl e) \<Rightarrow> (a\<lparr>ap_challenges := cs\<rparr>, reply 401 (Plain ''authentication failed''))
           | (cs, Inr pk) \<Rightarrow>
               let a1 = fst (write_edit cx (touch_passkey pk) (a\<lparr>ap_challenges := cs\<rparr>)) in
               (case start_session mo a1 of
                  (a2, c) \<Rightarrow> (a2, (reply 200 Done)\<lparr>re_cookie := Some c\<rparr>))))"

definition logout :: "request \<Rightarrow> app \<Rightarrow> app \<times> response" where
  "logout rq a =
     (case clear_session (rq_cookie rq) (ap_sessions a) of
        (sm, c) \<Rightarrow> (a\<lparr>ap_sessions := sm\<rparr>, (reply 200 Done)\<lparr>re_cookie := Some c\<rparr>))"

text \<open>The second check of the passkey handlers.\<close>

definition with_session :: "request \<Rightarrow> moment \<Rightarrow> (app \<Rightarrow> app \<times> response) \<Rightarrow> app \<Rightarrow> app \<times> response" where
  "with_session rq mo next_step a =
     (if \<not> enforced a then next_step a
      else case check_session rq mo a of
             (a', True) \<Rightarrow> next_step a'
           | (a', False) \<Rightarrow> (a', reply 401 (Plain ''unauthorized'')))"

definition passkey_begin :: "web_context \<Rightarrow> request \<Rightarrow> moment \<Rightarrow> app \<Rightarrow> app \<times> response" where
  "passkey_begin cx rq mo = with_session rq mo (\<lambda>a.
     case begin_registration (mo_challenge mo) (mo_now mo) (get_rp_id (rq_host rq)) ''WG Busy'' (ap_challenges a) of
       (cs, Inl e) \<Rightarrow> (a\<lparr>ap_challenges := cs\<rparr>, reply 500 (Plain ''initiating passkey registration''))
     | (cs, Inr opts) \<Rightarrow> (a\<lparr>ap_challenges := cs\<rparr>, reply 200 (Registration_Options opts)))"

definition passkey_finish :: "web_context \<Rightarrow> request \<Rightarrow> moment \<Rightarrow> app \<Rightarrow> app \<times> response" where
  "passkey_finish cx rq mo = with_session rq mo (\<lambda>a.
     case cx_registration_json cx (rq_body rq) of
       None \<Rightarrow> (a, reply 400 (Plain ''invalid request payload''))
     | Some req \<Rightarrow>
         (case finish_registration (cx_web cx) (mo_now mo) req (ap_challenges a) of
            (cs, Inl e) \<Rightarrow> (a\<lparr>ap_challenges := cs\<rparr>, reply 400 (Plain ''passkey registration failed''))
          | (cs, Inr pk) \<Rightarrow>
              (case write_edit cx (add_passkey pk) (a\<lparr>ap_challenges := cs\<rparr>) of
                 (a1, err) \<Rightarrow>
                   if \<not> is_applied err then (a1, reply 500 (failure err ''saving passkey''))
                   else (case start_session mo a1 of
                           (a2, c) \<Rightarrow> (a2, (reply 200 (Passkey_Added pk))\<lparr>re_cookie := Some c\<rparr>)))))"

definition passkey_delete :: "web_context \<Rightarrow> string \<Rightarrow> request \<Rightarrow> moment \<Rightarrow> app \<Rightarrow> app \<times> response" where
  "passkey_delete cx i rq mo = with_session rq mo (\<lambda>a.
     if i = [] then (a, reply 400 (Plain ''missing passkey ID''))
     else case write_edit cx (delete_passkey i) a of
            (a1, err) \<Rightarrow>
              if \<not> is_applied err then (a1, reply 404 (failure err ''delete-passkey''))
              else (a1, reply 200 (if rq_htmx rq then Template ''server-config'' else Done)))"

section \<open>Peers\<close>

definition peer_create :: "web_context \<Rightarrow> request \<Rightarrow> moment \<Rightarrow> app \<Rightarrow> app \<times> response" where
  "peer_create cx rq mo a =
     (if \<not> rq_form_ok rq then (a, bad_request)
      else case mo_keys mo of
             Inl e \<Rightarrow> (a, reply 500 (Page_Error (''key generation failed: '' @ e)))
           | Inr keys \<Rightarrow>
               (case (if form_on (rq_form rq) ''presharedKey'' then mo_psk mo else Inr []) of
                  Inl e \<Rightarrow> (a, reply 500 (Page_Error (''PSK generation failed: '' @ e)))
                | Inr psk \<Rightarrow>
                    (case mo_id mo of
                       Inl e \<Rightarrow> (a, reply 500 (Page_Error (''ID generation failed: '' @ e)))
                     | Inr b \<Rightarrow>
                         edit_and_answer cx
                           (add_peer (mo_zerotier mo) (new_peer (rq_form rq) (mo_now mo) (hex_bytes b) keys psk))
                           ''peers-list'' (422, ''peer-form'') (422, ''peer-form'') a)))"

definition quick_create :: "web_context \<Rightarrow> request \<Rightarrow> moment \<Rightarrow> app \<Rightarrow> app \<times> response" where
  "quick_create cx rq mo a =
     (let name = form_text (rq_form rq) ''name'' in
      if \<not> rq_form_ok rq then (a, bad_request)
      else if name = [] then (a, reply 422 (Noted ''quick-peer-form'' ''Name ist erforderlich.''))
      else if 64 < length name then (a, reply 422 (Noted ''quick-peer-form'' ''Name darf maximal 64 Zeichen enthalten.''))
      else case mo_keys mo of
             Inl e \<Rightarrow> (a, reply 500 (Page_Error (''key generation failed: '' @ e)))
           | Inr keys \<Rightarrow>
               (case mo_psk mo of
                  Inl e \<Rightarrow> (a, reply 500 (Page_Error (''PSK generation failed: '' @ e)))
                | Inr psk \<Rightarrow>
                    (case mo_id mo of
                       Inl e \<Rightarrow> (a, reply 500 (Page_Error (''ID generation failed: '' @ e)))
                     | Inr b \<Rightarrow>
                         (case write_edit cx (add_quick_peer (mo_zerotier mo) (quick_peer name (mo_now mo) (hex_bytes b) keys psk)) a of
                            (a1, None) \<Rightarrow> (a1, reply 200 (Template ''quick-peer-created''))
                          | (a1, Some (Apply_Error es)) \<Rightarrow> (a1, reply 200 (Warned ''peers-list'' (Apply_Error es)))
                          | (a1, Some e) \<Rightarrow> (a1, reply 422 (Failed ''quick-peer-form'' e))))))"

definition peer_update :: "web_context \<Rightarrow> string \<Rightarrow> request \<Rightarrow> moment \<Rightarrow> app \<Rightarrow> app \<times> response" where
  "peer_update cx i rq mo a =
     (if \<not> rq_form_ok rq then (a, bad_request)
      else edit_and_answer cx (update_peer (mo_zerotier mo) i (rq_form rq) (mo_now mo))
             ''peers-list'' (422, ''peer-form'') (500, ''empty'') a)"

definition peer_delete :: "web_context \<Rightarrow> string \<Rightarrow> app \<Rightarrow> app \<times> response" where
  "peer_delete cx i = edit_and_answer cx (delete_peer i) ''peers-list'' (500, ''empty'') (500, ''empty'')"

definition peer_toggle :: "web_context \<Rightarrow> string \<Rightarrow> moment \<Rightarrow> app \<Rightarrow> app \<times> response" where
  "peer_toggle cx i mo = edit_and_answer cx (toggle_peer i (mo_now mo)) ''peer-row'' (500, ''empty'') (500, ''empty'')"

text \<open>The counters of the old key are reset only when the write reported no error at all.\<close>

definition regenerate :: "web_context \<Rightarrow> string \<Rightarrow> moment \<Rightarrow> app \<Rightarrow> app \<times> response" where
  "regenerate cx i mo a =
     (let old = (case find_peer_by_id (cfg_peers (app_config_of a)) i of None \<Rightarrow> [] | Some p \<Rightarrow> p_public_key p) in
      case write_edit cx (regenerate_keys i (mo_keys mo) (mo_now mo)) a of
        (a1, err) \<Rightarrow>
          (if err = None \<and> old \<noteq> [] then a1\<lparr>ap_stats := reset_peer_base old (ap_stats a1)\<rparr> else a1,
           answer ''peer-form'' (500, failure err ''empty'') (500, failure err ''empty'') err))"

definition gateway_assign :: "web_context \<Rightarrow> string \<Rightarrow> request \<Rightarrow> moment \<Rightarrow> app \<Rightarrow> app \<times> response" where
  "gateway_assign cx i rq mo a =
     (if \<not> rq_form_ok rq then (a, bad_request)
      else edit_and_answer cx (assign_gateway i (form_text (rq_form rq) ''vpnGatewayID'') (mo_now mo))
             ''gateway-assignments'' (400, ''empty'') (400, ''empty'') a)"

section \<open>Devices behind a peer\<close>

definition device_address :: "string \<Rightarrow> string + string" where
  "device_address raw =
     (case path_unescape raw of
        None \<Rightarrow> Inl ''invalid device IP''
      | Some s \<Rightarrow>
          (case parse_ip (trim_space s) of
             None \<Rightarrow> Inl ''invalid IPv4 device address''
           | Some ip \<Rightarrow> if to4 ip = None then Inl ''invalid IPv4 device address'' else Inr (trim_space s)))"

definition device_route :: "web_context \<Rightarrow> string \<Rightarrow> string \<Rightarrow> request \<Rightarrow> moment \<Rightarrow> app \<Rightarrow> app \<times> response" where
  "device_route cx i raw rq mo a =
     (case device_address raw of
        Inl e \<Rightarrow> (a, reply 400 (Page_Error e))
      | Inr ip \<Rightarrow>
          let gid = form_text (rq_form rq) ''gatewayID'' in
          if gid \<noteq> [] \<and> \<not> (case find_vpn_gateway_by_id (cfg_gateways (app_config_of a)) gid of
                              None \<Rightarrow> False | Some g \<Rightarrow> g_enabled g)
          then (a, reply 400 (Page_Error ''VPN-Gateway not found or disabled''))
          else (case write_edit cx (set_device_route i ip gid (mo_now mo)) a of
                  (a1, None) \<Rightarrow> (a1, reply 200 (Template ''peer-network-devices''))
                | (a1, Some e) \<Rightarrow> (a1, reply 500 (Failed ''empty'' e))))"

definition scan_devices :: "web_context \<Rightarrow> string \<Rightarrow> request \<Rightarrow> moment \<Rightarrow> app \<Rightarrow> app \<times> response" where
  "scan_devices cx i rq mo a =
     (case find_peer_by_id (cfg_peers (app_config_of a)) i of
        None \<Rightarrow> (a, reply 404 (Page_Error ''peer not found''))
      | Some p \<Rightarrow>
          (case mo_scan mo p (form_value (rq_form rq) ''network'') of
             Inl e \<Rightarrow> (a, reply 200 (Noted ''peer-network-devices'' e))
           | Inr ds \<Rightarrow>
               (case write_edit cx (record_scan i ds (mo_now mo)) a of
                  (a1, None) \<Rightarrow> (a1, reply 200 (Template ''peer-network-devices''))
                | (a1, Some e) \<Rightarrow> (a1, reply 200 (Failed ''peer-network-devices'' e)))))"

section \<open>Gateways\<close>

text \<open>The page asks the manager for the status of every gateway.\<close>

definition gateway_page :: "web_context \<Rightarrow> app \<Rightarrow> app \<times> response" where
  "gateway_page cx a =
     (a\<lparr>ap_effects := fold (\<lambda>g log. snd (gateway_status_of (cx_host cx) (g_id g) (ap_gateways a, log)))
          (cfg_gateways (app_config_of a)) (ap_effects a)\<rparr>, reply 200 (Template ''gateways''))"

definition with_manager :: "(manager \<times> effect list \<Rightarrow> manager \<times> effect list) \<Rightarrow> app \<Rightarrow> app" where
  "with_manager f a = (case f (ap_gateways a, ap_effects a) of (m, log) \<Rightarrow> a\<lparr>ap_gateways := m, ap_effects := log\<rparr>)"

definition named_gateway :: "form \<Rightarrow> gotime \<Rightarrow> string \<Rightarrow> vpn_gateway \<Rightarrow> vpn_gateway" where
  "named_gateway f now i g =
     (let iface = safe_interface_name i; name = form_text f ''name'' in
      g\<lparr>g_name := (if name = [] then iface else name), g_enabled := form_on f ''enabled'',
        g_auto_start := form_on f ''autoStart'', g_created := now, g_updated := now, g_id := i,
        g_interface := iface, g_table := 0\<rparr>)"

definition upload_limit :: nat where
  "upload_limit = 512 * 1024"

definition gateway_create :: "web_context \<Rightarrow> request \<Rightarrow> moment \<Rightarrow> app \<Rightarrow> app \<times> response" where
  "gateway_create cx rq mo a =
     (if \<not> rq_form_ok rq then (a, reply 400 (Plain ''upload''))
      else case rq_upload rq of
             Inl e \<Rightarrow> (a, reply 400 (Plain e))
           | Inr raw \<Rightarrow>
               (case parse_config (take upload_limit raw) of
                  Inl e \<Rightarrow> (a, reply 400 (Plain ''configuration''))
                | Inr g0 \<Rightarrow>
                    (case mo_id mo of
                       Inl e \<Rightarrow> (a, reply 500 (Plain e))
                     | Inr b \<Rightarrow>
                         let g = named_gateway (rq_form rq) (mo_now mo) (hex_bytes b) g0 in
                         (case validate_vpn_gateway g of
                            Some e \<Rightarrow> (a, reply 400 (Plain e))
                          | None \<Rightarrow>
                              (case write_edit cx (add_gateway g) a of
                                 (a1, Some e) \<Rightarrow> (a1, reply 500 (Failed ''gateways'' e))
                               | (a1, None) \<Rightarrow>
                                   gateway_page cx
                                     (if g_enabled g then with_manager (\<lambda>s. fst (start_gateway (cx_host cx) (mo_now mo) g s)) a1
                                      else a1))))))"

definition gateway_delete :: "web_context \<Rightarrow> string \<Rightarrow> moment \<Rightarrow> app \<Rightarrow> app \<times> response" where
  "gateway_delete cx i mo a =
     (case write_edit cx (delete_gateway i) a of
        (a1, Some e) \<Rightarrow> (a1, reply 404 (Failed ''gateways'' e))
      | (a1, None) \<Rightarrow>
          gateway_page cx
            (case find_vpn_gateway_by_id (cfg_gateways (app_config_of a)) i of
               None \<Rightarrow> a1 | Some g \<Rightarrow> with_manager (stop_gateway (cx_host cx) (mo_now mo) g) a1))"

definition gateway_toggle :: "web_context \<Rightarrow> string \<Rightarrow> moment \<Rightarrow> app \<Rightarrow> app \<times> response" where
  "gateway_toggle cx i mo a =
     (case write_edit cx (toggle_gateway i (mo_now mo)) a of
        (a1, Some e) \<Rightarrow> (a1, reply 404 (Failed ''gateways'' e))
      | (a1, None) \<Rightarrow>
          gateway_page cx
            (case find_vpn_gateway_by_id (cfg_gateways (app_config_of a)) i of
               None \<Rightarrow> a1
             | Some g0 \<Rightarrow>
                 let g = g0\<lparr>g_enabled := \<not> g_enabled g0, g_updated := mo_now mo\<rparr> in
                 with_manager (if g_enabled g then (\<lambda>s. fst (start_gateway (cx_host cx) (mo_now mo) g s))
                               else stop_gateway (cx_host cx) (mo_now mo) g) a1))"

section \<open>Server, BGP and ZeroTier settings\<close>

definition server_update :: "web_context \<Rightarrow> request \<Rightarrow> moment \<Rightarrow> app \<Rightarrow> app \<times> response" where
  "server_update cx rq mo a =
     (if \<not> rq_form_ok rq then (a, bad_request)
      else case write_edit cx (update_server (rq_form rq)) a of
             (a1, None) \<Rightarrow>
               if s_require_passkey (server_form (rq_form rq) (cfg_server (app_config_of a)))
               then (case start_session mo a1 of
                       (a2, c) \<Rightarrow> (a2, (reply 200 (Template ''server-config''))\<lparr>re_cookie := Some c\<rparr>))
               else (a1, reply 200 (Template ''server-config''))
           | (a1, err) \<Rightarrow> (a1, answer ''server-config'' (422, failure err ''server-config'') (500, failure err ''server-config'') err))"

definition bgp_server :: "web_context \<Rightarrow> request \<Rightarrow> app \<Rightarrow> app \<times> response" where
  "bgp_server cx rq a =
     (if \<not> rq_form_ok rq then (a, bad_request)
      else edit_and_answer cx (update_bgp_server (rq_form rq)) ''bgp-tab'' (422, ''bgp-tab'') (500, ''bgp-tab'') a)"

definition bgp_create :: "web_context \<Rightarrow> request \<Rightarrow> moment \<Rightarrow> app \<Rightarrow> app \<times> response" where
  "bgp_create cx rq mo a =
     (if \<not> rq_form_ok rq then (a, bad_request)
      else case mo_id mo of
             Inl e \<Rightarrow> (a, reply 500 (Page_Error (''ID generation failed: '' @ e)))
           | Inr b \<Rightarrow>
               edit_and_answer cx (add_bgp_peer (new_bgp_peer (rq_form rq) (mo_now mo) (hex_bytes b)))
                 ''bgp-custom-peers'' (422, ''bgp-peer-form'') (422, ''bgp-peer-form'') a)"

definition bgp_update :: "web_context \<Rightarrow> string \<Rightarrow> request \<Rightarrow> moment \<Rightarrow> app \<Rightarrow> app \<times> response" where
  "bgp_update cx i rq mo a =
     (if \<not> rq_form_ok rq then (a, bad_request)
      else edit_and_answer cx (update_bgp_peer i (rq_form rq) (mo_now mo))
             ''bgp-custom-peers'' (422, ''bgp-peer-form'') (500, ''empty'') a)"

definition bgp_delete :: "web_context \<Rightarrow> string \<Rightarrow> app \<Rightarrow> app \<times> response" where
  "bgp_delete cx i = edit_and_answer cx (delete_bgp_peer i) ''bgp-tab'' (500, ''empty'') (500, ''empty'')"

definition respond_zerotier :: "web_context \<Rightarrow> edit \<Rightarrow> app \<Rightarrow> app \<times> response" where
  "respond_zerotier cx ed = edit_and_answer cx ed ''zerotier-tab'' (422, ''zerotier-tab'') (500, ''zerotier-tab'')"

definition zerotier_update :: "web_context \<Rightarrow> request \<Rightarrow> app \<Rightarrow> app \<times> response" where
  "zerotier_update cx rq a = (if \<not> rq_form_ok rq then (a, bad_request) else respond_zerotier cx (update_zerotier (rq_form rq)) a)"

definition zerotier_join :: "web_context \<Rightarrow> request \<Rightarrow> app \<Rightarrow> app \<times> response" where
  "zerotier_join cx rq a = (if \<not> rq_form_ok rq then (a, bad_request) else respond_zerotier cx (join_network (rq_form rq)) a)"

definition zerotier_leave :: "web_context \<Rightarrow> string \<Rightarrow> app \<Rightarrow> app \<times> response" where
  "zerotier_leave cx i = respond_zerotier cx (leave_network i)"

section \<open>Downloads and apply\<close>

definition client_endpoint_from_request :: "request \<Rightarrow> u16 \<Rightarrow> string" where
  "client_endpoint_from_request rq port =
     (let fwd = trim_space (rq_forwarded rq); host0 = (if fwd = [] then trim_space (rq_host rq) else fwd);
          host = (case split_host_port host0 of Some (h, _) \<Rightarrow> h | None \<Rightarrow> trim_brackets host0) in
      if host0 = [] \<or> host = [] then []
      else (case parse_ip host of
              Some ip \<Rightarrow> (if to4 ip = None then ''['' @ host @ '']'' else host)
            | None \<Rightarrow> host) @ '':'' @ nat_dec (unat port))"

definition config_filename :: "peer \<Rightarrow> string" where
  "config_filename p =
     (let name = filter (\<lambda>c. is_alnum c \<or> c = CHR ''-'' \<or> c = CHR ''_'') (map (\<lambda>c. if c = CHR '' '' then CHR ''-'' else c) (p_name p)) in
      (if name = [] then p_id p else name) @ ''.conf'')"

definition client_config :: "web_context \<Rightarrow> string \<Rightarrow> request \<Rightarrow> app \<Rightarrow> app \<times> response" where
  "client_config cx i rq a =
     (let srv = cfg_server (app_config_of a) in
      case find_peer_by_id (cfg_peers (app_config_of a)) i of
        None \<Rightarrow> (a, reply 500 (Plain ''peer not found''))
      | Some p \<Rightarrow>
          (case render_client_config_with_endpoint (cx_derive cx) srv p (client_endpoint_from_request rq (s_listen_port srv)) of
             Inl e \<Rightarrow> (a, reply 500 (Plain e))
           | Inr text \<Rightarrow> (a, reply 200 (File (config_filename p) text))))"

definition server_download :: "web_context \<Rightarrow> moment \<Rightarrow> app \<Rightarrow> app \<times> response" where
  "server_download cx mo a =
     (let cfg = app_config_of a; nets = config_nets (mo_zerotier mo) cfg; env = cx_env cx in
      (a, reply 200 (File ''wg0.conf''
        (render_server_config cfg (generate_post_up (e_ord env) (e_lan env) cfg nets [])
           (generate_post_down (e_ord env) (e_lan env) cfg nets [])))))"

definition apply_config :: "web_context \<Rightarrow> moment \<Rightarrow> app \<Rightarrow> app \<times> response" where
  "apply_config cx mo a =
     (let env = cx_env cx in
      case restart_wg_config (e_run env) (w_wg (ap_world a)) (st_wg_path (ap_store a)) of
        (wg, Some e) \<Rightarrow>
          (a\<lparr>ap_world := (ap_world a)\<lparr>w_wg := wg\<rparr>\<rparr>, reply 200 (Toast ''error'' (''Failed to apply config: '' @ e)))
      | (wg, None) \<Rightarrow>
          let w = (ap_world a)\<lparr>w_wg := wg\<rparr> in
          (case reapply_routing env (mark_wireguard_restarted (ap_store a) w) w of
             (s1, w1, e1) \<Rightarrow>
               (case reapply_bgp env s1 w1 of
                  (w2, e2) \<Rightarrow>
                    let a1 = a\<lparr>ap_store := s1, ap_world := w2\<rparr> in
                    if e1 \<noteq> None \<or> e2 \<noteq> None then
                      (a1, reply 200 (Toast ''error'' (''WireGuard restarted, but dependent services did not fully apply: ''
                         @ join nl ((case e1 of None \<Rightarrow> [] | Some e \<Rightarrow> [e]) @ (case e2 of None \<Rightarrow> [] | Some e \<Rightarrow> [e])))))
                    else (a1\<lparr>ap_stats := set_started_at (mo_now mo) (ap_stats a1)\<rparr>,
                          reply 200 (Toast ''success'' ''WireGuard configuration applied successfully.'')))))"

section \<open>The router\<close>

definition handle :: "web_context \<Rightarrow> endpoint \<Rightarrow> request \<Rightarrow> moment \<Rightarrow> app \<Rightarrow> app \<times> response" where
  "handle cx ep rq mo a =
     (case ep of
        Version \<Rightarrow> (a, reply 200 (Template ''version''))
      | Auth_Status \<Rightarrow> get_auth_status rq mo a
      | Login_Begin \<Rightarrow> login_begin cx rq mo a
      | Login_Finish \<Rightarrow> login_finish cx rq mo a
      | Logout \<Rightarrow> logout rq a
      | Passkey_Begin \<Rightarrow> passkey_begin cx rq mo a
      | Passkey_Finish \<Rightarrow> passkey_finish cx rq mo a
      | Passkey_Delete i \<Rightarrow> passkey_delete cx i rq mo a
      | Quick_Create \<Rightarrow> quick_create cx rq mo a
      | Peer_Create \<Rightarrow> peer_create cx rq mo a
      | Peer_Update i \<Rightarrow> peer_update cx i rq mo a
      | Peer_Delete i \<Rightarrow> peer_delete cx i a
      | Peer_Toggle i \<Rightarrow> peer_toggle cx i mo a
      | Regenerate i \<Rightarrow> regenerate cx i mo a
      | Scan i \<Rightarrow> scan_devices cx i rq mo a
      | Device_Route i ip \<Rightarrow> device_route cx i ip rq mo a
      | Server_Update \<Rightarrow> server_update cx rq mo a
      | BGP_Server \<Rightarrow> bgp_server cx rq a
      | BGP_Create \<Rightarrow> bgp_create cx rq mo a
      | BGP_Update i \<Rightarrow> bgp_update cx i rq mo a
      | BGP_Delete i \<Rightarrow> bgp_delete cx i a
      | Assign i \<Rightarrow> gateway_assign cx i rq mo a
      | Gateways \<Rightarrow> gateway_page cx a
      | Gateway_Create \<Rightarrow> gateway_create cx rq mo a
      | Gateway_Delete i \<Rightarrow> gateway_delete cx i mo a
      | Gateway_Toggle i \<Rightarrow> gateway_toggle cx i mo a
      | ZeroTier_Update \<Rightarrow> zerotier_update cx rq a
      | ZeroTier_Join \<Rightarrow> zerotier_join cx rq a
      | ZeroTier_Leave i \<Rightarrow> zerotier_leave cx i a
      | Client_Config i \<Rightarrow> client_config cx i rq a
      | Server_Download \<Rightarrow> server_download cx mo a
      | Apply \<Rightarrow> apply_config cx mo a
      | _ \<Rightarrow> cx_other cx ep rq mo a)"

definition dispatch :: "web_context \<Rightarrow> request \<Rightarrow> moment \<Rightarrow> app \<Rightarrow> app \<times> response" where
  "dispatch cx rq mo a =
     (if rq_method rq \<noteq> ''CONNECT'' \<and> \<not> clean_path (rq_escaped rq) then (a, reply 307 (Redirect (rq_escaped rq)))
      else case route (rq_method rq) (rq_escaped rq) of
             None \<Rightarrow> (a, reply 405 (Plain ''Method Not Allowed''))
           | Some ep \<Rightarrow> handle cx ep rq mo a)"

definition serve :: "web_context \<Rightarrow> request \<Rightarrow> moment \<Rightarrow> app \<Rightarrow> app \<times> response" where
  "serve cx rq mo a =
     (case require_auth (dispatch cx rq mo) rq mo a of
        (a', r) \<Rightarrow> (audit_mutation (cx_stamp cx) rq mo (re_status r) a', r))"

end
