(* ===== verification/Handlers_Spec.thy ===== *)
theory Handlers_Spec
  imports Handlers Store_Spec
begin

text \<open>
  What the web interface promises: no encoding of a path gets around the authentication, strangers
  change nothing, a login opens a session, and every request moves the store along the steps of
  \<open>store_step\<close>, so that the invariants of the store hold between requests.
\<close>

section \<open>Paths\<close>

lemma is_hex_slash [simp]: "\<not> is_hex CHR ''/''"
  by code_simp

lemma path_unescape_slash:
  "path_unescape (s @ CHR ''/'' # t) =
     (case path_unescape s of None \<Rightarrow> None | Some u \<Rightarrow> map_option (\<lambda>v. u @ CHR ''/'' # v) (path_unescape t))"
proof (induction s rule: path_unescape.induct)
  case 1
  then show ?case by simp
next
  case (2 c s)
  show ?case
  proof (cases "c = CHR ''%''")
    case False
    with 2(1) show ?thesis by (cases "path_unescape s") (auto simp: option.map_comp comp_def)
  next
    case True
    show ?thesis
    proof (cases s rule: remdups_adj.cases)
      case (3 a b r)
      show ?thesis
      proof (cases "is_hex a \<and> is_hex b")
        case h: True
        with 2(2) True 3 have "path_unescape (r @ CHR ''/'' # t) =
            (case path_unescape r of None \<Rightarrow> None | Some u \<Rightarrow> map_option (\<lambda>v. u @ CHR ''/'' # v) (path_unescape t))" by simp
        with h True 3 show ?thesis by (cases "path_unescape r") (auto simp: option.map_comp comp_def)
      qed (use True 3 in auto)
    qed (use True in \<open>auto split: list.splits\<close>)
  qed
qed

lemma path_unescape_join:
  "ws \<noteq> [] \<Longrightarrow> path_unescape (join ''/'' ws) = Some p \<Longrightarrow> p = join ''/'' (map unescape_segment ws)"
proof (induction ws arbitrary: p rule: induct_list012)
  case (2 w)
  then show ?case by (simp add: unescape_segment_def)
next
  case (3 w v ws)
  from 3(4) obtain u q where "path_unescape w = Some u" "path_unescape (join ''/'' (v # ws)) = Some q" "p = u @ CHR ''/'' # q"
    by (auto simp: path_unescape_slash split: option.splits)
  with 3(2) show ?case by (simp add: unescape_segment_def)
qed simp

text \<open>The decoded path is made of the decoded segments.\<close>

lemma decoded_path:
  assumes "path_unescape (CHR ''/'' # raw) = Some p"
  shows "p = CHR ''/'' # join ''/'' (path_segments (CHR ''/'' # raw))"
proof -
  have "path_unescape (join ''/'' (split_char CHR ''/'' raw)) = Some (tl p)" "hd p = CHR ''/''" "p \<noteq> []"
    using assms by (auto simp: join_split_char)
  with path_unescape_join [of "split_char CHR ''/'' raw" "tl p"] show ?thesis
    by (cases p) (simp_all add: path_segments_def)
qed

section \<open>The gate\<close>

definition well_formed_request :: "request \<Rightarrow> bool" where
  "well_formed_request rq \<longleftrightarrow> has_prefix (rq_escaped rq) ''/'' \<and> path_unescape (rq_escaped rq) = Some (rq_path rq)"

definition open_endpoint :: "endpoint \<Rightarrow> bool" where
  "open_endpoint ep \<longleftrightarrow> ep \<in> {Files, Version, Auth_Status, Login_Begin, Login_Finish, Logout}"

lemma find_route_Some:
  "find_route rs m segs = Some ep \<Longrightarrow> \<exists>r \<in> set rs. \<exists>vs. match_path (pattern (fst (snd r))) segs = Some vs \<and> ep = snd (snd r) vs"
  by (induction rs) (fastforce split: option.splits if_splits)+

lemma match_path_Cons:
  "match_path (Lit l # ps) segs = Some vs \<longleftrightarrow> (\<exists>ss. segs = l # ss \<and> match_path ps ss = Some vs)"
  "match_path (Var # ps) segs = Some vs \<longleftrightarrow> (\<exists>s ss ws. segs = s # ss \<and> s \<noteq> [] \<and> s \<noteq> ''/'' \<and> match_path ps ss = Some ws \<and> vs = s # ws)"
  "match_path [] segs = Some vs \<longleftrightarrow> segs = [] \<and> vs = []"
  by (cases segs; auto)+

definition open_heads :: "string set" where
  "open_heads = {[], ''version'', ''favicon.ico'', ''index.css'', ''templates.html'', ''api'', ''favicon-options''}"

lemma has_prefix_iff: "has_prefix s p \<longleftrightarrow> (\<exists>t. s = p @ t)"
  unfolding has_prefix_def by (metis append_eq_conv_conj append_take_drop_id)

lemma open_path_head:
  assumes "open_path (CHR ''/'' # p)"
  shows "hd (split_char CHR ''/'' p) \<in> open_heads"
proof (cases "has_prefix p ''favicon-options/''")
  case True
  then obtain r where "p = ''favicon-options'' @ CHR ''/'' # r"
    by (auto simp: has_prefix_iff)
  then show ?thesis by (simp add: open_heads_def)
next
  case False
  with assms show ?thesis by (auto simp: open_path_def has_prefix_def open_heads_def)
qed

definition gated :: "segment list \<Rightarrow> bool" where
  "gated ps \<longleftrightarrow> (\<forall>segs vs. match_path ps segs = Some vs \<longrightarrow> \<not> open_path (CHR ''/'' # join ''/'' segs))"

lemma gated_first:
  assumes "l \<notin> open_heads" "CHR ''/'' \<notin> set l"
  shows "gated (Lit l # ps)"
proof -
  have "hd (split_char CHR ''/'' (join ''/'' (l # ss))) = l" for ss
    using assms(2) by (cases ss) (auto simp: split_char_absent split_char_append)
  with open_path_head assms(1) have "\<not> open_path (CHR ''/'' # join ''/'' (l # ss))" for ss by metis
  then show ?thesis by (auto simp: gated_def match_path_Cons)
qed

text \<open>Below \<^verbatim>\<open>/api\<close> the second segment tells, or the third.\<close>

lemma gated_api:
  assumes "l \<noteq> ''auth''" "CHR ''/'' \<notin> set l"
  shows "gated (Lit ''api'' # Lit l # ps)"
proof -
  have "hd (split_char CHR ''/'' (join ''/'' (l # ss))) = l" for ss
    using assms(2) by (cases ss) (auto simp: split_char_absent split_char_append)
  moreover have "open_path (CHR ''/'' # ''api/'' @ q) \<Longrightarrow> hd (split_char CHR ''/'' q) = ''auth''" for q
    by (auto simp: open_path_def has_prefix_def)
  ultimately have "\<not> open_path (CHR ''/'' # ''api/'' @ join ''/'' (l # ss))" for ss
    using assms(1) by metis
  then show ?thesis by (auto simp: gated_def match_path_Cons)
qed

lemma gated_passkeys:
  assumes "ps \<noteq> []"
  shows "gated (Lit ''api'' # Lit ''auth'' # Lit ''passkeys'' # ps)"
proof -
  obtain p qs where "ps = p # qs" using assms by (cases ps) auto
  then show ?thesis by (cases p) (auto simp: gated_def match_path_Cons open_path_def has_prefix_def)
qed

text \<open>Every route of an endpoint that is not open is gated.\<close>

definition open_routes :: "string list" where
  "open_routes = [''/version'', ''/api/auth/status'', ''/api/auth/login/begin'', ''/api/auth/login/finish'', ''/api/auth/logout'']"

fun closed_pattern :: "segment list \<Rightarrow> bool" where
  "closed_pattern (Lit l # ps) =
     (if CHR ''/'' \<in> set l then False
      else if l = ''api'' then
        (case ps of
           Lit m # qs \<Rightarrow> CHR ''/'' \<notin> set m \<and> (m \<noteq> ''auth'' \<or> (case qs of Lit k # _ # _ \<Rightarrow> k = ''passkeys'' | _ \<Rightarrow> False))
         | _ \<Rightarrow> False)
      else l \<notin> open_heads)"
| "closed_pattern _ = False"

lemma closed_pattern_gated:
  assumes "closed_pattern ps"
  shows "gated ps"
proof -
  from assms obtain l qs where ps: "ps = Lit l # qs" "CHR ''/'' \<notin> set l" by (cases ps rule: closed_pattern.cases) (auto split: if_splits)
  show ?thesis
  proof (cases "l = ''api''")
    case True
    with assms ps obtain m rs where rs: "qs = Lit m # rs" "CHR ''/'' \<notin> set m"
      by (auto split: list.splits segment.splits)
    show ?thesis
    proof (cases "m = ''auth''")
      case m: True
      with assms ps True rs obtain k t where "rs = Lit k # t" by (auto split: list.splits segment.splits)
      with assms ps True rs m gated_passkeys [of t] show ?thesis by (auto split: list.splits)
    qed (simp add: gated_api rs ps True)
  qed (use assms ps gated_first in auto)
qed

lemma routes_closed: "list_all (\<lambda>r. fst (snd r) \<in> set open_routes \<or> closed_pattern (pattern (fst (snd r)))) routes"
  by code_simp

lemma open_routes_open: "r \<in> set routes \<Longrightarrow> fst (snd r) \<in> set open_routes \<Longrightarrow> open_endpoint (snd (snd r) vs)"
  by (auto simp: routes_def open_routes_def open_endpoint_def arg_def)

text \<open>Whatever the encoding of the path, a path the middleware exempts leads to an open endpoint.\<close>

lemma exempt_is_open:
  assumes "well_formed_request rq" "open_path (rq_path rq)" "route m (rq_escaped rq) = Some ep"
  shows "open_endpoint ep"
proof (cases "find_route routes m (path_segments (rq_escaped rq))")
  case None
  with assms(3) show ?thesis by (auto simp: route_def open_endpoint_def split: if_splits)
next
  case (Some e)
  then obtain r vs where r: "r \<in> set routes" "match_path (pattern (fst (snd r))) (path_segments (rq_escaped rq)) = Some vs"
      and e: "e = snd (snd r) vs"
    using find_route_Some by blast
  from assms(1) obtain raw where "rq_escaped rq = CHR ''/'' # raw" "path_unescape (CHR ''/'' # raw) = Some (rq_path rq)"
    by (auto simp: well_formed_request_def has_prefix_iff)
  then have "rq_path rq = CHR ''/'' # join ''/'' (path_segments (rq_escaped rq))" using decoded_path by simp
  with assms(2) r(2) have "\<not> gated (pattern (fst (snd r)))" by (auto simp: gated_def)
  with r(1) routes_closed closed_pattern_gated have "fst (snd r) \<in> set open_routes" by (auto simp: list_all_iff)
  then have "open_endpoint e" using open_routes_open r(1) e by blast
  with Some assms(3) show ?thesis by (simp add: route_def)
qed

section \<open>Strangers\<close>

definition static_files :: "web_context \<Rightarrow> bool" where
  "static_files cx \<longleftrightarrow> (\<forall>rq mo a. fst (cx_other cx Files rq mo a) = a)"

definition stranger :: "request \<Rightarrow> moment \<Rightarrow> app \<Rightarrow> bool" where
  "stranger rq mo a \<longleftrightarrow> \<not> snd (validate_session (rq_cookie rq) (mo_now mo) (ap_sessions a))"

definition untouched :: "app \<Rightarrow> app \<Rightarrow> bool" where
  "untouched a a' \<longleftrightarrow> ap_store a' = ap_store a \<and> ap_world a' = ap_world a \<and> ap_gateways a' = ap_gateways a
     \<and> ap_effects a' = ap_effects a \<and> ap_stats a' = ap_stats a \<and> ap_sessions a' \<subseteq>\<^sub>m ap_sessions a"

definition logs_in :: "web_context \<Rightarrow> request \<Rightarrow> moment \<Rightarrow> app \<Rightarrow> bool" where
  "logs_in cx rq mo a \<longleftrightarrow> route (rq_method rq) (rq_escaped rq) = Some Login_Finish
     \<and> (\<exists>req cs pk. cx_login_json cx (rq_body rq) = Some req
          \<and> finish_login (cx_web cx) (mo_now mo) (s_passkeys (cfg_server (app_config_of a))) req (ap_challenges a) = (cs, Inr pk))"

fun serve_all :: "web_context \<Rightarrow> (request \<times> moment) list \<Rightarrow> app \<Rightarrow> app" where
  "serve_all cx [] a = a"
| "serve_all cx ((rq, mo) # rs) a = serve_all cx rs (fst (serve cx rq mo a))"

lemma untouched_refl [simp]: "untouched a a"
  by (simp add: untouched_def)

lemma untouched_trans: "untouched a b \<Longrightarrow> untouched b c \<Longrightarrow> untouched a c"
  unfolding untouched_def using map_le_trans by metis

lemma untouched_challenges [simp]: "untouched a (b\<lparr>ap_challenges := cs\<rparr>) = untouched a b"
  by (simp add: untouched_def)

lemma untouched_audit [simp]: "untouched a (b\<lparr>ap_audit := l\<rparr>) = untouched a b"
  by (simp add: untouched_def)

lemma untouched_audit_mutation [simp]: "untouched a (audit_mutation stamp rq mo n b) = untouched a b"
  by (simp add: audit_mutation_def)

lemma validate_session_shrinks: "fst (validate_session c now sm) \<subseteq>\<^sub>m sm"
  by (auto simp: validate_session_def map_le_def split: option.splits)

lemma check_session_untouched: "check_session rq mo a = (a', ok) \<Longrightarrow> untouched a a' \<and> (ok \<longleftrightarrow> \<not> stranger rq mo a)"
  using validate_session_shrinks [of "rq_cookie rq" "mo_now mo" "ap_sessions a"]
  by (auto simp: check_session_def untouched_def stranger_def split: prod.splits)

lemma clear_session_shrinks: "fst (clear_session c sm) \<subseteq>\<^sub>m sm"
  by (auto simp: clear_session_def map_le_def split: option.splits)

lemma stranger_mono:
  assumes "stranger rq mo a" "untouched a a'"
  shows "stranger rq mo a'"
proof (cases "rq_cookie rq")
  case (Some v)
  have "ap_sessions a' v = None \<or> ap_sessions a' v = ap_sessions a v"
    using assms(2) unfolding untouched_def map_le_def by (cases "ap_sessions a' v") (simp, metis domI)
  with Some assms(1) show ?thesis by (auto simp: stranger_def validate_session_def split: option.splits if_splits)
qed (simp add: stranger_def validate_session_def)

lemma enforced_mono: "enforced a \<Longrightarrow> untouched a a' \<Longrightarrow> enforced a'"
  by (simp add: enforced_def untouched_def)

lemma open_handlers_untouched:
  assumes "open_endpoint ep" "static_files cx"
    "\<not> (ep = Login_Finish \<and> (\<exists>req cs pk. cx_login_json cx (rq_body rq) = Some req
          \<and> finish_login (cx_web cx) (mo_now mo) (s_passkeys (cfg_server (app_config_of a))) req (ap_challenges a) = (cs, Inr pk)))"
  shows "untouched a (fst (handle cx ep rq mo a))"
proof -
  consider "ep = Files" | "ep = Version" | "ep = Auth_Status" | "ep = Login_Begin" | "ep = Login_Finish" | "ep = Logout"
    using assms(1) by (auto simp: open_endpoint_def)
  then show ?thesis
  proof cases
    case 1
    then show ?thesis using assms(2) by (simp add: handle_def static_files_def)
  next
    case 3
    then show ?thesis using check_session_untouched [of rq mo a]
      by (simp add: handle_def get_auth_status_def Let_def split: prod.splits)
  next
    case 4
    then show ?thesis by (simp add: handle_def login_begin_def Let_def split: prod.splits sum.splits)
  next
    case 5
    then show ?thesis using assms(3) by (auto simp: handle_def login_finish_def split: prod.splits sum.splits option.splits)
  next
    case 6
    then show ?thesis using clear_session_shrinks [of "rq_cookie rq" "ap_sessions a"]
      by (auto simp: handle_def logout_def untouched_def split: prod.splits)
  qed (simp add: handle_def)
qed

lemma stranger_step:
  assumes "enforced a" "static_files cx" "well_formed_request rq" "stranger rq mo a" "\<not> logs_in cx rq mo a"
  shows "untouched a (fst (serve cx rq mo a))"
proof (cases "open_path (rq_path rq)")
  case False
  with assms(1,4) show ?thesis using check_session_untouched [of rq mo a]
    by (auto simp: serve_def require_auth_def split: prod.splits bool.splits)
next
  case True
  then have "untouched a (fst (dispatch cx rq mo a))"
    using exempt_is_open [OF assms(3)] open_handlers_untouched [of _ cx rq mo a] assms(2,5)
    by (auto simp: dispatch_def logs_in_def split: option.splits)
  with True show ?thesis by (auto simp: serve_def require_auth_def split: prod.splits)
qed

lemma serve_all_snoc: "serve_all cx (rs @ [(rq, mo)]) a = fst (serve cx rq mo (serve_all cx rs a))"
  by (induction cx rs a rule: serve_all.induct) simp_all

text \<open>C1: once a passkey is required, no sequence of requests that present no live session, whatever
  their method, the encoding of their path and their form, changes the configuration, the files, the
  tunnels or the counters, or opens a session, as long as none of them completes a login with a
  registered passkey.\<close>

theorem locked_run:
  assumes "enforced a" "static_files cx" "\<forall>(rq, mo) \<in> set rs. well_formed_request rq \<and> stranger rq mo a"
    "\<forall>i < length rs. \<not> logs_in cx (fst (rs ! i)) (snd (rs ! i)) (serve_all cx (take i rs) a)"
  shows "untouched a (serve_all cx rs a)"
  using assms
proof (induction rs rule: rev_induct)
  case (snoc r rs)
  obtain rq mo where r: "r = (rq, mo)" by (cases r)
  let ?b = "serve_all cx rs a"
  have "\<forall>i < length rs. \<not> logs_in cx (fst (rs ! i)) (snd (rs ! i)) (serve_all cx (take i rs) a)"
  proof (intro allI impI)
    fix i assume "i < length rs"
    with snoc.prems(4) show "\<not> logs_in cx (fst (rs ! i)) (snd (rs ! i)) (serve_all cx (take i rs) a)"
      by (auto simp: nth_append dest!: spec [of _ i])
  qed
  with snoc have b: "untouched a ?b" by auto
  moreover have "\<not> logs_in cx rq mo ?b" using snoc.prems(4) r by (auto dest!: spec [of _ "length rs"])
  ultimately have "untouched ?b (fst (serve cx rq mo ?b))"
    using stranger_step enforced_mono stranger_mono snoc.prems(1-3) r by auto
  with b r show ?case using untouched_trans by (simp add: serve_all_snoc)
qed simp

definition sample_locked :: store where
  "sample_locked = sample_store\<lparr>st_config := set_server ((cfg_server (st_config sample_store))\<lparr>s_require_passkey := True,
     s_passkeys := [sample_key_passkey]\<rparr>) (st_config sample_store)\<rparr>"

definition sample_app :: app where
  "sample_app = \<lparr>ap_store = sample_locked, ap_world = sample_world, ap_sessions = Map.empty, ap_challenges = Map.empty,
     ap_gateways = new_manager ''/etc/wireguard'', ap_effects = [], ap_stats = new_collector, ap_audit = []\<rparr>"

definition plain_request :: "string \<Rightarrow> string \<Rightarrow> request" where
  "plain_request m p = \<lparr>rq_method = m, rq_escaped = p, rq_path = unescape_segment p, rq_cookie = None, rq_form = \<lambda>_. [], rq_form_ok = True,
     rq_upload = Inl [], rq_body = [], rq_host = ''vpn.example'', rq_forwarded = [], rq_remote = ''10.0.0.9:1234'', rq_htmx = False\<rparr>"

definition sample_moment :: moment where
  "sample_moment = \<lparr>mo_now = 1, mo_bytes = [1], mo_challenge = Inr [2], mo_keys = Inl [], mo_psk = Inl [], mo_id = Inl [],
     mo_zerotier = [], mo_scan = \<lambda>_ _. Inr [], mo_audit_ok = True\<rparr>"


definition sample_context :: web_context where
  "sample_context = \<lparr>cx_env = sample_env, cx_web = sample_web_env, cx_host = (\<lambda>_ _. ([], None)),
     cx_login_json = (\<lambda>s. if s = ''login'' then Some sample_login else None), cx_registration_json = (\<lambda>_. None),
     cx_derive = (\<lambda>k. Inr k), cx_stamp = (\<lambda>_. ''now''), cx_other = (\<lambda>_ _ _ a. (a, reply 200 Done))\<rparr>"

text \<open>A page, an encoded attempt to hide behind an open path, a change and a challenge.\<close>

definition sample_strangers :: "(request \<times> moment) list" where
  "sample_strangers = map (\<lambda>r. (r, sample_moment))
     [plain_request ''GET'' ''/'', plain_request ''PUT'' ''/favicon-options/%2e%2e%2Fpeers'', plain_request ''POST'' ''/peers'',
      plain_request ''POST'' ''/api/auth/login/begin'']"

lemma sample_strangers_route:
  "\<forall>r \<in> set sample_strangers. well_formed_request (fst r) \<and> route (rq_method (fst r)) (rq_escaped (fst r)) \<noteq> Some Login_Finish"
  by code_simp

theorem locked_run_witness: "untouched sample_app (serve_all sample_context sample_strangers sample_app)"
proof (rule locked_run)
  show "enforced sample_app"
    by (simp add: enforced_def sample_app_def sample_locked_def set_server_def)
  show "static_files sample_context"
    by (simp add: static_files_def sample_context_def)
  show "\<forall>(rq, mo) \<in> set sample_strangers. well_formed_request rq \<and> stranger rq mo sample_app"
    using sample_strangers_route
    by (auto simp: sample_strangers_def stranger_def plain_request_def validate_session_def)
  show "\<forall>i < length sample_strangers. \<not> logs_in sample_context (fst (sample_strangers ! i)) (snd (sample_strangers ! i))
      (serve_all sample_context (take i sample_strangers) sample_app)"
    using sample_strangers_route by (auto simp: logs_in_def)
qed

section \<open>Logging in\<close>

definition login_request :: "request \<Rightarrow> bool" where
  "login_request rq \<longleftrightarrow> rq_method rq = ''POST'' \<and> rq_escaped rq = ''/api/auth/login/finish'' \<and> rq_path rq = ''/api/auth/login/finish''"

lemma login_route: "clean_path ''/api/auth/login/finish''" "route ''POST'' ''/api/auth/login/finish'' = Some Login_Finish"
  by code_simp+

lemma live_cookie_passes:
  assumes "ap_sessions a v = Some s" "v \<noteq> []" "rq_cookie rq = Some v" "mo_now mo \<le> ses_expires s"
  shows "require_auth h rq mo a = h a"
proof -
  have "check_session rq mo a = (a, True)" using assms by (cases a) (simp add: check_session_def validate_session_def)
  then show ?thesis by (simp add: require_auth_def)
qed

text \<open>C25: a login with a registered passkey answers with a session cookie, and for seven days the
  middleware lets every request with that cookie through to its handler, with the state untouched.\<close>

theorem login_opens_session:
  assumes "login_request rq" "logs_in cx rq mo a" "mo_bytes mo \<noteq> []"
  shows "\<exists>a' r c. serve cx rq mo a = (a', r) \<and> re_status r = 200 \<and> re_cookie r = Some c \<and> co_name c = session_cookie_name
    \<and> (\<forall>h rq' mo'. rq_cookie rq' = Some (co_value c) \<longrightarrow> mo_now mo' \<le> mo_now mo + session_duration
         \<longrightarrow> require_auth h rq' mo' a' = h a')"
proof -
  from assms(2) obtain req cs pk where l: "cx_login_json cx (rq_body rq) = Some req"
      "finish_login (cx_web cx) (mo_now mo) (s_passkeys (cfg_server (app_config_of a))) req (ap_challenges a) = (cs, Inr pk)"
    by (auto simp: logs_in_def)
  have "open_path (rq_path rq)" using assms(1) by (simp add: login_request_def open_path_def)
  then have "serve cx rq mo a = (case login_finish cx rq mo a of (a', r) \<Rightarrow> (audit_mutation (cx_stamp cx) rq mo (re_status r) a', r))"
    using assms(1) by (simp add: serve_def require_auth_def dispatch_def login_request_def login_route handle_def)
  moreover obtain a1 where "login_finish cx rq mo a =
      (a1\<lparr>ap_sessions := (ap_sessions a1)(session_token (mo_bytes mo) \<mapsto> \<lparr>ses_created = mo_now mo, ses_expires = mo_now mo + session_duration\<rparr>)\<rparr>,
       (reply 200 Done)\<lparr>re_cookie := Some (fst (snd (create_session (mo_bytes mo) (mo_now mo) (ap_sessions a1))))\<rparr>)"
    using l by (simp add: login_finish_def start_session_def create_session_def Let_def)
  moreover have "b64_raw_url b \<noteq> []" if "b \<noteq> []" for b using that by (cases b rule: b64_raw_url.cases) auto
  ultimately show ?thesis using assms(3)
    by (fastforce simp: reply_def create_session_def Let_def session_token_def audit_mutation_def
        intro!: live_cookie_passes [of _ "b64_raw_url (mo_bytes mo)"])
qed

definition sample_login_app :: app where
  "sample_login_app = sample_app\<lparr>ap_challenges := (\<lambda>_. None)(''abc'' \<mapsto> 20)\<rparr>"

theorem login_opens_session_witness:
  "\<exists>a' r c. serve sample_context ((plain_request ''POST'' ''/api/auth/login/finish'')\<lparr>rq_body := ''login''\<rparr>)
       (sample_moment\<lparr>mo_now := 10\<rparr>) sample_login_app = (a', r) \<and> re_status r = 200 \<and> re_cookie r = Some c \<and> co_name c = session_cookie_name
    \<and> (\<forall>h rq' mo'. rq_cookie rq' = Some (co_value c) \<longrightarrow> mo_now mo' \<le> mo_now (sample_moment\<lparr>mo_now := 10\<rparr>) + session_duration
         \<longrightarrow> require_auth h rq' mo' a' = h a')"
proof (rule login_opens_session)
  have "unescape_segment ''/api/auth/login/finish'' = ''/api/auth/login/finish''" by code_simp
  then show "login_request ((plain_request ''POST'' ''/api/auth/login/finish'')\<lparr>rq_body := ''login''\<rparr>)"
    by (simp add: login_request_def plain_request_def)
  have "\<exists>cs. finish_login sample_web_env 10 [sample_key_passkey] sample_login ((\<lambda>_. None)(''abc'' \<mapsto> 20))
      = (cs, Inr (sample_key_passkey\<lparr>pk_sign_count := 5, pk_last_used := Some 10\<rparr>))"
    using sample_logs_in by (metis prod.collapse)
  then show "logs_in sample_context ((plain_request ''POST'' ''/api/auth/login/finish'')\<lparr>rq_body := ''login''\<rparr>)
      (sample_moment\<lparr>mo_now := 10\<rparr>) sample_login_app"
    using login_route(2)
    by (auto simp: logs_in_def plain_request_def sample_context_def sample_moment_def sample_login_app_def sample_app_def
        sample_locked_def set_server_def app_config_of_def)
qed (simp add: sample_moment_def)

section \<open>Requests as store operations\<close>

text \<open>The reflexive and transitive closure of the steps, with the label of a lost rollback.\<close>

inductive store_path :: "env \<Rightarrow> bool \<Rightarrow> store \<times> world \<Rightarrow> store \<times> world \<Rightarrow> bool" for env where
  path_refl: "store_path env False c c"
| path_step: "store_path env lost c c' \<Longrightarrow> store_step env now c' c'' \<Longrightarrow> store_path env (lost \<or> now) c c''"

lemma path_one: "store_step env now c c' \<Longrightarrow> store_path env now c c'"
  using path_step [OF path_refl] by fastforce

lemma path_trans: "store_path env m b d \<Longrightarrow> store_path env l a b \<Longrightarrow> store_path env (l \<or> m) a d"
proof (induction rule: store_path.induct)
  case (path_step lost c c' now c'')
  then show ?case using store_path.path_step [of env "l \<or> lost" a c' now c''] by (simp add: disj_assoc)
qed simp

lemma path_reach: "store_path env m c c' \<Longrightarrow> reach env l c \<Longrightarrow> reach env (l \<or> m) c'"
proof (induction rule: store_path.induct)
  case (path_step lost c c' now c'')
  then show ?case using stepped [of env "l \<or> lost" c' now c''] by (simp add: disj_assoc)
qed simp

definition moves :: "web_context \<Rightarrow> app \<Rightarrow> app \<Rightarrow> bool" where
  "moves cx a a' \<longleftrightarrow> (\<exists>lost. store_path (cx_env cx) lost (ap_store a, ap_world a) (ap_store a', ap_world a'))"

lemma moves_refl: "ap_store a' = ap_store a \<Longrightarrow> ap_world a' = ap_world a \<Longrightarrow> moves cx a a'"
  using path_refl by (auto simp: moves_def)

lemma moves_trans: "moves cx a b \<Longrightarrow> moves cx b c \<Longrightarrow> moves cx a c"
  unfolding moves_def using path_trans by blast

lemma moves_fields [simp]:
  "moves cx a (b\<lparr>ap_sessions := x1\<rparr>) = moves cx a b" "moves cx a (b\<lparr>ap_challenges := x2\<rparr>) = moves cx a b"
  "moves cx a (b\<lparr>ap_gateways := x3\<rparr>) = moves cx a b" "moves cx a (b\<lparr>ap_effects := x4\<rparr>) = moves cx a b"
  "moves cx a (b\<lparr>ap_stats := x5\<rparr>) = moves cx a b" "moves cx a (b\<lparr>ap_audit := x6\<rparr>) = moves cx a b"
  "moves cx (a\<lparr>ap_sessions := x1\<rparr>) b = moves cx a b" "moves cx (a\<lparr>ap_challenges := x2\<rparr>) b = moves cx a b"
  by (simp_all add: moves_def)

lemma moves_self [simp]: "moves cx a a"
  by (rule moves_refl) simp_all

lemma moves_write: "moves cx a (fst (write_edit cx ed a))"
proof -
  obtain s w e where s: "submit (cx_env cx) ed (ap_store a) (ap_world a) = (s, w, e)" by (cases "submit (cx_env cx) ed (ap_store a) (ap_world a)")
  have "\<exists>lost. store_path (cx_env cx) lost (ap_store a, ap_world a) (s, w)"
  proof (cases "\<exists>errs. ed (st_config (ap_store a)) = Inl (Rejected errs)")
    case True
    with s have "s = ap_store a" "w = ap_world a" by (auto simp: submit_def)
    with path_refl show ?thesis by blast
  next
    case False
    with s have "write_store (cx_env cx) (edit_fn ed) (ap_store a) (ap_world a) = (s, w, e)"
      by (auto simp: submit_def split: sum.splits edit_error.splits)
    then show ?thesis using path_one store_step.changed by blast
  qed
  with s show ?thesis by (simp add: write_edit_def moves_def)
qed

lemma moves_edit_and_answer: "moves cx a (fst (edit_and_answer cx ed p i e a))"
  using moves_write [of cx a ed] by (auto simp: edit_and_answer_def split: prod.splits)

lemma moves_apply: "moves cx a (fst (apply_config cx mo a))"
proof -
  obtain wg r where wg: "restart_wg_config (e_run (cx_env cx)) (w_wg (ap_world a)) (st_wg_path (ap_store a)) = (wg, r)"
    by (cases "restart_wg_config (e_run (cx_env cx)) (w_wg (ap_world a)) (st_wg_path (ap_store a))")
  let ?w = "(ap_world a)\<lparr>w_wg := wg\<rparr>"
  have 1: "store_path (cx_env cx) False (ap_store a, ap_world a) (ap_store a, ?w)"
    using path_one [OF restart [OF wg]] .
  show ?thesis
  proof (cases r)
    case (Some e)
    with wg 1 show ?thesis by (auto simp: apply_config_def Let_def moves_def)
  next
    case None
    obtain s1 w1 e1 where rr: "reapply_routing (cx_env cx) (mark_wireguard_restarted (ap_store a) ?w) ?w = (s1, w1, e1)"
      by (cases "reapply_routing (cx_env cx) (mark_wireguard_restarted (ap_store a) ?w) ?w")
    obtain w2 e2 where rb: "reapply_bgp (cx_env cx) s1 w1 = (w2, e2)" by (cases "reapply_bgp (cx_env cx) s1 w1")
    have "store_path (cx_env cx) False (ap_store a, ap_world a) (s1, w2)"
      using path_trans [OF path_one [OF store_step.restarted] 1]
        path_trans [OF path_one [OF store_step.reapply_bgp [OF rb]] path_one [OF store_step.reapply_routing [OF rr]]]
      path_trans by fastforce
    then show ?thesis using wg None rr rb by (auto simp: apply_config_def Let_def moves_def)
  qed
qed

lemma moves_check: "check_session rq mo a = (a', ok) \<Longrightarrow> moves cx a' b = moves cx a b"
  by (auto simp: check_session_def split: prod.splits)


text \<open>The handlers that are not modelled only read.\<close>

definition readers :: "web_context \<Rightarrow> bool" where
  "readers cx \<longleftrightarrow> (\<forall>ep rq mo a. ap_store (fst (cx_other cx ep rq mo a)) = ap_store a \<and> ap_world (fst (cx_other cx ep rq mo a)) = ap_world a)"

lemma moves_with_session:
  "(\<And>b. moves cx b (fst (h b))) \<Longrightarrow> moves cx a (fst (with_session rq mo h a))"
proof -
  assume h: "\<And>b. moves cx b (fst (h b))"
  have "moves cx a (fst (h (a\<lparr>ap_sessions := x\<rparr>)))" for x
    using h [of "a\<lparr>ap_sessions := x\<rparr>"] by simp
  with h show ?thesis by (auto simp: with_session_def check_session_def split: prod.splits bool.splits)
qed

lemma start_session_moves: "start_session mo b = (b', c) \<Longrightarrow> moves cx a b' = moves cx a b"
  by (auto simp: start_session_def split: prod.splits)

lemma moves_with_manager [simp]: "moves cx a (with_manager f b) = moves cx a b"
  by (simp add: with_manager_def split: prod.splits)

lemma moves_gateway_page [simp]: "moves cx a (fst (gateway_page cx b)) = moves cx a b"
  by (simp add: gateway_page_def)

lemma write_moves: "write_edit cx ed a = (a', e) \<Longrightarrow> moves cx a a'"
  using moves_write [of cx a ed] by simp

lemmas handler_splits = prod.splits sum.splits option.splits write_error.splits

lemma moves_auth:
  "moves cx a (fst (login_begin cx rq mo a))" "moves cx a (fst (logout rq a))" "moves cx a (fst (get_auth_status rq mo a))"
  "moves cx a (fst (passkey_begin cx rq mo a))"
proof -
  show "moves cx a (fst (passkey_begin cx rq mo a))"
    unfolding passkey_begin_def by (rule moves_with_session) (simp split: handler_splits)
qed (auto simp: login_begin_def logout_def get_auth_status_def check_session_def Let_def split: handler_splits)

lemma moves_login_finish: "moves cx a (fst (login_finish cx rq mo a))"
proof -
  have "moves cx a (fst (write_edit cx ed (a\<lparr>ap_challenges := cs\<rparr>)))" for ed cs
    using moves_write [of cx "a\<lparr>ap_challenges := cs\<rparr>" ed] by simp
  then show ?thesis
    by (auto simp: login_finish_def Let_def start_session_moves split: handler_splits)
qed


lemma moves_passkey_finish: "moves cx a (fst (passkey_finish cx rq mo a))"
  unfolding passkey_finish_def
proof (rule moves_with_session)
  fix b
  have "moves cx b (fst (write_edit cx ed (b\<lparr>ap_challenges := cs\<rparr>)))" for ed cs
    using moves_write [of cx "b\<lparr>ap_challenges := cs\<rparr>" ed] by simp
  then have w: "write_edit cx ed (b\<lparr>ap_challenges := cs\<rparr>) = (b', e) \<Longrightarrow> moves cx b b'" for ed cs b' e
    by (metis fst_conv)
  show "moves cx b (fst (case cx_registration_json cx (rq_body rq) of
     None \<Rightarrow> (b, reply 400 (Plain ''invalid request payload''))
   | Some req \<Rightarrow>
       (case finish_registration (cx_web cx) (mo_now mo) req (ap_challenges b) of
          (cs, Inl e) \<Rightarrow> (b\<lparr>ap_challenges := cs\<rparr>, reply 400 (Plain ''passkey registration failed''))
        | (cs, Inr pk) \<Rightarrow>
            (case write_edit cx (add_passkey pk) (b\<lparr>ap_challenges := cs\<rparr>) of
               (a1, err) \<Rightarrow>
                 if \<not> is_applied err then (a1, reply 500 (failure err ''saving passkey''))
                 else (case start_session mo a1 of
                         (a2, c) \<Rightarrow> (a2, (reply 200 (Passkey_Added pk))\<lparr>re_cookie := Some c\<rparr>))))))"
    by (auto simp: start_session_moves w split: handler_splits)
qed

lemma moves_passkey_delete: "moves cx a (fst (passkey_delete cx i rq mo a))"
  unfolding passkey_delete_def by (rule moves_with_session) (auto dest: write_moves split: handler_splits)

lemma moves_peers:
  "moves cx a (fst (peer_create cx rq mo a))" "moves cx a (fst (quick_create cx rq mo a))"
  "moves cx a (fst (peer_update cx i rq mo a))" "moves cx a (fst (peer_delete cx i a))"
  "moves cx a (fst (peer_toggle cx i mo a))" "moves cx a (fst (regenerate cx i mo a))"
  "moves cx a (fst (gateway_assign cx i rq mo a))"
  by (auto simp: peer_create_def quick_create_def peer_update_def peer_delete_def peer_toggle_def regenerate_def gateway_assign_def
      Let_def moves_edit_and_answer dest: write_moves split: handler_splits)

lemma moves_devices:
  "moves cx a (fst (device_route cx i raw rq mo a))" "moves cx a (fst (scan_devices cx i rq mo a))"
  by (auto simp: device_route_def scan_devices_def Let_def dest: write_moves split: handler_splits)

lemma moves_gateways:
  "moves cx a (fst (gateway_create cx rq mo a))" "moves cx a (fst (gateway_delete cx i mo a))"
  "moves cx a (fst (gateway_toggle cx i mo a))"
  by (auto simp: gateway_create_def gateway_delete_def gateway_toggle_def Let_def dest: write_moves split: handler_splits)

lemma moves_settings:
  "moves cx a (fst (server_update cx rq mo a))" "moves cx a (fst (bgp_server cx rq a))" "moves cx a (fst (bgp_create cx rq mo a))"
  "moves cx a (fst (bgp_update cx i rq mo a))" "moves cx a (fst (bgp_delete cx i a))" "moves cx a (fst (zerotier_update cx rq a))"
  "moves cx a (fst (zerotier_join cx rq a))" "moves cx a (fst (zerotier_leave cx i a))"
  by (auto simp: server_update_def bgp_server_def bgp_create_def bgp_update_def bgp_delete_def zerotier_update_def zerotier_join_def
      zerotier_leave_def respond_zerotier_def moves_edit_and_answer start_session_moves dest: write_moves split: handler_splits)

lemma moves_downloads:
  "moves cx a (fst (client_config cx i rq a))" "moves cx a (fst (server_download cx mo a))"
  by (auto simp: client_config_def server_download_def Let_def split: handler_splits)

lemma moves_handle: "readers cx \<Longrightarrow> moves cx a (fst (handle cx ep rq mo a))"
  by (cases ep) (simp_all add: handle_def readers_def moves_refl moves_auth moves_login_finish moves_passkey_finish moves_passkey_delete
      moves_peers moves_devices moves_gateways moves_settings moves_downloads moves_apply)

lemma moves_serve:
  assumes "readers cx"
  shows "moves cx a (fst (serve cx rq mo a))"
proof -
  have d: "moves cx b (fst (dispatch cx rq mo b))" for b
    using moves_handle [OF assms] by (auto simp: dispatch_def split: option.splits)
  have "moves cx a b" if "dispatch cx rq mo (a\<lparr>ap_sessions := x\<rparr>) = (b, r)" for x b r
    using d [of "a\<lparr>ap_sessions := x\<rparr>"] that by simp
  moreover have "moves cx a (audit_mutation st rq mo n b) = moves cx a b" for st n b
    by (simp add: audit_mutation_def)
  ultimately show ?thesis using d [of a]
    by (auto simp: serve_def require_auth_def check_session_def split: prod.splits bool.splits)
qed

lemma moves_serve_all: "readers cx \<Longrightarrow> moves cx a (serve_all cx rs a)"
  by (induction cx rs a rule: serve_all.induct) (auto intro: moves_trans moves_serve)

end
