(* ===== verification/Program.thy ===== *)
theory Program
  imports Handlers_Spec
begin

text \<open>
  \<^verbatim>\<open>main.go\<close>: the start of the program, and the program itself, the interleaving of its requests,
  callbacks and timers.  Whatever happens, the configuration is valid, the restart flag tells the
  truth, and the file on disk is the configuration in memory.
\<close>


section \<open>Start\<close>

record startup =
  su_config_path :: string
  su_wg_path :: string
  su_read_error :: "string option"
  su_keys :: "string + string \<times> string"
  su_zerotier :: "world \<Rightarrow> gateway_net list"
  su_advertised :: "world \<Rightarrow> (string \<times> string list) list"
  su_now :: gotime
  su_up_at :: gotime

definition ensure_server_key :: "web_context \<Rightarrow> startup \<Rightarrow> store \<Rightarrow> world \<Rightarrow> store \<times> world \<times> write_error option" where
  "ensure_server_key cx su s w =
     (if s_private_key (cfg_server (st_config s)) \<noteq> [] then (s, w, None)
      else submit (cx_env cx) (init_server_key (su_keys su)) s w)"

text \<open>BGP listens on the address of the interface, so it starts only when wg-quick succeeded.\<close>

definition start_interface :: "web_context \<Rightarrow> startup \<Rightarrow> store \<Rightarrow> world \<Rightarrow> (store \<times> world) \<times> gotime" where
  "start_interface cx su s w =
     (case restart_wg_config (e_run (cx_env cx)) (w_wg w) (st_wg_path s) of
        (wg, Some e) \<Rightarrow> ((s, w\<lparr>w_wg := wg\<rparr>), su_now su)
      | (wg, None) \<Rightarrow>
          let w1 = w\<lparr>w_wg := wg\<rparr>; s1 = mark_wireguard_restarted s w1 in
          ((s1, fst (reapply_bgp (cx_env cx) s1 w1)), su_up_at su))"

definition register_services :: "startup \<Rightarrow> store \<Rightarrow> store" where
  "register_services su s =
     set_bgp_advertised_routes (Some (su_advertised su)) (set_zerotier_gateways (Some (su_zerotier su))
       (on_change (Some 1) (on_change (Some 0) s)))"

definition start_stats :: "gotime \<Rightarrow> app_config \<Rightarrow> collector" where
  "start_stats t cfg =
     set_started_at t (on_stats True (set_peer_bases (map (\<lambda>p. (p_public_key p, p_rx p, p_tx p)) (cfg_peers cfg)) new_collector))"

text \<open>A fatal error ends the process; every other error is logged.\<close>

definition boot :: "web_context \<Rightarrow> startup \<Rightarrow> world \<Rightarrow> world \<times> (string + app)" where
  "boot cx su w0 =
     (case load_store (cx_env cx) (su_read_error su) w0 (su_config_path su) (su_wg_path su) of
        (w1, Inl e) \<Rightarrow> (w1, Inl (''loading config: '' @ e))
      | (w1, Inr s1) \<Rightarrow>
          (case ensure_server_key cx su s1 w1 of
             (s2, w2, err) \<Rightarrow>
               if \<not> is_applied err then (w2, Inl ''initializing server keys'')
               else (case render_wg (cx_env cx) s2 w2 of
                       (w3, Some e) \<Rightarrow> (w3, Inl ''rendering WireGuard config'')
                     | (w3, None) \<Rightarrow>
                         (case start_interface cx su s2 w3 of
                            ((s4, w4), started) \<Rightarrow>
                              let s5 = register_services su s4 in
                              (case reconcile_gateways (cx_host cx) (su_now su) (cfg_gateways (st_config s5)) (new_manager ''/etc/wireguard'', []) of
                                 (_, m, log) \<Rightarrow>
                                   (case reapply_routing (cx_env cx) s5 w4 of
                                      (s6, w6, _) \<Rightarrow>
                                        (w6, Inr \<lparr>ap_store = s6, ap_world = w6, ap_sessions = (\<lambda>_. None), ap_challenges = (\<lambda>_. None),
                                           ap_gateways = m, ap_effects = log, ap_stats = start_stats started (st_config s6), ap_audit = []\<rparr>)))))))"

section \<open>The running program\<close>

text \<open>The callback of the collector hands a snapshot of the counters to the store.\<close>

definition stats_snapshot :: "(string \<Rightarrow> live_stats option) \<Rightarrow> string \<Rightarrow> peer_stats option" where
  "stats_snapshot m k = map_option (\<lambda>l. \<lparr>ps_last_seen = ls_handshake l, ps_rx = ls_rx l, ps_tx = ls_tx l\<rparr>) (m k)"

definition collect :: "string + string \<Rightarrow> gotime \<Rightarrow> app \<Rightarrow> app" where
  "collect dump now a =
     (case poll dump now (ap_stats a) of
        (c, calls) \<Rightarrow>
          (case pc_stats calls of
             None \<Rightarrow> a\<lparr>ap_stats := c\<rparr>
           | Some m \<Rightarrow> a\<lparr>ap_stats := c, ap_store := record_peer_stats (stats_snapshot m) (ap_store a)\<rparr>))"

definition set_store :: "store \<Rightarrow> world \<Rightarrow> app \<Rightarrow> app" where
  "set_store s w a = a\<lparr>ap_store := s, ap_world := w\<rparr>"

text \<open>
  The goroutines of the program: requests, the callback of a change with its snapshot of the
  gateways, the callbacks of BGP and ZeroTier, the collector and the persister.  The mutexes make
  each of these one step, and they interleave freely.
\<close>

inductive program :: "web_context \<Rightarrow> startup \<Rightarrow> app \<Rightarrow> bool" for cx su where
  booted: "boot cx su w = (w', Inr a) \<Longrightarrow> program cx su a"
| served: "program cx su a \<Longrightarrow> program cx su (fst (serve cx rq mo a))"
| gateways_changed: "program cx su a \<Longrightarrow> program cx su (with_manager (\<lambda>s. snd (reconcile_gateways (cx_host cx) now gs s)) a)"
| rerouted: "program cx su a \<Longrightarrow> reapply_routing (cx_env cx) (ap_store a) (ap_world a) = (s, w, r) \<Longrightarrow> program cx su (set_store s w a)"
| reannounced: "program cx su a \<Longrightarrow> reapply_bgp (cx_env cx) (ap_store a) (ap_world a) = (w, r) \<Longrightarrow> program cx su (set_store (ap_store a) w a)"
| sampled: "program cx su a \<Longrightarrow> program cx su (collect dump now a)"
| persisted: "program cx su a \<Longrightarrow> save_stats (cx_env cx) (ap_store a) (ap_world a) = (s, w, r) \<Longrightarrow> program cx su (set_store s w a)"


section \<open>Invariants\<close>

text \<open>What the store of the program is: reached by store operations, and valid.\<close>

definition sound :: "web_context \<Rightarrow> startup \<Rightarrow> app \<Rightarrow> bool" where
  "sound cx su a \<longleftrightarrow> (\<exists>lost. reach (cx_env cx) lost (ap_store a, ap_world a)) \<and> store_valid (ap_store a)
     \<and> st_config_path (ap_store a) = su_config_path su \<and> st_wg_path (ap_store a) = su_wg_path su"

lemma path_fields:
  "store_path env lost c c' \<Longrightarrow> st_config_path (fst c') = st_config_path (fst c) \<and> st_wg_path (fst c') = st_wg_path (fst c)
     \<and> (store_valid (fst c) \<longrightarrow> store_valid (fst c'))"
proof (induction rule: store_path.induct)
  case (path_step lost c c' now c'')
  then show ?case using step_paths [of env now "fst c'" "snd c'"] store_valid_step [of env now "fst c'" "snd c'"]
    by (metis prod.collapse)
qed simp

lemma sound_moves:
  assumes "sound cx su a" "moves cx a a'"
  shows "sound cx su a'"
proof -
  from assms(2) obtain l where p: "store_path (cx_env cx) l (ap_store a, ap_world a) (ap_store a', ap_world a')"
    by (auto simp: moves_def)
  from path_reach [OF p] path_fields [OF p] assms(1) show ?thesis by (auto simp: sound_def)
qed

lemma moves_set_store: "store_step (cx_env cx) l (ap_store a, ap_world a) (s, w) \<Longrightarrow> moves cx a (set_store s w a)"
  unfolding moves_def set_store_def by (simp, blast intro: path_one)

lemma moves_collect: "moves cx a (collect dump now a)"
proof -
  have "moves cx a (a\<lparr>ap_store := record_peer_stats m (ap_store a)\<rparr>)" for m
    unfolding moves_def by (simp, blast intro: path_one store_step.record_stats)
  then have "moves cx a (a\<lparr>ap_stats := c, ap_store := record_peer_stats m (ap_store a)\<rparr>)" for c m
    by (simp add: moves_def)
  then show ?thesis by (simp add: collect_def split: prod.splits option.splits)
qed

lemma submit_path: "submit env ed s w = (s', w', e) \<Longrightarrow> \<exists>l. store_path env l (s, w) (s', w')"
  using path_refl path_one [OF store_step.changed]
  by (fastforce simp: submit_def split: sum.splits edit_error.splits)

lemma boot_store:
  assumes "boot cx su w0 = (w', Inr a)"
  shows "sound cx su a"
proof -
  let ?env = "cx_env cx"
  from assms obtain s1 w1 s2 w2 err w3 s4 w4 t r where
    l: "load_store ?env (su_read_error su) w0 (su_config_path su) (su_wg_path su) = (w1, Inr s1)" and
    k: "ensure_server_key cx su s1 w1 = (s2, w2, err)" and
    g: "render_wg ?env s2 w2 = (w3, None)" and
    i: "start_interface cx su s2 w3 = ((s4, w4), t)" and
    rr: "reapply_routing ?env (register_services su s4) w4 = (ap_store a, ap_world a, r)"
    by (auto simp: boot_def Let_def split: prod.splits sum.splits option.splits if_splits)
  have pl: "st_config_path s1 = su_config_path su" "st_wg_path s1 = su_wg_path su"
    using load_store_new [OF l] by (auto simp: new_store_def)
  obtain l1 where p1: "store_path ?env l1 (s1, w1) (s2, w2)"
    using k submit_path path_refl by (metis ensure_server_key_def prod.inject)
  have v: "store_valid s2" using g by (auto simp: render_wg_def store_valid_def split: if_splits)
  have p2: "store_path ?env False (s2, w2) (s2, w3)" by (rule path_one [OF store_step.render [OF g]])
  have p3: "\<exists>l. store_path ?env l (s2, w3) (s4, w4)"
  proof -
    obtain wg e where wg: "restart_wg_config (e_run ?env) (w_wg w3) (st_wg_path s2) = (wg, e)"
      by (cases "restart_wg_config (e_run ?env) (w_wg w3) (st_wg_path s2)")
    have a1: "store_path ?env False (s2, w3) (s2, w3\<lparr>w_wg := wg\<rparr>)" by (rule path_one [OF store_step.restart [OF wg]])
    show ?thesis
    proof (cases e)
      case (Some e')
      with i wg a1 show ?thesis by (auto simp: start_interface_def)
    next
      case None
      let ?w = "w3\<lparr>w_wg := wg\<rparr>"
      obtain wb eb where b: "reapply_bgp ?env (mark_wireguard_restarted s2 ?w) ?w = (wb, eb)"
        by (cases "reapply_bgp ?env (mark_wireguard_restarted s2 ?w) ?w")
      have "store_path ?env False (s2, w3) (mark_wireguard_restarted s2 ?w, wb)"
        using path_step [OF path_step [OF a1 store_step.restarted] store_step.reapply_bgp [OF b]] by simp
      with i wg None b show ?thesis by (auto simp: start_interface_def Let_def)
    qed
  qed
  have "store_path ?env False (s4, w4) (register_services su s4, w4)"
    using path_step [OF path_step [OF path_step [OF path_one [OF store_step.subscribe] store_step.subscribe] store_step.set_zt] store_step.set_bgp]
    by (simp add: register_services_def)
  then have p4: "store_path ?env False (s4, w4) (ap_store a, ap_world a)"
    using path_step [OF _ store_step.reapply_routing [OF rr]] by fastforce
  from p3 obtain l3 where p3': "store_path ?env l3 (s2, w3) (s4, w4)" by blast
  have p24: "store_path ?env l3 (s2, w2) (ap_store a, ap_world a)"
    using path_trans [OF p4 path_trans [OF p3' p2]] by simp
  have "reach ?env (False \<or> l1) (s2, w2)" by (rule path_reach [OF p1 reach.loaded [OF l]])
  then have "reach ?env (l1 \<or> l3) (ap_store a, ap_world a)" using path_reach [OF p24] by simp
  then show ?thesis using path_fields [OF p24] path_fields [OF p1] v pl by (auto simp: sound_def)
qed

lemma program_sound: "program cx su a \<Longrightarrow> readers cx \<Longrightarrow> sound cx su a"
proof (induction rule: program.induct)
  case (booted w w' a)
  then show ?case by (simp add: boot_store)
next
  case (served a rq mo)
  then show ?case using sound_moves moves_serve by blast
next
  case (gateways_changed a now gs)
  then show ?case using sound_moves moves_refl by (simp add: with_manager_def split: prod.splits)
next
  case (rerouted a s w r)
  then show ?case using sound_moves moves_set_store store_step.reapply_routing by blast
next
  case (reannounced a w r)
  then show ?case using sound_moves moves_set_store store_step.reapply_bgp by blast
next
  case (sampled a dump now)
  then show ?case using sound_moves moves_collect by blast
next
  case (persisted a s w r)
  then show ?case using sound_moves moves_set_store store_step.save_stats by blast
qed



definition rollbacks_succeed :: "env \<Rightarrow> bool" where
  "rollbacks_succeed env \<longleftrightarrow> (\<forall>fn s w s' w' r. write_store env fn s w = (s', w', r) \<longrightarrow> \<not> rollback_lost r)"

lemma reach_not_lost: "reach env lost c \<Longrightarrow> rollbacks_succeed env \<Longrightarrow> \<not> lost"
proof (induction rule: reach.induct)
  case (stepped lost c now c')
  from stepped(2) have "\<not> now" using stepped(4) by (cases rule: store_step.cases) (auto simp: rollbacks_succeed_def)
  with stepped show ?case by simp
qed simp

lemma program_durable_inv:
  assumes "program cx su a" "readers cx" "rollbacks_succeed (cx_env cx)" "codec_ok (cx_env cx)"
    "paths_apart (su_config_path su) (su_wg_path su)"
  shows "durable_inv (cx_env cx) (ap_store a) (ap_world a)"
proof -
  from program_sound [OF assms(1,2)] obtain l where r: "reach (cx_env cx) l (ap_store a, ap_world a)"
      "st_config_path (ap_store a) = su_config_path su" "st_wg_path (ap_store a) = su_wg_path su"
    by (auto simp: sound_def)
  with reach_durable [OF assms(4) r(1)] reach_not_lost [OF r(1) assms(3)] assms(5) show ?thesis by simp
qed


section \<open>The end\<close>

text \<open>A signal stops the persister, which saves once more, and the tunnels of the gateways.\<close>

definition shutdown_program :: "web_context \<Rightarrow> gotime \<Rightarrow> app \<Rightarrow> app \<times> string option" where
  "shutdown_program cx now a =
     (case save_stats (cx_env cx) (ap_store a) (ap_world a) of
        (s, w, e) \<Rightarrow>
          (with_manager (\<lambda>m. foldl (\<lambda>m g. stop_gateway (cx_host cx) now g m) m (cfg_gateways (st_config s))) (set_store s w a), e))"

text \<open>The next start finds what the process knew at its end, the counters included.\<close>

lemma shutdown_durable:
  assumes "program cx su a" "readers cx" "rollbacks_succeed (cx_env cx)" "codec_ok (cx_env cx)"
    "paths_apart (su_config_path su) (su_wg_path su)" "shutdown_program cx now a = (a', None)"
  shows "durable (cx_env cx) (ap_store a') (ap_world a')"
proof -
  obtain s w e where s: "save_stats (cx_env cx) (ap_store a) (ap_world a) = (s, w, e)" by (rule prod_cases3)
  with assms(6) have e: "e = None" and a': "ap_store a' = s" "ap_world a' = w"
    by (auto simp: shutdown_program_def with_manager_def set_store_def split: prod.splits)
  have "\<not> st_dirty s" using s e by (auto simp: save_stats_def split: if_splits prod.splits option.splits)
  with program_durable_inv [OF persisted [OF assms(1) s] assms(2-5)] on_file_durable show ?thesis
    by (auto simp: durable_inv_def set_store_def a')
qed

definition program_env :: env where
  "program_env = sample_env\<lparr>e_marshal := \<lambda>c. if c = sample_exit_config then Inr ''d'' else Inl ''unsupported'',
     e_unmarshal := \<lambda>d. if d = ''d'' then Inr sample_exit_config else Inl ''bad''\<rparr>"

definition program_context :: web_context where
  "program_context = sample_context\<lparr>cx_env := program_env\<rparr>"

definition program_startup :: startup where
  "program_startup = \<lparr>su_config_path = ''/app/config.yaml'', su_wg_path = ''/etc/wireguard/wg0.conf'', su_read_error = None,
     su_keys = Inl ''no entropy'', su_zerotier = \<lambda>_. [], su_advertised = \<lambda>_. [], su_now = 5, su_up_at = 4\<rparr>"

definition program_world :: world where
  "program_world = sample_world\<lparr>w_disk := (\<lambda>_. None)(''/app/config.yaml'' \<mapsto> ''d'')\<rparr>"

lemma program_files: "snd (write_file_atomic program_env w what path c) = None"
proof -
  have fs: "fs_do program_env w op = (fst (fs_do program_env w op), None)" for w op
    by (cases op) (simp_all add: fs_do_def program_env_def sample_env_def Let_def)
  show ?thesis unfolding write_file_atomic_def by (subst fs, simp, subst fs, simp, subst fs, simp)
qed

lemma program_boots: "\<exists>w' a. boot program_context program_startup program_world = (w', Inr a) \<and> \<not> st_dirty (ap_store a)"
proof -
  let ?s = "new_store ''/app/config.yaml'' ''/etc/wireguard/wg0.conf'' sample_exit_config"
  have env: "cx_env program_context = program_env" by (simp add: program_context_def)
  have "ensure_gateway_tables sample_exit_config = (sample_exit_config, False)"
    by (rule ensure_idem) (simp add: sample_exit_config_def zero_config_def)
  then have l: "load_store program_env None program_world ''/app/config.yaml'' ''/etc/wireguard/wg0.conf'' = (program_world, Inr ?s)"
    by (simp add: load_store_def program_world_def program_env_def)
  have "s_private_key (cfg_server sample_exit_config) \<noteq> []" by code_simp
  then have k: "ensure_server_key program_context program_startup ?s program_world = (?s, program_world, None)"
    by (simp add: ensure_server_key_def new_store_def)
  have "validate_config sample_exit_config = []" by code_simp
  then have "snd (render_wg program_env ?s program_world) = None"
    using program_files by (simp add: render_wg_def new_store_def render_wg_config_def Let_def split: prod.splits option.splits)
      (metis snd_conv option.distinct(1))
  then obtain w3 where r: "render_wg program_env ?s program_world = (w3, None)" by (metis prod.collapse)
  obtain s4 w4 t where i: "start_interface program_context program_startup ?s w3 = ((s4, w4), t)"
    by (metis prod.collapse)
  then have "\<not> st_dirty s4"
    by (auto simp: start_interface_def Let_def mark_wireguard_restarted_def new_store_def split: prod.splits option.splits)
  then have d: "\<not> st_dirty (register_services program_startup s4)"
    by (simp add: register_services_def on_change_def set_zerotier_gateways_def set_bgp_advertised_routes_def)
  obtain gs m log where g: "reconcile_gateways (cx_host program_context) (su_now program_startup)
      (cfg_gateways (st_config (register_services program_startup s4))) (new_manager ''/etc/wireguard'', []) = (gs, m, log)"
    by (metis prod.collapse)
  obtain s6 w6 e where rr: "reapply_routing program_env (register_services program_startup s4) w4 = (s6, w6, e)"
    by (metis prod.collapse)
  with d reapply_routing_fields [OF rr] have "\<not> st_dirty s6" by simp
  with l k r i g rr env show ?thesis
    by (simp add: boot_def program_startup_def is_applied_def)
qed

lemma program_context_reads: "readers program_context"
  by (simp add: readers_def program_context_def sample_context_def)


lemma program_rollbacks: "rollbacks_succeed program_env"
proof -
  have False if w: "write_store program_env fn s w = (s', w', Some (Render_Rollback_Error e e'))" for fn s w s' w' e e'
    using w
  proof (cases rule: write_store_cases)
    case (rolled_back s1 w1 w2 e1)
    have "snd (render_wg_config program_env s1 w1) = None" using program_files by (simp add: render_wg_config_def Let_def)
    with rolled_back(3) show ?thesis by simp
  next
    case applied
    with write_apply_fields show ?thesis by fastforce
  qed auto
  then show ?thesis by (auto simp: rollbacks_succeed_def rollback_lost_def split: option.splits write_error.splits)
qed


end
