(* ===== verification/Edits_Spec.thy ===== *)
theory Edits_Spec
  imports Handlers_Spec
begin

text \<open>
  What the handlers do to the configuration: an edit is applied as a whole or not at all, a new peer
  gets an address of its own, deletions keep a configuration valid, and changes are audited.
\<close>

section \<open>What an edit leaves behind\<close>

lemma ensure_keeps [simp]:
  "cfg_peers (fst (ensure_gateway_tables c)) = cfg_peers c" "cfg_server (fst (ensure_gateway_tables c)) = cfg_server c"
  "cfg_bgp_peers (fst (ensure_gateway_tables c)) = cfg_bgp_peers c" "cfg_zerotier (fst (ensure_gateway_tables c)) = cfg_zerotier c"
  by (simp_all add: ensure_gateway_tables_def split: prod.splits)

lemma write_edit_result:
  assumes "write_edit cx ed a = (a', err)"
  shows "if is_applied err
    then \<exists>c. ed (app_config_of a) = Inr c \<and> app_config_of a' = fst (ensure_gateway_tables c) \<and> validate_config (app_config_of a') = []
    else app_config_of a' = app_config_of a"
proof -
  obtain s w where s: "submit (cx_env cx) ed (ap_store a) (ap_world a) = (s, w, err)" and a': "ap_store a' = s"
    using assms by (auto simp: write_edit_def split: prod.splits)
  show ?thesis
  proof (cases "\<exists>errs. ed (st_config (ap_store a)) = Inl (Rejected errs)")
    case True
    with s a' show ?thesis by (auto simp: submit_def is_applied_def app_config_of_def)
  next
    case False
    with s have "write_store (cx_env cx) (edit_fn ed) (ap_store a) (ap_world a) = (s, w, err)"
      by (auto simp: submit_def split: sum.splits edit_error.splits)
    then show ?thesis
    proof (cases rule: write_store_cases)
      case (applied cfg0 cfg s1 w1 w2)
      have "ed (app_config_of a) = Inr cfg0" using applied(1) by (auto simp: edit_fn_def app_config_of_def split: sum.splits)
      with applied write_apply_fields [OF applied(7)] a' show ?thesis
        by (auto simp: app_config_of_def is_applied_def)
    qed (use a' in \<open>auto simp: app_config_of_def is_applied_def\<close>)
  qed
qed


section \<open>New peers\<close>

lemma answer_ok: "re_status (answer page i e err) = 200 \<Longrightarrow> fst i \<noteq> 200 \<Longrightarrow> fst e \<noteq> 200 \<Longrightarrow> is_applied err"
  by (auto simp: answer_def is_applied_def reply_def split: option.splits write_error.splits)

lemma assigned_tables_fields [simp]:
  "p_id (assign_new_peer_tables ps p) = p_id p" "p_name (assign_new_peer_tables ps p) = p_name p"
  "p_private_key (assign_new_peer_tables ps p) = p_private_key p" "p_public_key (assign_new_peer_tables ps p) = p_public_key p"
  "p_allowed_ips (assign_new_peer_tables ps p) = p_allowed_ips p"
  by (simp_all add: assign_new_peer_tables_def Let_def)


section \<open>Deletions\<close>

lemma del_first_split: "find P xs = Some x \<Longrightarrow> \<exists>ys zs. xs = ys @ x # zs \<and> del_first P xs = ys @ zs"
proof (induction xs)
  case (Cons y xs)
  show ?case
  proof (cases "P y")
    case True
    with Cons.prems show ?thesis by (auto intro: exI [of _ "[]"])
  next
    case False
    with Cons obtain ys zs where "xs = ys @ x # zs" "del_first P xs = ys @ zs" by auto
    with False show ?thesis by (auto intro: exI [of _ "y # ys"])
  qed
qed simp

lemma parts_append [simp]:
  "peer_tables (ps @ qs) = peer_tables ps @ peer_tables qs" "claimed_prefixes (ps @ qs) = claimed_prefixes ps @ claimed_prefixes qs"
  "bgp_addresses (bs @ cs) = bgp_addresses bs @ bgp_addresses cs" "gateway_table_keys (gs @ hs) = gateway_table_keys gs @ gateway_table_keys hs"
  by (simp_all add: peer_tables_def claimed_prefixes_def bgp_addresses_def gateway_table_keys_def)

lemma find_map: "find P (map f xs) = map_option f (find (\<lambda>x. P (f x)) xs)"
  by (induction xs) auto

definition clear_ref :: "string \<Rightarrow> peer \<Rightarrow> peer" where
  "clear_ref i p = (if p_exit_id p = i then p\<lparr>p_exit_id := []\<rparr> else p)"

lemma cascade_map: "cascade_clear_exit_node ps i = map (clear_ref i) ps"
  by (simp add: cascade_clear_exit_node_def clear_ref_def)

lemma clear_ref_fields [simp]:
  "p_id (clear_ref i p) = p_id p" "p_public_key (clear_ref i p) = p_public_key p" "p_table (clear_ref i p) = p_table p"
  "p_policy_table (clear_ref i p) = p_policy_table p" "p_enabled (clear_ref i p) = p_enabled p" "p_is_exit (clear_ref i p) = p_is_exit p"
  "p_gateway_id (clear_ref i p) = p_gateway_id p" "p_policy_routes (clear_ref i p) = p_policy_routes p"
  "p_exit_id (clear_ref i p) = (if p_exit_id p = i then [] else p_exit_id p)"
  "effective_allowed_prefixes (clear_ref i p) = effective_allowed_prefixes p"
  by (simp_all add: clear_ref_def effective_allowed_prefixes_def effective_allowed_values_def)

lemma cleared_fields [simp]:
  "map p_id (map (clear_ref i) ps) = map p_id ps" "map p_public_key (map (clear_ref i) ps) = map p_public_key ps"
  "peer_tables (map (clear_ref i) ps) = peer_tables ps" "claimed_prefixes (map (clear_ref i) ps) = claimed_prefixes ps"
  by (simp_all add: peer_tables_def claimed_prefixes_def comp_def filter_map)

text \<open>A peer that loses its exit node is still valid, unless strict routing has nothing else to go by.\<close>

lemma cleared_peer_valid:
  "validate_peer [] p = [] \<Longrightarrow> i \<noteq> [] \<Longrightarrow>
   validate_peer [] (clear_ref i p) = [] \<longleftrightarrow> \<not> (p_exit_id p = i \<and> p_strict p \<and> p_policy_routes p = [])"
proof (cases "p_exit_id p = i")
  case True
  moreover assume "validate_peer [] p = []" "i \<noteq> []"
  ultimately show ?thesis
    by (cases "p_allowed_ips p = []"; cases "p_strict p \<and> p_policy_routes p = []") (simp_all add: validate_peer_def clear_ref_def)
qed (simp add: clear_ref_def)

text \<open>The followers of an exit node that cannot do without it.\<close>

definition strict_followers :: "string \<Rightarrow> peer list \<Rightarrow> peer list" where
  "strict_followers i ps = filter (\<lambda>q. p_id q \<noteq> i \<and> p_exit_id q = i \<and> p_strict q \<and> p_policy_routes q = []) ps"

lemma distinct_members: "distinct (map p_id (ys @ q # zs)) \<Longrightarrow> set (ys @ zs) = {x \<in> set (ys @ q # zs). p_id x \<noteq> p_id q}"
  by (auto simp: image_iff)

text \<open>In a valid configuration a peer can always be deleted, unless it is the exit node of a strict
  peer without policy routes: the cascade clears the reference, which leaves a peer that the
  validator rejects, so that the deletion fails as a whole.\<close>

theorem deleted_peer_accepted_iff:
  assumes "validate_config cfg = []" "find_peer_by_id (cfg_peers cfg) i = Some p" "i \<noteq> []"
  shows "\<exists>c. delete_peer i cfg = Inr c \<and> (validate_config c = [] \<longleftrightarrow> strict_followers i (cfg_peers cfg) = [])"
proof -
  let ?ps = "cfg_peers cfg"
  let ?cs = "map (clear_ref i) ?ps"
  from assms(1) have ok: "config_ok cfg" by (simp add: config_nil_ok)
  have p: "p \<in> set ?ps" "p_id p = i" using assms(2) peers.lookup_SomeD by auto
  have uniq: "q = p" if "q \<in> set ?ps" "p_id q = i" for q
    using ok that p by (auto simp: config_ok_def Let_def dest: inj_onD simp: distinct_map)
  have nofollow: "\<forall>q \<in> set ?ps. p_exit_id q = i \<longrightarrow> p_is_exit p"
    using ok assms(3) uniq by (fastforce simp: config_ok_def Let_def)
  then have same: "(if p_is_exit p then cascade_clear_exit_node ?ps i else ?ps) = ?cs"
    by (auto simp: cascade_map clear_ref_def intro!: map_idI [symmetric])
  have "find (\<lambda>q. p_id q = i) ?cs = Some (clear_ref i p)"
    using assms(2) by (simp add: find_peer_by_id_def find_map)
  then obtain ys zs where split: "?cs = ys @ clear_ref i p # zs" "del_first (\<lambda>q. p_id q = i) ?cs = ys @ zs"
    using del_first_split by metis
  have d: "delete_peer i cfg = Inr (cfg\<lparr>cfg_peers := ys @ zs\<rparr>)"
    using assms(2) split(2) same by (simp add: delete_peer_def set_peers_def Let_def)
  have "distinct (map p_id ?cs)" "distinct (map p_public_key ?cs)" "distinct (peer_tables ?cs)" "distinct (claimed_prefixes ?cs)"
    using ok by (simp_all only: config_ok_def Let_def cleared_fields)
  note ids = this(1) [unfolded split(1)] and others = this(2-4) [unfolded split(1)]
  have members: "set (ys @ zs) = clear_ref i ` {q \<in> set ?ps. p_id q \<noteq> i}"
    unfolding distinct_members [OF ids] unfolding split(1) [symmetric] using p(2) by auto
  have exits: "p_exit_id (clear_ref i q) = [] \<or> (\<exists>e \<in> set (ys @ zs). p_id e = p_exit_id (clear_ref i q) \<and> p_enabled e \<and> p_is_exit e)"
    if q: "q \<in> set ?ps" for q
  proof (cases "p_exit_id q = [] \<or> p_exit_id q = i")
    case False
    with q ok obtain e where "e \<in> set ?ps" "p_id e = p_exit_id q" "p_enabled e" "p_is_exit e"
      by (auto simp: config_ok_def Let_def)
    with False have "clear_ref i e \<in> set (ys @ zs)" "p_id (clear_ref i e) = p_exit_id (clear_ref i q)"
      "p_enabled (clear_ref i e)" "p_is_exit (clear_ref i e)" unfolding members by auto
    then show ?thesis by blast
  qed auto
  have rest: "distinct (map p_id (ys @ zs))" "distinct (map p_public_key (ys @ zs))" "distinct (peer_tables (ys @ zs))"
    "distinct (claimed_prefixes (ys @ zs))"
    using ids others by (auto simp: keys_Cons(1) [of _ zs] keys_Cons(2) [of _ zs])
  have "config_ok (cfg\<lparr>cfg_peers := ys @ zs\<rparr>) \<longleftrightarrow> (\<forall>q \<in> set (ys @ zs). validate_peer [] q = [])"
  proof -
    have "\<forall>q \<in> set (ys @ zs). p_exit_id q = [] \<or> (\<exists>e \<in> set (ys @ zs). p_id e = p_exit_id q \<and> p_enabled e \<and> p_is_exit e)"
      using exits unfolding members by blast
    moreover have "\<forall>q \<in> set (ys @ zs). p_gateway_id q = [] \<or> p_gateway_id q \<in> g_id ` set (cfg_gateways cfg)"
      "\<forall>q \<in> set (ys @ zs). (p_is_exit q \<longrightarrow> p_table q \<noteq> 0) \<and> (p_policy_routes q = [] \<or> p_policy_table q \<noteq> 0)"
      using ok unfolding members by (auto simp: config_ok_def Let_def)
    ultimately show ?thesis using ok rest unfolding config_ok_def Let_def by simp
  qed
  also have "\<dots> \<longleftrightarrow> strict_followers i ?ps = []"
  proof -
    have "validate_peer [] (clear_ref i q) = [] \<longleftrightarrow> \<not> (p_exit_id q = i \<and> p_strict q \<and> p_policy_routes q = [])" if "q \<in> set ?ps" for q
      using that ok assms(3) cleared_peer_valid [of q i] by (auto simp: config_ok_def Let_def)
    then show ?thesis unfolding members by (auto simp: strict_followers_def filter_empty_conv)
  qed
  finally show ?thesis using d by (simp add: config_nil_ok)
qed


lemma del_first_cases: "del_first P xs = xs \<or> (\<exists>ys x zs. xs = ys @ x # zs \<and> P x \<and> del_first P xs = ys @ zs)"
proof (cases "find P xs")
  case None
  then have "\<forall>x \<in> set xs. \<not> P x" by (simp add: find_None_iff)
  then have "del_first P xs = xs" by (induction xs) auto
  then show ?thesis ..
next
  case (Some x)
  then have "P x" by (auto simp: find_Some_iff)
  from del_first_split [OF Some] obtain ys zs where "xs = ys @ x # zs" "del_first P xs = ys @ zs" by (elim exE conjE)
  with \<open>P x\<close> show ?thesis by blast
qed

lemma gateway_table_keys_Cons: "gateway_table_keys (g # gs) = gateway_table_keys [g] @ gateway_table_keys gs"
  by (simp add: gateway_table_keys_def)

text \<open>Every peer keeps to its gateway, except those of the deleted one.\<close>

definition unbind :: "string \<Rightarrow> peer \<Rightarrow> peer" where
  "unbind i p = (if p_gateway_id p = i then p\<lparr>p_gateway_id := []\<rparr> else p)"

lemma unbind_fields [simp]:
  "p_id (unbind i p) = p_id p" "p_public_key (unbind i p) = p_public_key p" "p_table (unbind i p) = p_table p"
  "p_policy_table (unbind i p) = p_policy_table p" "p_enabled (unbind i p) = p_enabled p" "p_is_exit (unbind i p) = p_is_exit p"
  "p_exit_id (unbind i p) = p_exit_id p" "p_policy_routes (unbind i p) = p_policy_routes p"
  "p_gateway_id (unbind i p) = (if p_gateway_id p = i then [] else p_gateway_id p)"
  "effective_allowed_prefixes (unbind i p) = effective_allowed_prefixes p" "validate_peer nets (unbind i p) = validate_peer nets p"
  by (simp_all add: unbind_def effective_allowed_prefixes_def effective_allowed_values_def validate_peer_def)

lemma unbound_fields [simp]:
  "peer_tables (map (unbind i) ps) = peer_tables ps" "claimed_prefixes (map (unbind i) ps) = claimed_prefixes ps"
  by (simp_all add: peer_tables_def claimed_prefixes_def comp_def filter_map)

lemma delete_gateway_valid:
  assumes "validate_config cfg = []" "delete_gateway i cfg = Inr c"
  shows "validate_config c = []"
proof -
  let ?ps = "cfg_peers cfg" and ?gs = "cfg_gateways cfg"
  from assms(1) have ok: "config_ok cfg" by (simp add: config_nil_ok)
  from assms(2) obtain g where g: "find_vpn_gateway_by_id ?gs i = Some g" and
    c: "c = cfg\<lparr>cfg_peers := map (unbind i) ?ps, cfg_gateways := del_first (\<lambda>g. g_id g = i) ?gs\<rparr>"
    by (auto simp: delete_gateway_def unbind_def split: option.splits)
  from g obtain ys zs where s: "?gs = ys @ g # zs" "del_first (\<lambda>g. g_id g = i) ?gs = ys @ zs" and i: "g_id g = i"
    using del_first_split [OF g [unfolded find_vpn_gateway_by_id_def]] gateways.lookup_SomeD [OF g] by auto
  have c': "c = cfg\<lparr>cfg_peers := map (unbind i) ?ps, cfg_gateways := ys @ zs\<rparr>" using c s(2) by simp
  have "p_gateway_id (unbind i p) = [] \<or> p_gateway_id (unbind i p) \<in> g_id ` set (ys @ zs)" if "p \<in> set ?ps" for p
    using ok that i unfolding config_ok_def Let_def s by auto
  moreover have "distinct (filter (\<lambda>i. i \<noteq> []) (map g_interface (ys @ zs)))" "distinct (gateway_table_keys (ys @ zs))"
    "distinct (map g_id (ys @ zs))"
    using ok unfolding config_ok_def Let_def s by (auto simp: gateway_table_keys_Cons [of _ zs] split: if_splits)
  ultimately have "config_ok c"
    using ok unfolding config_ok_def Let_def c' s(1) by (simp add: comp_def)
  then show ?thesis by (simp add: config_nil_ok)
qed

lemma delete_bgp_peer_valid:
  assumes "validate_config cfg = []" "delete_bgp_peer i cfg = Inr c"
  shows "validate_config c = []"
proof -
  let ?bs = "cfg_bgp_peers cfg" and ?P = "\<lambda>p. b_id p = i"
  from assms(1) have ok: "config_ok cfg" by (simp add: config_nil_ok)
  from assms(2) have c: "c = cfg\<lparr>cfg_bgp_peers := del_first ?P ?bs\<rparr>" by (auto simp: delete_bgp_peer_def split: if_splits)
  from del_first_cases [of ?P ?bs] show ?thesis
  proof (elim disjE exE conjE)
    fix ys b zs assume s: "?bs = ys @ b # zs" "del_first ?P ?bs = ys @ zs"
    have "distinct (map b_id (ys @ zs))" "distinct (bgp_addresses (ys @ zs))"
      using ok unfolding config_ok_def Let_def s by (auto simp: keys_Cons(3) [of _ zs])
    moreover have "c = cfg\<lparr>cfg_bgp_peers := ys @ zs\<rparr>" using c s(2) by simp
    ultimately have "config_ok c" using ok unfolding config_ok_def Let_def s(1) by simp
    then show ?thesis by (simp add: config_nil_ok)
  qed (use assms(1) c in simp)
qed


text \<open>Passkeys and ZeroTier networks.\<close>

definition passkey_ok :: "passkey \<Rightarrow> bool" where
  "passkey_ok k \<longleftrightarrow> \<not> blank (pk_name k) \<and> length (pk_name k) \<le> 64 \<and> \<not> blank (pk_id k) \<and> \<not> blank (pk_public_key k)"

lemma passkey_errors_iff:
  "passkey_errors i seen pks = [] \<longleftrightarrow> distinct (map pk_id pks) \<and> pk_id ` set pks \<inter> set seen = {} \<and> (\<forall>k \<in> set pks. passkey_ok k)"
proof (induction pks arbitrary: i seen)
  case (Cons k pks)
  show ?case by (cases "passkey_ok k"; cases "pk_id k \<in> set seen") (auto simp: Cons.IH passkey_ok_def split: if_splits)
qed simp

definition zt_key :: "zt_network \<Rightarrow> string" where
  "zt_key n = to_lower (trim_space (zn_id n))"

lemma zt_network_errors_iff:
  "zt_network_errors i seen ns = [] \<longleftrightarrow> distinct (map zt_key ns) \<and> zt_key ` set ns \<inter> set seen = {}
     \<and> (\<forall>n \<in> set ns. zt_key n \<noteq> [] \<and> matches_network_id (zt_key n) \<and> length (zn_name n) \<le> 64)"
proof (induction ns arbitrary: i seen)
  case (Cons n ns)
  show ?case by (auto simp: Cons.IH Let_def zt_key_def [symmetric] split: if_splits)
qed simp

lemma delete_passkey_valid:
  assumes "validate_config cfg = []" "delete_passkey i cfg = Inr c"
  shows "validate_config c = []"
proof -
  let ?s = "cfg_server cfg"
  let ?rest = "filter (\<lambda>k. pk_id k \<noteq> i) (s_passkeys ?s)"
  let ?t = "if ?rest = [] then ?s\<lparr>s_passkeys := ?rest, s_require_passkey := False\<rparr> else ?s\<lparr>s_passkeys := ?rest\<rparr>"
  have c: "c = cfg\<lparr>cfg_server := ?t\<rparr>"
    using assms(2) by (auto simp: delete_passkey_def set_server_def Let_def split: if_splits)
  have ok: "validate_server ?s = []" using assms(1) by (simp add: validate_config_def)
  then have "passkey_errors 0 [] (s_passkeys ?s) = []" by (simp add: validate_server_def)
  then have r: "passkey_errors 0 [] ?rest = []" by (auto simp: passkey_errors_iff distinct_map_filter)
  then have "validate_server ?t = []" using ok
    by (cases "?rest = []"; cases "s_address ?s = []"; cases "s_bgp_enabled ?s") (simp_all add: validate_server_def)
  then show ?thesis using assms(1) c by (simp add: validate_config_def)
qed

lemma leave_network_valid:
  assumes "validate_config cfg = []" "leave_network i cfg = Inr c"
  shows "validate_config c = []"
proof -
  let ?z = "cfg_zerotier cfg"
  let ?rest = "del_first (\<lambda>n. equal_fold (zn_id n) i) (zt_networks ?z)"
  have c: "c = cfg\<lparr>cfg_zerotier := ?z\<lparr>zt_networks := ?rest\<rparr>\<rparr>"
    using assms(2) by (auto simp: leave_network_def set_zerotier_def Let_def split: if_splits)
  have ok: "validate_zerotier ?z = []" using assms(1) by (simp add: validate_config_def)
  then have "zt_network_errors 0 [] (zt_networks ?z) = []" by (simp add: validate_zerotier_def)
  then have "zt_network_errors 0 [] ?rest = []"
    by (auto simp: zt_network_errors_iff distinct_map_del_first dest: set_del_first [THEN subsetD])
  then have "validate_zerotier (?z\<lparr>zt_networks := ?rest\<rparr>) = []" using ok by (simp add: validate_zerotier_def)
  then show ?thesis using assms(1) c by (simp add: validate_config_def)
qed

text \<open>C30: deleting a VPN gateway, a BGP peer, a passkey or a ZeroTier network never makes a valid
  configuration invalid: the peers of a deleted gateway lose their binding, and the last passkey
  takes the login requirement with it.\<close>

theorem deletions_keep_valid:
  assumes "validate_config cfg = []"
    "e \<in> {delete_gateway i, delete_bgp_peer i, delete_passkey i, leave_network i}" "e cfg = Inr c"
  shows "validate_config c = []"
proof -
  from assms(2) have "e = delete_gateway i \<or> e = delete_bgp_peer i \<or> e = delete_passkey i \<or> e = leave_network i" by simp
  then show ?thesis
  proof (elim disjE)
    assume "e = delete_gateway i"
    with assms(3) delete_gateway_valid [OF assms(1)] show ?thesis by simp
  next
    assume "e = delete_bgp_peer i"
    with assms(3) delete_bgp_peer_valid [OF assms(1)] show ?thesis by simp
  next
    assume "e = delete_passkey i"
    with assms(3) delete_passkey_valid [OF assms(1)] show ?thesis by simp
  next
    assume "e = leave_network i"
    with assms(3) leave_network_valid [OF assms(1)] show ?thesis by simp
  qed
qed

definition sample_gateway_config :: app_config where
  "sample_gateway_config = sample_exit_config\<lparr>cfg_gateways := [sample_gateway],
     cfg_peers := map (\<lambda>p. p\<lparr>p_gateway_id := ''g''\<rparr>) (cfg_peers sample_exit_config)\<rparr>"

theorem deletions_keep_valid_witness:
  "case delete_gateway ''g'' sample_gateway_config of Inl _ \<Rightarrow> False | Inr c \<Rightarrow> validate_config c = [] \<and> cfg_gateways c = []"
proof -
  have v: "validate_config sample_gateway_config = []" by code_simp
  have d: "case delete_gateway ''g'' sample_gateway_config of Inl _ \<Rightarrow> False | Inr c \<Rightarrow> cfg_gateways c = []" by code_simp
  then obtain c where c: "delete_gateway ''g'' sample_gateway_config = Inr c" by (auto split: sum.splits)
  from deletions_keep_valid [where e = "delete_gateway ''g''" and i = "''g''", OF v _ c] d c show ?thesis by simp
qed

definition sample_strict :: peer where
  "sample_strict = sample_exit\<lparr>p_id := ''s'', p_name := ''s'', p_public_key := ''B'' @ tl sample_key, p_is_exit := False, p_table := 0,
     p_exit_id := p_id sample_exit, p_strict := True, p_allowed_ips := ''10.0.0.77/32''\<rparr>"

definition sample_strict_config :: app_config where
  "sample_strict_config = sample_exit_config\<lparr>cfg_peers := [sample_exit, sample_strict]\<rparr>"

theorem deleted_peer_accepted_iff_witness:
  "\<exists>c. delete_peer (p_id sample_exit) sample_strict_config = Inr c \<and> validate_config c \<noteq> []"
proof -
  have "validate_config sample_strict_config = []" by code_simp
  moreover have "find_peer_by_id (cfg_peers sample_strict_config) (p_id sample_exit) = Some sample_exit" "p_id sample_exit \<noteq> []"
    by (simp_all add: sample_strict_config_def find_peer_by_id_def sample_exit_def)
  moreover have "strict_followers (p_id sample_exit) (cfg_peers sample_strict_config) \<noteq> []" by code_simp
  ultimately show ?thesis using deleted_peer_accepted_iff by metis
qed

text \<open>A request that adds a peer to a running program.\<close>

definition create_app :: app where
  "create_app = sample_app\<lparr>ap_store := new_store ''/app/config.yaml'' ''/etc/wireguard/wg0.conf'' sample_exit_config\<rparr>"

definition create_context :: web_context where
  "create_context = sample_context\<lparr>cx_env := sample_env\<lparr>e_marshal := \<lambda>_. Inr ''y''\<rparr>\<rparr>"

definition create_request :: request where
  "create_request = (plain_request ''POST'' ''/peers'')\<lparr>rq_form := (\<lambda>k. if k = ''name'' then [''phone''] else [])\<rparr>"

definition create_moment :: moment where
  "create_moment = sample_moment\<lparr>mo_keys := Inr (sample_key, ''C'' @ tl sample_key), mo_id := Inr [7, 8]\<rparr>"

text \<open>A valid edit is accepted when the files can be written.\<close>

lemma write_edit_accepted:
  assumes "ed (app_config_of a) = Inr c" "validate_config (fst (ensure_gateway_tables c)) = []"
    "\<And>w what path t. snd (write_file_atomic (cx_env cx) w what path t) = None" "\<And>c. \<exists>d. e_marshal (cx_env cx) c = Inr d"
  shows "is_applied (snd (write_edit cx ed a))"
proof -
  have y: "snd (save_yaml (cx_env cx) s w) = None" for s w
    using assms(3) assms(4) [of "st_config s"] by (auto simp: save_yaml_def)
  have r: "snd (render_wg_config (cx_env cx) s w) = None" for s w
    using assms(3) by (simp add: render_wg_config_def Let_def)
  obtain s w e where ws: "write_store (cx_env cx) (edit_fn ed) (ap_store a) (ap_world a) = (s, w, e)"
    by (cases "write_store (cx_env cx) (edit_fn ed) (ap_store a) (ap_world a)")
  have fn: "edit_fn ed (st_config (ap_store a)) = (c, None)" using assms(1) by (simp add: edit_fn_def app_config_of_def)
  from ws have "is_applied e"
  proof (cases rule: write_store_cases)
    case rejected
    with fn assms(2) show ?thesis by simp
  next
    case (unsaved s1 e1)
    with y [of s1 "ap_world a"] show ?thesis by simp
  next
    case (rolled_back s1 w1 w2 e1)
    with r [of s1 w1] show ?thesis by simp
  next
    case (applied cfg0 cfg s1 w1 w2)
    with write_apply_fields [OF applied(7)] show ?thesis by (auto simp: is_applied_def)
  qed
  with ws assms(1) show ?thesis by (simp add: write_edit_def submit_def app_config_of_def split: prod.splits)
qed

lemma create_files:
  "snd (write_file_atomic (cx_env create_context) w what path t) = None" "\<exists>d. e_marshal (cx_env create_context) c = Inr d"
proof -
  let ?e = "cx_env create_context"
  have fs: "fs_do ?e w op = (fst (fs_do ?e w op), None)" for w op
    by (cases op) (simp_all add: fs_do_def create_context_def sample_env_def Let_def)
  show "snd (write_file_atomic ?e w what path t) = None"
    unfolding write_file_atomic_def by (subst fs, simp, subst fs, simp, subst fs, simp)
qed (simp add: create_context_def)

lemma create_edit:
  "case add_peer [] (new_peer (rq_form create_request) 1 (hex_bytes [7, 8]) (sample_key, ''C'' @ tl sample_key) []) sample_exit_config of
     Inl _ \<Rightarrow> False | Inr c \<Rightarrow> validate_config c = [] \<and> cfg_gateways c = [] \<and> length (cfg_peers c) = 2"
  by code_simp

lemma create_status: "re_status (snd (peer_create create_context create_request create_moment create_app)) = 200"
proof -
  let ?ed = "add_peer [] (new_peer (rq_form create_request) 1 (hex_bytes [7, 8]) (sample_key, ''C'' @ tl sample_key) [])"
  have cfg: "app_config_of create_app = sample_exit_config" by (simp add: app_config_of_def create_app_def new_store_def)
  from create_edit obtain c where c: "?ed (app_config_of create_app) = Inr c" "validate_config c = []" "cfg_gateways c = []"
    unfolding cfg by (auto split: sum.splits)
  moreover from c(3) have "fst (ensure_gateway_tables c) = c" using ensure_idem [of c] by simp
  ultimately have "is_applied (snd (write_edit create_context ?ed create_app))"
    using create_files by (intro write_edit_accepted) auto
  moreover have "peer_create create_context create_request create_moment create_app =
      edit_and_answer create_context ?ed ''peers-list'' (422, ''peer-form'') (422, ''peer-form'') create_app"
    by (simp add: peer_create_def create_request_def plain_request_def create_moment_def sample_moment_def form_on_def form_value_def)
  ultimately show ?thesis
    by (auto simp: edit_and_answer_def answer_def reply_def is_applied_def split: prod.splits option.splits write_error.splits)
qed



section \<open>The audit log\<close>

text \<open>A reply with a change is a success.\<close>

definition tells :: "app \<Rightarrow> app \<times> response \<Rightarrow> bool" where
  "tells a x \<longleftrightarrow> app_config_of (fst x) = app_config_of a \<or> re_status (snd x) < 400"

lemma config_fields [simp]:
  "app_config_of (a\<lparr>ap_sessions := x1\<rparr>) = app_config_of a" "app_config_of (a\<lparr>ap_challenges := x2\<rparr>) = app_config_of a"
  "app_config_of (a\<lparr>ap_gateways := x3\<rparr>) = app_config_of a" "app_config_of (a\<lparr>ap_effects := x4\<rparr>) = app_config_of a"
  "app_config_of (a\<lparr>ap_stats := x5\<rparr>) = app_config_of a" "app_config_of (a\<lparr>ap_audit := x6\<rparr>) = app_config_of a"
  "app_config_of (a\<lparr>ap_world := x7\<rparr>) = app_config_of a"
  by (simp_all add: app_config_of_def)

lemma tells_same [simp]: "tells a (a, r)" "tells a (x, reply 200 b)" "tells a (a\<lparr>ap_sessions := s\<rparr>, r)"
  by (simp_all add: tells_def reply_def)

lemma write_edit_unapplied: "write_edit cx ed a = (a', err) \<Longrightarrow> \<not> is_applied err \<Longrightarrow> app_config_of a' = app_config_of a"
  using write_edit_result [of cx ed a a' err] by simp

lemma tells_answer: "write_edit cx ed a = (a', err) \<Longrightarrow> tells a (a', answer page i e err)"
  using write_edit_unapplied [of cx ed a a' err]
  by (cases err; cases "the err") (auto simp: tells_def answer_def reply_def is_applied_def)

lemma tells_edit_and_answer [simp]: "tells a (edit_and_answer cx ed page i e a)"
  by (auto simp: edit_and_answer_def tells_answer split: prod.splits)

lemma tells_peers [simp]:
  "tells a (peer_create cx rq mo a)" "tells a (peer_update cx i rq mo a)" "tells a (peer_delete cx i a)" "tells a (peer_toggle cx i mo a)"
  "tells a (gateway_assign cx i rq mo a)"
  by (auto simp: peer_create_def peer_update_def peer_delete_def peer_toggle_def gateway_assign_def split: sum.splits)

lemma tells_settings [simp]:
  "tells a (bgp_server cx rq a)" "tells a (bgp_create cx rq mo a)" "tells a (bgp_update cx i rq mo a)" "tells a (bgp_delete cx i a)"
  "tells a (zerotier_update cx rq a)" "tells a (zerotier_join cx rq a)" "tells a (zerotier_leave cx i a)"
  by (auto simp: bgp_server_def bgp_create_def bgp_update_def bgp_delete_def zerotier_update_def zerotier_join_def
      zerotier_leave_def respond_zerotier_def split: sum.splits)

lemma tells_quick [simp]: "tells a (quick_create cx rq mo a)"
  by (auto simp: quick_create_def Let_def tells_def reply_def dest!: write_edit_unapplied simp: is_applied_def
      split: sum.splits prod.splits option.splits write_error.splits)

lemma tells_regenerate [simp]: "tells a (regenerate cx i mo a)"
proof -
  obtain a1 err where w: "write_edit cx (regenerate_keys i (mo_keys mo) (mo_now mo)) a = (a1, err)"
    by (cases "write_edit cx (regenerate_keys i (mo_keys mo) (mo_now mo)) a")
  from tells_answer [OF w, of "''peer-form''" "(500, failure err ''empty'')" "(500, failure err ''empty'')"] w
  show ?thesis by (cases err) (auto simp: regenerate_def tells_def Let_def)
qed

lemma tells_scan [simp]: "tells a (scan_devices cx i rq mo a)"
  by (auto simp: scan_devices_def split: sum.splits prod.splits option.splits)

lemma tells_server [simp]: "tells a (server_update cx rq mo a)"
proof -
  obtain b err where w: "write_edit cx (update_server (rq_form rq)) a = (b, err)" by (cases "write_edit cx (update_server (rq_form rq)) a")
  show ?thesis
  proof (cases err)
    case None
    with w show ?thesis by (auto simp: server_update_def tells_def reply_def split: prod.splits)
  next
    case (Some e)
    with w tells_answer [OF w, of "''server-config''" "(422, failure err ''server-config'')" "(500, failure err ''server-config'')"]
    show ?thesis by (simp add: server_update_def)
  qed
qed

lemma tells_reads [simp]:
  "tells a (get_auth_status rq mo a)" "tells a (login_begin cx rq mo a)" "tells a (logout rq a)" "tells a (passkey_begin cx rq mo a)"
  "tells a (gateway_page cx a)" "tells a (client_config cx i rq a)" "tells a (server_download cx mo a)"
  by (auto simp: get_auth_status_def login_begin_def logout_def passkey_begin_def with_session_def check_session_def gateway_page_def
      client_config_def server_download_def tells_def Let_def split: prod.splits sum.splits option.splits bool.splits)

lemma tells_login_finish [simp]: "tells a (login_finish cx rq mo a)"
  by (auto simp: login_finish_def tells_def reply_def start_session_def Let_def split: prod.splits sum.splits option.splits)

lemma tells_with_session:
  assumes "\<And>b. tells b (h b)"
  shows "tells a (with_session rq mo h a)"
proof -
  have "tells (a\<lparr>ap_sessions := x\<rparr>) y = tells a y" for x y by (simp add: tells_def)
  then have "tells a (h (a\<lparr>ap_sessions := x\<rparr>))" for x using assms by metis
  with assms show ?thesis by (auto simp: with_session_def check_session_def split: prod.splits bool.splits)
qed

lemma tells_passkeys [simp]: "tells a (passkey_finish cx rq mo a)" "tells a (passkey_delete cx i rq mo a)"
proof -
  have w: "write_edit cx ed (b\<lparr>ap_challenges := cs\<rparr>) = (b', e) \<Longrightarrow> \<not> is_applied e \<Longrightarrow> app_config_of b' = app_config_of b"
    for cx ed b cs b' e
    using write_edit_unapplied [of cx ed "b\<lparr>ap_challenges := cs\<rparr>"] by simp
  show "tells a (passkey_finish cx rq mo a)"
    unfolding passkey_finish_def by (rule tells_with_session)
      (auto simp: tells_def reply_def start_session_def w split: prod.splits sum.splits option.splits)
  show "tells a (passkey_delete cx i rq mo a)"
    unfolding passkey_delete_def by (rule tells_with_session)
      (auto simp: tells_def reply_def dest: write_edit_unapplied split: prod.splits)
qed

lemma reapply_routing_config: "reapply_routing env s w = (s', w', r) \<Longrightarrow> st_config s' = st_config s"
  using reapply_routing_fields by blast

lemma tells_apply [simp]: "tells a (apply_config cx mo a)"
  by (auto simp: apply_config_def Let_def tells_def reply_def app_config_of_def split: prod.splits option.splits)


text \<open>The handlers that take a failure to apply for a failure of the change.\<close>

fun silent :: "endpoint \<Rightarrow> bool" where
  "silent Gateway_Create = True"
| "silent (Gateway_Delete _) = True"
| "silent (Gateway_Toggle _) = True"
| "silent (Device_Route _ _) = True"
| "silent _ = False"

fun reading :: "endpoint \<Rightarrow> bool" where
  "reading Version = True"
| "reading Auth_Status = True"
| "reading Gateways = True"
| "reading (Client_Config _) = True"
| "reading Server_Download = True"
| "reading ep = (ep \<in> {Files, Stats_Bar, Quick_Form, Peers, Peer_New, Server, Server_Show, BGP_Tab, BGP_New, System_Tab, Assignments,
     Gateway_New, ZeroTier, ZeroTier_Status} \<or> (\<exists>i. ep \<in> {Peer_Edit i, Peer_QR i, Devices i, BGP_Edit i, Gateway_Status i, Client_QR i}))"

lemma tells_handle: "readers cx \<Longrightarrow> \<not> silent ep \<Longrightarrow> tells a (handle cx ep rq mo a)"
  by (cases ep) (simp_all add: handle_def readers_def tells_def [of a "cx_other _ _ _ _ _"] app_config_of_def [of "fst _"] app_config_of_def [of a])

lemma reading_handle: "readers cx \<Longrightarrow> reading ep \<Longrightarrow> app_config_of (fst (handle cx ep rq mo a)) = app_config_of a"
  by (cases ep) (auto simp: handle_def readers_def app_config_of_def get_auth_status_def check_session_def gateway_page_def
      client_config_def server_download_def Let_def split: prod.splits sum.splits option.splits)

lemma get_routes_read: "r \<in> set routes \<Longrightarrow> fst r = ''GET'' \<Longrightarrow> reading (snd (snd r) vs)"
  by (auto simp: routes_def arg_def)

lemma routes_methods: "r \<in> set routes \<Longrightarrow> fst r \<in> {''GET'', ''POST'', ''PUT'', ''DELETE''}"
  by (auto simp: routes_def)

lemma find_route_method:
  "find_route rs m segs = Some ep \<Longrightarrow> \<exists>r \<in> set rs. \<exists>vs. method_matches (fst r) m \<and> ep = snd (snd r) vs"
  by (induction rs) (fastforce split: option.splits if_splits)+

lemma changing_method:
  assumes "route m raw = Some ep" "\<not> reading ep"
  shows "m \<in> {''POST'', ''PUT'', ''DELETE''}"
proof -
  from assms have "find_route routes m (path_segments raw) = Some ep" by (auto simp: route_def split: option.splits if_splits)
  then obtain r vs where r: "r \<in> set routes" "method_matches (fst r) m" "ep = snd (snd r) vs" using find_route_method by blast
  with assms(2) get_routes_read have "fst r \<noteq> ''GET''" by blast
  with r routes_methods [OF r(1)] show ?thesis by (auto simp: method_matches_def)
qed

lemma check_session_config: "check_session rq mo a = (b, ok) \<Longrightarrow> app_config_of b = app_config_of a"
  by (auto simp: check_session_def split: prod.splits)

text \<open>C26: whenever a request changes the configuration, its line is the last one of the audit log,
  provided the log can be written; only the handlers of VPN gateways and device routes can change
  the configuration and still answer with an error, which is not audited.\<close>

theorem changes_are_audited:
  assumes "serve cx rq mo a = (a', r)" "readers cx" "mo_audit_ok mo" "app_config_of a' \<noteq> app_config_of a"
    "\<forall>ep. route (rq_method rq) (rq_escaped rq) = Some ep \<longrightarrow> \<not> silent ep"
  shows "\<exists>log. ap_audit a' = log @ audit_line (cx_stamp cx) rq mo (re_status r)"
proof -
  let ?served = "\<lambda>b x. dispatch cx rq mo b = (x, r) \<and> app_config_of b = app_config_of a"
  from assms(1) obtain b where s: "require_auth (dispatch cx rq mo) rq mo a = (b, r)" and a': "a' = audit_mutation (cx_stamp cx) rq mo (re_status r) b"
    by (auto simp: serve_def split: prod.splits)
  then have b: "app_config_of b \<noteq> app_config_of a" using assms(4) by (auto simp: audit_mutation_def split: if_splits)
  with s obtain a0 where d: "dispatch cx rq mo a0 = (b, r)" "app_config_of a0 = app_config_of a"
    by (auto simp: require_auth_def split: if_splits prod.splits bool.splits dest: check_session_config)
  with b obtain ep where ep: "route (rq_method rq) (rq_escaped rq) = Some ep" "handle cx ep rq mo a0 = (b, r)"
    by (auto simp: dispatch_def split: if_splits option.splits)
  from tells_handle [OF assms(2), of ep a0 rq mo] ep assms(5) b d(2) have "re_status r < 400" by (simp add: tells_def)
  moreover have "\<not> reading ep" using reading_handle [OF assms(2), of ep rq mo a0] ep(2) b d(2) by auto
  then have "rq_method rq \<in> {''POST'', ''PUT'', ''DELETE''}" using changing_method ep(1) by blast
  ultimately show ?thesis using a' assms(3) by (auto simp: audit_mutation_def)
qed

text \<open>An unauthenticated form post is refused with a redirect, and the redirect is recorded in
  the audit log like a successful change.\<close>

theorem refused_post_is_audited:
  assumes "enforced a" "stranger rq mo a" "\<not> open_path (rq_path rq)" "rq_method rq = ''POST''" "\<not> rq_htmx rq"
    "\<not> has_prefix (rq_path rq) ''/api/''" "mo_audit_ok mo"
  shows "\<exists>a' log. serve cx rq mo a = (a', reply 303 (Redirect ''/'')) \<and> untouched a a' \<and> ap_audit a' = log @ audit_line (cx_stamp cx) rq mo 303"
proof -
  obtain b where c: "check_session rq mo a = (b, False)"
    using assms(2) check_session_untouched [of rq mo a] by (cases "check_session rq mo a") auto
  with check_session_untouched [OF c] assms show ?thesis
    by (simp add: serve_def require_auth_def refuse_def reply_def audit_mutation_def)
qed

theorem refused_post_is_audited_witness:
  "\<exists>a' log. serve sample_context (plain_request ''POST'' ''/peers'') sample_moment sample_app = (a', reply 303 (Redirect ''/''))
    \<and> untouched sample_app a'
    \<and> ap_audit a' = log @ audit_line (cx_stamp sample_context) (plain_request ''POST'' ''/peers'') sample_moment 303"
proof (rule refused_post_is_audited)
  have p: "rq_path (plain_request ''POST'' ''/peers'') = ''/peers''" by code_simp
  show "\<not> open_path (rq_path (plain_request ''POST'' ''/peers''))" "\<not> has_prefix (rq_path (plain_request ''POST'' ''/peers'')) ''/api/''"
    unfolding p by (simp_all add: open_path_def has_prefix_def)
  show "enforced sample_app" by (simp add: enforced_def sample_app_def sample_locked_def set_server_def)
qed (simp_all add: stranger_def validate_session_def plain_request_def sample_moment_def)

definition member_app :: app where
  "member_app = create_app\<lparr>ap_sessions := (\<lambda>_. None)(''t'' \<mapsto> \<lparr>ses_created = 0, ses_expires = 100\<rparr>)\<rparr>"

definition member_request :: request where
  "member_request = create_request\<lparr>rq_cookie := Some ''t''\<rparr>"

lemma member_route: "clean_path ''/peers''" "route ''POST'' ''/peers'' = Some Peer_Create" "unescape_segment ''/peers'' = ''/peers''"
  by code_simp+

theorem changes_are_audited_witness:
  "\<exists>log. ap_audit (fst (serve create_context member_request create_moment member_app)) = log @ audit_line (cx_stamp create_context) member_request create_moment 200"
proof -
  let ?ed = "add_peer [] (new_peer (rq_form create_request) 1 (hex_bytes [7, 8]) (sample_key, ''C'' @ tl sample_key) [])"
  have cfg: "app_config_of member_app = sample_exit_config" by (simp add: app_config_of_def member_app_def create_app_def new_store_def)
  from create_edit obtain c where c: "?ed (app_config_of member_app) = Inr c" "validate_config c = []" "cfg_gateways c = []" "length (cfg_peers c) = 2"
    unfolding cfg by (auto split: sum.splits)
  then have g: "fst (ensure_gateway_tables c) = c" using ensure_idem [of c] by simp
  obtain b err where w: "write_edit create_context ?ed member_app = (b, err)" by (cases "write_edit create_context ?ed member_app")
  have ok: "is_applied err" using write_edit_accepted [of ?ed member_app c create_context] c g create_files w by simp
  with write_edit_result [OF w] c g have n: "app_config_of b \<noteq> app_config_of member_app" by (auto simp: cfg sample_exit_config_def)
  let ?r = "answer ''peers-list'' (422, failure err ''peer-form'') (422, failure err ''peer-form'') err"
  have st: "re_status ?r = 200" using ok by (auto simp: answer_def reply_def is_applied_def split: option.splits write_error.splits)
  have "peer_create create_context member_request create_moment member_app = (b, ?r)"
    using w by (simp add: peer_create_def member_request_def create_request_def plain_request_def create_moment_def sample_moment_def
        form_on_def form_value_def edit_and_answer_def)
  moreover have m: "rq_method member_request = ''POST''" "rq_escaped member_request = ''/peers''" "rq_cookie member_request = Some ''t''"
    by (simp_all add: member_request_def create_request_def plain_request_def)
  moreover have "require_auth h member_request create_moment member_app = h member_app" for h
    by (rule live_cookie_passes [of _ "''t''" "\<lparr>ses_created = 0, ses_expires = 100\<rparr>"]) (simp_all add: m member_app_def create_moment_def sample_moment_def)
  ultimately have "serve create_context member_request create_moment member_app =
      (audit_mutation (cx_stamp create_context) member_request create_moment 200 b, ?r)"
    by (simp add: serve_def dispatch_def member_route handle_def st)
  moreover from this have "app_config_of (fst (serve create_context member_request create_moment member_app)) \<noteq> app_config_of member_app"
    using n by (simp add: audit_mutation_def)
  moreover have "readers create_context" by (simp add: readers_def create_context_def sample_context_def)
  ultimately show ?thesis
    using changes_are_audited [of create_context member_request create_moment member_app _ ?r] m st member_route(2)
    by (simp add: create_moment_def sample_moment_def)
qed

end
