(* ===== verification/Slices.thy ===== *)
theory Slices
  imports Prelude "HOL-Library.Multiset"
begin

text \<open>
  \<^verbatim>\<open>sort.Slice\<close> as insertion by a comparison function, for every component that sorts.  The
  lemmas say that nothing is lost and that a comparison by a key sorts by that key.
\<close>

section \<open>sort.Slice\<close>

text \<open>\<^verbatim>\<open>sort.Slice\<close>, with ties in their old order (Go leaves the order of ties open).\<close>

fun insert_by :: "('a \<Rightarrow> 'a \<Rightarrow> bool) \<Rightarrow> 'a \<Rightarrow> 'a list \<Rightarrow> 'a list" where
  "insert_by lt x [] = [x]"
| "insert_by lt x (y # ys) = (if lt y x then y # insert_by lt x ys else x # y # ys)"

definition sort_slice :: "('a \<Rightarrow> 'a \<Rightarrow> bool) \<Rightarrow> 'a list \<Rightarrow> 'a list" where
  "sort_slice lt xs = foldr (insert_by lt) xs []"

lemma sort_slice_simps [simp]: "sort_slice lt [] = []" "sort_slice lt (x # xs) = insert_by lt x (sort_slice lt xs)"
  by (simp_all add: sort_slice_def)

lemma mset_insert_by [simp]: "mset (insert_by lt x xs) = add_mset x (mset xs)"
  by (induction xs) auto

lemma mset_sort_slice [simp]: "mset (sort_slice lt xs) = mset xs"
  by (induction xs) auto

lemma set_insert_by [simp]: "set (insert_by lt x xs) = insert x (set xs)"
  using mset_insert_by [of lt x xs] by (metis set_mset_add_mset_insert set_mset_mset)

lemma set_sort_slice [simp]: "set (sort_slice lt xs) = set xs"
  by (metis mset_sort_slice set_mset_mset)

text \<open>A comparison by a key sorts by that key, strictly when no two elements share it.\<close>

lemma insert_by_sorted:
  "sorted_wrt (\<lambda>a b. k a \<le> (k b :: 'k :: linorder)) xs \<Longrightarrow>
   \<forall>a \<in> insert x (set xs). \<forall>b \<in> insert x (set xs). lt a b \<longleftrightarrow> k a < k b \<Longrightarrow>
   sorted_wrt (\<lambda>a b. k a \<le> k b) (insert_by lt x xs)"
proof (induction xs)
  case (Cons y ys)
  then show ?case by (cases "k y < k x") (auto simp: not_less intro: order_trans)
qed simp

lemma sort_slice_sorted:
  "\<forall>a \<in> set xs. \<forall>b \<in> set xs. lt a b \<longleftrightarrow> k a < (k b :: 'k :: linorder) \<Longrightarrow>
   sorted_wrt (\<lambda>a b. k a \<le> k b) (sort_slice lt xs)"
  by (induction xs) (auto intro!: insert_by_sorted)

lemma sort_slice_strict:
  assumes "distinct (map k xs)" "\<forall>a \<in> set xs. \<forall>b \<in> set xs. lt a b \<longleftrightarrow> k a < (k b :: 'k :: linorder)"
  shows "sorted_wrt (\<lambda>a b. k a < k b) (sort_slice lt xs)"
proof -
  have "mset (map k (sort_slice lt xs)) = mset (map k xs)" by simp
  then have d: "distinct (map k (sort_slice lt xs))" using assms(1) mset_eq_imp_distinct_iff by blast
  have "sorted (map k (sort_slice lt xs))" using sort_slice_sorted [OF assms(2)] by (simp add: sorted_map)
  with d have "sorted_wrt (<) (map k (sort_slice lt xs))" by (simp add: strict_sorted_iff)
  then show ?thesis by (simp add: sorted_wrt_map)
qed

text \<open>The contract of a comparison function: it compares by a key.\<close>

locale key_order =
  fixes before :: "'a \<Rightarrow> 'a \<Rightarrow> bool" and key :: "'a \<Rightarrow> 'k :: linorder"
  assumes before_key: "before a b \<longleftrightarrow> key a < key b"
begin

lemma sort_sorted: "sorted (map key (sort_slice before xs))"
  unfolding sorted_map by (rule sort_slice_sorted) (simp add: before_key)

lemma sort_pairs: "sorted_wrt (\<lambda>a b. key a \<le> key b) (sort_slice before xs)"
  by (rule sort_slice_sorted) (simp add: before_key)

end

end
