(* ===== verification/Discovery.thy ===== *)
theory Discovery
  imports Ipam Slices "HOL-Library.List_Lexorder" "HOL-Library.Char_ord"
begin

text \<open>
  The search for devices behind a peer, \<^verbatim>\<open>internal/network/discovery.go\<close>: the networks
  to scan are read from the request, the peer and the routing table, their host addresses are
  enumerated, each is pinged, and the answers are sorted by address.  What the host answers (the
  output of \<^verbatim>\<open>ip route\<close>, the pings, the reverse lookups, the clock) and the order in
  which the probes finish are arguments.  The lemmas read addresses as numbers, so that the
  enumeration is an interval without its two ends and the order is the numeric one.
\<close>

section \<open>Networks of a peer\<close>

definition max_scan_hosts :: nat where
  "max_scan_hosts = 1024"

definition network_separator :: "char \<Rightarrow> bool" where
  "network_separator c \<longleftrightarrow> c \<in> {CHR '','', CHR '';'', CHR '' ''} \<or> ccode c \<in> {9, 10, 13}"

definition split_networks :: "string \<Rightarrow> string list" where
  "split_networks v = (if trim_space v = [] then [] else fields_func network_separator [] v)"

definition unique_strings :: "string list \<Rightarrow> string list" where
  "unique_strings vs = dedup (filter (\<lambda>v. v \<noteq> []) (map trim_space vs))"

definition non_host_ipv4_networks :: "string \<Rightarrow> string list" where
  "non_host_ipv4_networks value =
     unique_strings (List.map_filter (\<lambda>raw.
       case parse_cidr (trim_space raw) of
         None \<Rightarrow> None
       | Some (ip, n) \<Rightarrow> if to4 ip \<noteq> None \<and> net_bits n = 32 \<and> net_ones n < 32 then Some (ipnet_string n) else None)
       (split_networks value))"

text \<open>The host addresses of the peer; a source of one address has no slash and does not parse.\<close>

definition tunnel_addresses :: "peer \<Rightarrow> string list" where
  "tunnel_addresses p =
     List.map_filter (\<lambda>s.
       case parse_cidr s of
         None \<Rightarrow> None
       | Some (ip, n) \<Rightarrow>
           (case to4 ip of
              None \<Rightarrow> None
            | Some b \<Rightarrow> if net_bits n = 32 \<and> net_ones n = 32 then Some (ip_string b) else None))
       (peer_sources (p_allowed_ips p))"

definition route_line_network :: "string list \<Rightarrow> string \<Rightarrow> string option" where
  "route_line_network own line =
     (case go_fields line of
        [] \<Rightarrow> None
      | candidate # _ \<Rightarrow>
          if candidate = ''default'' \<or> CHR ''/'' \<notin> set candidate then None
          else (case parse_cidr candidate of
                  None \<Rightarrow> None
                | Some (ip, n) \<Rightarrow>
                    (case to4 ip of
                       None \<Rightarrow> None
                     | Some b \<Rightarrow>
                         if net_bits n \<noteq> 32 then None
                         else if net_ones n = 32 \<and> ip_string b \<in> set own then None
                         else if 30 < net_ones n then None else Some (ipnet_string n))))"

text \<open>The output of \<^verbatim>\<open>ip route\<close>, or nothing when the command fails.\<close>

definition linux_wg_networks :: "string option \<Rightarrow> peer \<Rightarrow> string list" where
  "linux_wg_networks out p =
     (case out of
        None \<Rightarrow> []
      | Some text \<Rightarrow> unique_strings (List.map_filter (route_line_network (tunnel_addresses p)) (split_char (char_of (10 :: nat)) text)))"

fun ipv4_networks_loop :: "string list \<Rightarrow> string list \<Rightarrow> ipnet list" where
  "ipv4_networks_loop seen [] = []"
| "ipv4_networks_loop seen (raw # raws) =
     (case parse_cidr (trim_space raw) of
        None \<Rightarrow> ipv4_networks_loop seen raws
      | Some (_, n) \<Rightarrow>
          if to4 (net_ip n) = None \<or> net_bits n \<noteq> 32 \<or> 30 < net_ones n then ipv4_networks_loop seen raws
          else if ipnet_string n \<in> set seen then ipv4_networks_loop seen raws
          else n # ipv4_networks_loop (ipnet_string n # seen) raws)"

definition parse_ipv4_networks :: "string list \<Rightarrow> ipnet list" where
  "parse_ipv4_networks raws = ipv4_networks_loop [] raws"

definition scan_networks :: "string option \<Rightarrow> peer \<Rightarrow> string \<Rightarrow> ipnet list" where
  "scan_networks routes_out p explicit =
     (let raws = (if trim_space explicit \<noteq> [] then split_networks explicit else p_advertised p) @ linux_wg_networks routes_out p in
      parse_ipv4_networks (if raws = [] then non_host_ipv4_networks (p_allowed_ips p) else raws))"

definition peer_address_summary :: "peer \<Rightarrow> string" where
  "peer_address_summary p =
     (let as = filter (\<lambda>s. CHR '':'' \<notin> set s) (peer_sources (p_allowed_ips p)) in
      if as = [] then ''unbekannt'' else join '', '' as)"

section \<open>Hosts\<close>

definition u32_bytes :: "u32 \<Rightarrow> byte list" where
  "u32_bytes v = [ucast (drop_bit 24 v), ucast (drop_bit 16 v), ucast (drop_bit 8 v), ucast v]"

definition network_base :: "ipnet \<Rightarrow> u32" where
  "network_base n =
     (case net_ip n of
        [a, b, c, d] \<Rightarrow> or (or (or (push_bit 24 (ucast a)) (push_bit 16 (ucast b))) (push_bit 8 (ucast c))) (ucast d)
      | _ \<Rightarrow> 0)"

definition host_count :: "ipnet \<Rightarrow> nat" where
  "host_count n = 2 ^ (net_bits n - net_ones n)"

definition network_hosts :: "ipnet \<Rightarrow> string list" where
  "network_hosts n = map (\<lambda>i. ip_string (u32_bytes (network_base n + of_nat i))) [1..<host_count n - 1]"

datatype scan_error = No_Network string | Too_Large string

fun all_hosts :: "ipnet list \<Rightarrow> scan_error + string list" where
  "all_hosts [] = Inr []"
| "all_hosts (n # ns) =
     (if net_bits n \<noteq> 32 \<or> 30 < net_ones n then all_hosts ns
      else if max_scan_hosts < host_count n then Inl (Too_Large (ipnet_string n))
      else (case all_hosts ns of Inl e \<Rightarrow> Inl e | Inr hs \<Rightarrow> Inr (network_hosts n @ hs)))"

section \<open>Probes\<close>

text \<open>Which hosts answer, their names, and the order in which the answers arrive.\<close>

record prober =
  pr_ping :: "string \<Rightarrow> bool"
  pr_names :: "string \<Rightarrow> string list option"
  pr_order :: "string list \<Rightarrow> string list"
  pr_now :: gotime

definition trim_suffix_dot :: "string \<Rightarrow> string" where
  "trim_suffix_dot s = (if s \<noteq> [] \<and> last s = CHR ''.'' then butlast s else s)"

definition found_device :: "prober \<Rightarrow> string \<Rightarrow> net_device" where
  "found_device pr ip =
     \<lparr>nd_ip = ip, nd_mac = [], nd_hostname = (case pr_names pr ip of Some (n # _) \<Rightarrow> trim_suffix_dot n | _ \<Rightarrow> []),
      nd_vendor = [], nd_interface = [], nd_online = True, nd_last_seen = pr_now pr\<rparr>"

fun bytes_less :: "byte list \<Rightarrow> byte list \<Rightarrow> bool" where
  "bytes_less (x # xs) (y # ys) = (if x \<noteq> y then x < y else bytes_less xs ys)"
| "bytes_less _ _ = False"

definition ip_less :: "string \<Rightarrow> string \<Rightarrow> bool" where
  "ip_less a b =
     (case (Option.bind (parse_ip a) to4, Option.bind (parse_ip b) to4) of
        (Some x, Some y) \<Rightarrow> bytes_less x y
      | _ \<Rightarrow> a < b)"

definition scan_peer :: "prober \<Rightarrow> string option \<Rightarrow> peer \<Rightarrow> string \<Rightarrow> scan_error + net_device list" where
  "scan_peer pr routes_out p explicit =
     (let ns = scan_networks routes_out p explicit in
      if ns = [] then Inl (No_Network (peer_address_summary p))
      else case all_hosts ns of
             Inl e \<Rightarrow> Inl e
           | Inr hs \<Rightarrow> Inr (sort_slice (\<lambda>a b. ip_less (nd_ip a) (nd_ip b))
               (map (found_device pr) (pr_order pr (filter (pr_ping pr) (dedup hs))))))"

section \<open>Addresses as numbers\<close>

lemma byte_of_u32: "unat (ucast (drop_bit k (v :: u32)) :: byte) = unat v div 2 ^ k mod 256"
proof -
  have "unat v < 2 ^ 32" using unsigned_less [of v] by simp
  then have "unat v mod 4294967296 = unat v" by simp
  then show ?thesis
    unfolding unsigned_ucast_eq unsigned_drop_bit_eq by (simp add: drop_bit_eq_div take_bit_eq_mod)
qed

lemma base_256: "w < 2 ^ 32 \<Longrightarrow>
  w div 2 ^ 24 mod 256 * 2 ^ 24 + w div 2 ^ 16 mod 256 * 2 ^ 16 + w div 2 ^ 8 mod 256 * 2 ^ 8 + w mod 256 = (w :: nat)"
proof -
  assume w: "w < 2 ^ 32"
  let ?x = "w div 256" let ?y = "?x div 256" let ?z = "?y div 256"
  have e: "w div 2 ^ 8 = ?x" "w div 2 ^ 16 = ?y" "w div 2 ^ 24 = ?z" "?z mod 256 = ?z"
    using w by (simp_all flip: div_mult2_eq)
  have "w = ?x * 256 + w mod 256" "?x = ?y * 256 + ?x mod 256" "?y = ?z * 256 + ?y mod 256"
    by (simp_all only: div_mult_mod_eq)
  moreover have "a * 2 ^ 24 + b * 2 ^ 16 + c * 2 ^ 8 + d = w"
    if "w = x * 256 + d" "x = y * 256 + c" "y = a * 256 + b" for a b c d x y using that by simp
  ultimately show ?thesis unfolding e by blast
qed

lemma u32_bytes_base:
  "u32_bytes (or (or (or (push_bit 24 (ucast a)) (push_bit 16 (ucast b))) (push_bit 8 (ucast c))) (ucast d)) = [a, b, c, d]"
proof -
  have "\<not> bit x (k + n)" if "8 \<le> k" for x :: byte and k n
    using that by (auto dest: bit_imp_le_length)
  then show ?thesis
    unfolding u32_bytes_def list.inject
    by (intro conjI refl bit_word_eqI) (simp_all add: bit_simps)
qed

lemma bytes_less_val: "length x = length y \<Longrightarrow> bytes_less x y \<longleftrightarrow> bytes_val x < bytes_val y"
proof (induction x y rule: list_induct2)
  case (Cons x xs y ys)
  have a: "bytes_val xs < 256 ^ length ys" "bytes_val ys < 256 ^ length ys"
    using bytes_val_less [of xs] bytes_val_less [of ys] Cons.hyps by simp_all
  have m: "unat u * 256 ^ length ys + p < unat v * 256 ^ length ys + q"
    if "unat u < unat v" "p < 256 ^ length ys" for u v :: byte and p q :: nat
  proof -
    have "unat u * 256 ^ length ys + p < (unat u + 1) * 256 ^ length ys" using that(2) by simp
    also have "\<dots> \<le> unat v * 256 ^ length ys" using that(1) by (intro mult_right_mono) auto
    finally show ?thesis by simp
  qed
  show ?case
  proof (cases "x = y")
    case False
    then consider "unat x < unat y" | "unat y < unat x" by (metis linorder_neqE_nat word_unat_eq_iff)
    then show ?thesis
      using Cons.hyps a m [of x y "bytes_val xs" "bytes_val ys"] m [of y x "bytes_val ys" "bytes_val xs"] False
      by cases (simp_all add: word_less_nat_alt)
  qed (use Cons in simp)
qed simp

lemma u32_bytes_length [simp]: "length (u32_bytes v) = 4"
  by (simp add: u32_bytes_def)

lemma bytes_val_u32 [simp]: "bytes_val (u32_bytes v) = unat v"
proof -
  have "bytes_val (u32_bytes v) =
    unat v div 2 ^ 24 mod 256 * 2 ^ 24 + unat v div 2 ^ 16 mod 256 * 2 ^ 16 + unat v div 2 ^ 8 mod 256 * 2 ^ 8 + unat v mod 256"
    using byte_of_u32 [of 0 v] by (simp add: u32_bytes_def byte_of_u32)
  also have "\<dots> = unat v" using unsigned_less [of v] by (intro base_256) simp
  finally show ?thesis .
qed

lemma network_base_val:
  assumes "length (net_ip n) = 4"
  shows "unat (network_base n) = bytes_val (net_ip n)"
proof -
  obtain a b c d where "net_ip n = [a, b, c, d]"
    using assms by (auto simp: length_Suc_conv numeral_eq_Suc)
  then show ?thesis unfolding bytes_val_u32 [symmetric] network_base_def by (simp add: u32_bytes_base del: bytes_val_u32)
qed

lemma ip_less_printed:
  assumes "length a = 4" "length b = 4"
  shows "ip_less (ip_string a) (ip_string b) \<longleftrightarrow> bytes_val a < bytes_val b"
  using assms by (simp add: ip_less_def parse_ip_ip_string ip_canon_def bytes_less_val)

section \<open>The hosts of a network\<close>

text \<open>Networks that \<^verbatim>\<open>ParseCIDR\<close> returned: the number has no host bits.\<close>

definition lan_net :: "ipnet \<Rightarrow> bool" where
  "lan_net n \<longleftrightarrow> v4_net n \<and> net_ones n \<le> 30 \<and> bytes_val (net_ip n) mod 2 ^ (32 - net_ones n) = 0"

lemma parse_cidr_aligned:
  assumes "parse_cidr s = Some (ip, n)" "net_bits n = 32"
  shows "bytes_val (net_ip n) mod 2 ^ (32 - net_ones n) = 0"
  using assms by (rule parse_cidr_v4E) (simp add: cidr_mask_def bytes_val_mask)

lemma ipv4_networks_lan: "n \<in> set (ipv4_networks_loop seen raws) \<Longrightarrow> lan_net n"
proof (induction seen raws rule: ipv4_networks_loop.induct)
  case (2 seen raw raws)
  show ?case
  proof (cases "parse_cidr (trim_space raw)")
    case None
    with 2 show ?thesis by simp
  next
    case (Some r)
    obtain ip m where r: "r = (ip, m)" by (cases r)
    have "lan_net m" if "net_bits m = 32" "net_ones m \<le> 30"
      using that parse_cidr_ok [of "trim_space raw" ip m] parse_cidr_aligned [of "trim_space raw" ip m] Some r
      by (simp add: lan_net_def v4_net_def)
    with 2 Some r show ?thesis by (cases "to4 (net_ip m) = None \<or> net_bits m \<noteq> 32 \<or> 30 < net_ones m") (auto split: if_splits)
  qed
qed simp

lemma scan_networks_lan: "n \<in> set (scan_networks out p ex) \<Longrightarrow> lan_net n"
  by (auto simp: scan_networks_def parse_ipv4_networks_def Let_def dest: ipv4_networks_lan)

definition host_part :: "ipnet \<Rightarrow> byte list \<Rightarrow> nat" where
  "host_part n b = bytes_val b mod 2 ^ (32 - net_ones n)"

definition scan_host :: "ipnet \<Rightarrow> byte list \<Rightarrow> bool" where
  "scan_host n b \<longleftrightarrow> length b = 4 \<and> net_contains n b
     \<and> host_part n b \<noteq> 0 \<and> host_part n b \<noteq> 2 ^ (32 - net_ones n) - 1"

lemma network_hosts_set:
  assumes "lan_net n"
  shows "set (network_hosts n) = ip_string ` {b. scan_host n b}"
proof -
  let ?k = "32 - net_ones n" let ?B = "bytes_val (net_ip n)"
  from assms have n: "v4_net n" "length (net_ip n) = 4" "net_bits n = 32" "?B mod 2 ^ ?k = 0"
    by (auto simp: lan_net_def v4_net_def ipnet_ok_def)
  have c: "host_count n = 2 ^ ?k" by (simp add: host_count_def n(3))
  have val: "unat (network_base n + of_nat i) = ?B + i" if "i < 2 ^ ?k" for i
  proof -
    have "?B = ?B div 2 ^ ?k * 2 ^ ?k" using n(4) by (metis add.right_neutral div_mult_mod_eq)
    moreover have "?B < 2 ^ ?k * 2 ^ (32 - ?k)" using bytes_val_less [of "net_ip n"] n(2) by (simp flip: power_add)
    then have "?B div 2 ^ ?k < 2 ^ (32 - ?k)" by (simp add: less_mult_imp_div_less mult.commute)
    ultimately have "?B + i < (?B div 2 ^ ?k + 1) * 2 ^ ?k" using that by simp
    also have "\<dots> \<le> 2 ^ (32 - ?k) * 2 ^ ?k" using \<open>?B div 2 ^ ?k < _\<close> by (intro mult_right_mono) auto
    finally have s: "?B + i < 2 ^ 32" by (simp flip: power_add)
    then have "network_base n + of_nat i = of_nat (?B + i)"
      by (simp flip: network_base_val [OF n(2)])
    moreover have "unat (of_nat (?B + i) :: u32) = ?B + i" using s by (subst unat_of_nat) simp
    ultimately show ?thesis by simp
  qed
  have host: "scan_host n (u32_bytes (network_base n + of_nat i))" if "1 \<le> i" "i < 2 ^ ?k - 1" for i
  proof -
    have l: "i < 2 ^ ?k" using that by linarith
    have "(?B + i) mod 2 ^ ?k = i" using l n(4) by (simp add: mod_add_left_eq [symmetric])
    moreover have "(?B + i) div 2 ^ ?k = ?B div 2 ^ ?k" using l n(4) by (simp add: div_add1_eq)
    ultimately show ?thesis using that val [OF l] by (simp add: scan_host_def host_part_def contains_v4_iff [OF n(1)])
  qed
  have onto: "\<exists>i. 1 \<le> i \<and> i < 2 ^ ?k - 1 \<and> b = u32_bytes (network_base n + of_nat i)" if b: "scan_host n b" for b
  proof -
    let ?i = "host_part n b"
    have l: "?i < 2 ^ ?k" by (simp add: host_part_def)
    have "bytes_val b = ?B + ?i"
      using b n(4) contains_v4_iff [OF n(1), of b] div_mult_mod_eq [of ?B "2 ^ ?k"] div_mult_mod_eq [of "bytes_val b" "2 ^ ?k"]
      by (simp add: scan_host_def host_part_def)
    then have "b = u32_bytes (network_base n + of_nat ?i)"
      using b val [OF l] by (simp add: scan_host_def flip: bytes_val_inj)
    moreover have "1 \<le> ?i" "?i < 2 ^ ?k - 1" using b l by (auto simp: scan_host_def)
    ultimately show ?thesis by blast
  qed
  have "set (network_hosts n) = ip_string ` (\<lambda>i. u32_bytes (network_base n + of_nat i)) ` {1..<2 ^ ?k - 1}"
    by (auto simp: network_hosts_def c)
  also have "(\<lambda>i. u32_bytes (network_base n + of_nat i)) ` {1..<2 ^ ?k - 1} = {b. scan_host n b}"
    using host onto by fastforce
  finally show ?thesis .
qed

lemma host_count_limit:
  assumes "lan_net n"
  shows "max_scan_hosts < host_count n \<longleftrightarrow> net_ones n < 22"
proof -
  have "host_count n = 2 ^ (32 - net_ones n)" using assms by (simp add: host_count_def lan_net_def v4_net_def)
  moreover have "(2 :: nat) ^ 10 < 2 ^ (32 - net_ones n) \<longleftrightarrow> 10 < 32 - net_ones n"
    by (rule power_strict_increasing_iff) simp
  ultimately show ?thesis by (simp add: max_scan_hosts_def) linarith
qed

lemma all_hosts_spec:
  "\<forall>n \<in> set ns. lan_net n \<Longrightarrow>
   (case all_hosts ns of
      Inl e \<Rightarrow> \<exists>n \<in> set ns. net_ones n < 22
    | Inr hs \<Rightarrow> (\<forall>n \<in> set ns. 22 \<le> net_ones n)
        \<and> set hs = ip_string ` {b. \<exists>n \<in> set ns. scan_host n b} \<and> length hs \<le> 1022 * length ns)"
proof (induction ns)
  case (Cons n ns)
  then have n: "lan_net n" "net_bits n = 32" "net_ones n \<le> 30" by (auto simp: lan_net_def v4_net_def)
  have "length (network_hosts n) \<le> 1022" if "22 \<le> net_ones n"
  proof -
    have "host_count n \<le> 1024"
      using host_count_limit [OF n(1)] that by (simp add: max_scan_hosts_def)
    then show ?thesis by (simp add: network_hosts_def)
  qed
  with Cons n show ?case
    by (auto simp: host_count_limit network_hosts_set not_less split: sum.splits)
qed simp

definition device_number :: "net_device \<Rightarrow> nat" where
  "device_number d = (case Option.bind (parse_ip (nd_ip d)) to4 of None \<Rightarrow> 0 | Some b \<Rightarrow> bytes_val b)"

lemma device_number_found [simp]: "length b = 4 \<Longrightarrow> device_number (found_device pr (ip_string b)) = bytes_val b"
  by (simp add: device_number_def found_device_def parse_ip_ip_string ip_canon_def)

lemma found_devices_sorted:
  assumes "distinct ips" "set ips \<subseteq> ip_string ` {b. length b = 4}"
  shows "sorted_wrt (\<lambda>a b. ip_less (nd_ip a) (nd_ip b))
    (sort_slice (\<lambda>a b. ip_less (nd_ip a) (nd_ip b)) (map (found_device pr) ips))" (is "sorted_wrt ?lt (sort_slice _ ?ds)")
proof -
  have lt: "?lt a b \<longleftrightarrow> device_number a < device_number b" if d: "a \<in> set ?ds" "b \<in> set ?ds" for a b
  proof -
    from d obtain s t where st: "a = found_device pr s" "b = found_device pr t" "s \<in> set ips" "t \<in> set ips" by auto
    with assms(2) obtain x y where "length x = 4" "length y = 4" "s = ip_string x" "t = ip_string y" by blast
    with st(1,2) have "length x = 4" "length y = 4"
      "a = found_device pr (ip_string x)" "b = found_device pr (ip_string y)" by simp_all
    then show ?thesis using ip_less_printed [of x y] device_number_found by (simp add: found_device_def)
  qed
  have "inj_on (\<lambda>s. device_number (found_device pr s)) (set ips)"
  proof (rule inj_onI)
    fix s t assume st: "s \<in> set ips" "t \<in> set ips"
      "device_number (found_device pr s) = device_number (found_device pr t)"
    with assms(2) obtain x y where "length x = 4" "length y = 4" "s = ip_string x" "t = ip_string y" by blast
    with st(3) show "s = t" by (metis bytes_val_inj device_number_found)
  qed
  then have "distinct (map device_number ?ds)" using assms(1) by (simp add: distinct_map comp_def)
  then have "sorted_wrt (\<lambda>a b. device_number a < device_number b) (sort_slice ?lt ?ds)"
    using lt by (intro sort_slice_strict) auto
  then show ?thesis by (rule sorted_wrt_mono_rel [rotated]) (use lt in auto)
qed

section \<open>Properties\<close>

text \<open>C36: a scan is refused exactly when no network was found or one of them is larger than
  1024 addresses; otherwise it probes at most 1022 hosts per network.\<close>

theorem scan_bounded:
  "((\<exists>e. scan_peer pr out p ex = Inl e) \<longleftrightarrow>
     scan_networks out p ex = [] \<or> (\<exists>n \<in> set (scan_networks out p ex). net_ones n < 22)) \<and>
   length (case all_hosts (scan_networks out p ex) of Inl _ \<Rightarrow> [] | Inr hs \<Rightarrow> hs)
     \<le> 1022 * length (scan_networks out p ex)"
  using all_hosts_spec [of "scan_networks out p ex"] scan_networks_lan [of _ out p ex]
  by (auto simp: scan_peer_def Let_def not_less split: sum.splits)

text \<open>C33: whatever the order in which the probes finish, a scan returns, in strictly ascending
  address order, exactly the addresses that answered among those of the scanned networks whose
  host part is neither all zeros nor all ones.\<close>

theorem scan_exact:
  assumes "scan_peer pr out p ex = Inr ds" "\<forall>xs. mset (pr_order pr xs) = mset xs"
  shows "sorted_wrt (\<lambda>a b. ip_less (nd_ip a) (nd_ip b)) ds \<and>
    set ds = found_device pr ` {ip_string b | b n. n \<in> set (scan_networks out p ex) \<and> scan_host n b \<and> pr_ping pr (ip_string b)}"
proof -
  let ?ns = "scan_networks out p ex"
  from assms(1) obtain hs where hs: "all_hosts ?ns = Inr hs"
    and ds: "ds = sort_slice (\<lambda>a b. ip_less (nd_ip a) (nd_ip b)) (map (found_device pr) (pr_order pr (filter (pr_ping pr) (dedup hs))))"
    by (auto simp: scan_peer_def Let_def split: if_splits sum.splits)
  let ?ips = "pr_order pr (filter (pr_ping pr) (dedup hs))"
  have h: "set hs = ip_string ` {b. \<exists>n \<in> set ?ns. scan_host n b}"
    using all_hosts_spec [of ?ns] scan_networks_lan [of _ out p ex] hs by simp
  have m: "mset ?ips = mset (filter (pr_ping pr) (dedup hs))" using assms(2) by blast
  then have ips: "distinct ?ips" "set ?ips = {s \<in> set hs. pr_ping pr s}"
    using mset_eq_imp_distinct_iff [OF m] mset_eq_setD [OF m] by auto
  have "set ?ips \<subseteq> ip_string ` {b. length b = 4}" using ips(2) h by (auto simp: scan_host_def)
  from found_devices_sorted [OF ips(1) this] have "sorted_wrt (\<lambda>a b. ip_less (nd_ip a) (nd_ip b)) ds"
    unfolding ds .
  moreover have "set ds = found_device pr ` {s \<in> set hs. pr_ping pr s}" by (simp add: ds ips(2))
  moreover have "{s \<in> set hs. pr_ping pr s} = {ip_string b | b n. n \<in> set ?ns \<and> scan_host n b \<and> pr_ping pr (ip_string b)}"
    using h by auto
  ultimately show ?thesis by simp
qed

definition sample_scan :: prober where
  "sample_scan =
     \<lparr>pr_ping = (\<lambda>s. s = ''192.168.7.1'' \<or> s = ''192.168.7.3'' \<or> s = ''192.168.7.2''),
      pr_names = (\<lambda>s. if s = ''192.168.7.1'' then Some [''nas.''] else None), pr_order = rev, pr_now = 0\<rparr>"

lemma sample_scan_result:
  "scan_peer sample_scan (Some ''192.168.7.0/30 dev wg0'') zero_peer [] =
     Inr (map (found_device sample_scan) [''192.168.7.1'', ''192.168.7.2''])"
  by code_simp

theorem scan_exact_witness:
  "sorted_wrt (\<lambda>a b. ip_less (nd_ip a) (nd_ip b)) (map (found_device sample_scan) [''192.168.7.1'', ''192.168.7.2''])"
  using scan_exact [OF sample_scan_result] by (simp add: sample_scan_def)

text \<open>One installed route that is too large makes the scan of an explicit network fail.\<close>

lemma explicit_scan_blocked:
  "scan_peer pr (Some ''10.0.0.0/8 dev wg0'') zero_peer ''192.168.7.0/30'' = Inl (Too_Large ''10.0.0.0/8'')"
proof -
  have "scan_networks (Some ''10.0.0.0/8 dev wg0'') zero_peer ''192.168.7.0/30'' =
    [\<lparr>net_ip = [192, 168, 7, 0], net_ones = 30, net_bits = 32\<rparr>, \<lparr>net_ip = [10, 0, 0, 0], net_ones = 8, net_bits = 32\<rparr>]"
    by code_simp
  moreover have "ipnet_string \<lparr>net_ip = [10, 0, 0, 0], net_ones = 8, net_bits = 32\<rparr> = ''10.0.0.0/8''" by code_simp
  ultimately show ?thesis by (simp add: scan_peer_def max_scan_hosts_def host_count_def)
qed

end
