(* ===== verification/Zerotier.thy ===== *)
theory Zerotier
  imports Stats "HOL-Library.List_Lexorder" "HOL-Library.Char_ord"
begin

text \<open>
  \<^verbatim>\<open>internal/zerotier\<close>: the client of the local control API (\<^verbatim>\<open>client.go\<close>) and the
  supervisor of the ZeroTier service (\<^verbatim>\<open>zerotier.go\<close>).  A tick of the supervisor is cut at
  the points where the mutex is free, so that the other goroutines can act between its stages.
  The operating system and the service are a \<open>zt_host\<close>: its answers depend on everything that
  happened before, which is kept as a list of events.  A reply is given as what its JSON decodes
  to, and building a request from a validated network identifier does not fail.
\<close>

section \<open>What the control API reports\<close>

text \<open>A slice that distinguishes nil from empty, as \<^verbatim>\<open>reflect.DeepEqual\<close> does.\<close>

type_synonym 'a slice = "'a list option"

definition elems :: "'a slice \<Rightarrow> 'a list" where
  "elems s = the_default [] s"

record node_status =
  ns_address :: string
  ns_online :: bool
  ns_version :: string
  ns_tcp_fallback :: bool
  ns_clock :: int

record managed_route =
  mr_target :: string
  mr_via :: string
  mr_metric :: int

record pushed_dns =
  pd_domain :: string
  pd_servers :: "string slice"

record joined_network =
  jn_id :: string
  jn_name :: string
  jn_status :: string
  jn_type :: string
  jn_mac :: string
  jn_mtu :: int
  jn_bridge :: bool
  jn_broadcast :: bool
  jn_revision :: int
  jn_device :: string
  jn_port_error :: int
  jn_addresses :: "string slice"
  jn_routes :: "managed_route slice"
  jn_dns :: pushed_dns
  jn_managed :: bool
  jn_global :: bool
  jn_default :: bool
  jn_allow_dns :: bool

record node_path =
  np_address :: string
  np_last_send :: int
  np_last_receive :: int
  np_active :: bool
  np_expired :: bool
  np_preferred :: bool

record node_peer =
  no_address :: string
  no_version :: string
  no_role :: string
  no_latency :: int
  no_paths :: "node_path slice"

section \<open>The host\<close>

record zt_request =
  zr_method :: string
  zr_port :: u16
  zr_path :: string
  zr_token :: string
  zr_body :: "(string \<times> bool) list option"

text \<open>A response, with its body decoded into each of the three types the client asks for.\<close>

record zt_answer =
  za_code :: nat
  za_status :: string
  za_detail :: string
  za_as_status :: "string + node_status"
  za_as_networks :: "string + joined_network slice"
  za_as_peers :: "string + node_peer slice"

datatype zt_event =
    Configured zt_config
  | Restart_Asked
  | Attempted gotime "string list"
  | Spawned nat
  | Terminated nat
  | Killed nat
  | Reaped nat
  | Asked zt_request
  | Reconciled zt_config
  | Notified string

type_synonym history = "zt_event list"

record zt_host =
  zh_token :: "history \<Rightarrow> string + string"
  zh_daemon :: "history \<Rightarrow> string + zt_answer"
  zh_mkdir :: "history \<Rightarrow> string option"
  zh_tun :: "history \<Rightarrow> bool"
  zh_start :: "history \<Rightarrow> string + nat"
  zh_exits :: "history \<Rightarrow> bool"
  zh_counter :: "history \<Rightarrow> string \<Rightarrow> string \<Rightarrow> string option"

section \<open>The client\<close>

record zt_client =
  zc_home :: string
  zc_port :: u16
  zc_token :: string

definition new_client :: "string \<Rightarrow> u16 \<Rightarrow> zt_client" where
  "new_client home port = \<lparr>zc_home = home, zc_port = port, zc_token = []\<rparr>"

definition auth_token :: "string + string \<Rightarrow> zt_client \<Rightarrow> zt_client \<times> (string + string)" where
  "auth_token file c =
     (if zc_token c \<noteq> [] then (c, Inr (zc_token c))
      else case file of
             Inl e \<Rightarrow> (c, Inl (''reading authtoken.secret: '' @ e))
           | Inr data \<Rightarrow>
               let c1 = c\<lparr>zc_token := trim_space data\<rparr> in
               if zc_token c1 = [] then (c1, Inl ''authtoken.secret is empty'') else (c1, Inr (zc_token c1)))"

type_synonym talk = "zt_client \<times> history"

definition do_request :: "zt_host \<Rightarrow> string \<Rightarrow> string \<Rightarrow> (string \<times> bool) list option \<Rightarrow> talk \<Rightarrow> talk \<times> (string + zt_answer)" where
  "do_request host meth path body t =
     (case t of (c, log) \<Rightarrow>
        (case auth_token (zh_token host log) c of
           (c1, Inl e) \<Rightarrow> ((c1, log), Inl e)
         | (c1, Inr token) \<Rightarrow>
             let log1 = log @ [Asked \<lparr>zr_method = meth, zr_port = zc_port c, zr_path = path, zr_token = token, zr_body = body\<rparr>] in
             (case zh_daemon host log1 of
                Inl e \<Rightarrow> ((c1, log1), Inl (meth @ '' '' @ path @ '': '' @ e))
              | Inr a \<Rightarrow>
                  if 400 \<le> za_code a
                  then ((c1, log1), Inl (meth @ '' '' @ path @ '': '' @ za_status a @ '': '' @ trim_space (za_detail a)))
                  else ((c1, log1), Inr a))))"

definition decoded :: "string \<Rightarrow> (zt_answer \<Rightarrow> string + 'a) \<Rightarrow> talk \<times> (string + zt_answer) \<Rightarrow> talk \<times> (string + 'a)" where
  "decoded path field r =
     (case r of
        (t, Inl e) \<Rightarrow> (t, Inl e)
      | (t, Inr a) \<Rightarrow>
          (case field a of Inl e \<Rightarrow> (t, Inl (''decoding '' @ path @ '' response: '' @ e)) | Inr v \<Rightarrow> (t, Inr v)))"

definition client_status :: "zt_host \<Rightarrow> talk \<Rightarrow> talk \<times> (string + node_status)" where
  "client_status host t = decoded ''/status'' za_as_status (do_request host ''GET'' ''/status'' None t)"

definition client_networks :: "zt_host \<Rightarrow> talk \<Rightarrow> talk \<times> (string + joined_network slice)" where
  "client_networks host t = decoded ''/network'' za_as_networks (do_request host ''GET'' ''/network'' None t)"

definition client_peers :: "zt_host \<Rightarrow> talk \<Rightarrow> talk \<times> (string + node_peer slice)" where
  "client_peers host t = decoded ''/peer'' za_as_peers (do_request host ''GET'' ''/peer'' None t)"

definition client_join :: "zt_host \<Rightarrow> zt_network \<Rightarrow> talk \<Rightarrow> talk \<times> string option" where
  "client_join host n t =
     (case do_request host ''POST'' (''/network/'' @ to_lower (zn_id n))
        (Some [(''allowManaged'', zn_managed n), (''allowGlobal'', zn_global n), (''allowDefault'', zn_default n), (''allowDNS'', zn_dns n)]) t of
        (t1, Inl e) \<Rightarrow> (t1, Some e)
      | (t1, Inr _) \<Rightarrow> (t1, None))"

definition client_leave :: "zt_host \<Rightarrow> string \<Rightarrow> talk \<Rightarrow> talk \<times> string option" where
  "client_leave host i t =
     (case do_request host ''DELETE'' (''/network/'' @ to_lower i) None t of
        (t1, Inl e) \<Rightarrow> (t1, Some e)
      | (t1, Inr _) \<Rightarrow> (t1, None))"

section \<open>Reconciling the networks\<close>

fun join_all :: "zt_host \<Rightarrow> zt_network list \<Rightarrow> talk \<Rightarrow> talk \<times> string option" where
  "join_all host [] t = (t, None)"
| "join_all host (n # ns) t =
     (case client_join host n t of
        (t1, Some e) \<Rightarrow> (t1, Some (''joining '' @ zn_id n @ '': '' @ e))
      | (t1, None) \<Rightarrow> join_all host ns t1)"

fun leave_others :: "zt_host \<Rightarrow> string list \<Rightarrow> joined_network list \<Rightarrow> talk \<Rightarrow> talk \<times> string option" where
  "leave_others host wanted [] t = (t, None)"
| "leave_others host wanted (n # ns) t =
     (if to_lower (jn_id n) \<in> set wanted then leave_others host wanted ns t
      else (case client_leave host (jn_id n) t of
              (t1, Some e) \<Rightarrow> (t1, Some (''leaving '' @ jn_id n @ '': '' @ e))
            | (t1, None) \<Rightarrow> leave_others host wanted ns t1))"

definition reconcile_networks :: "zt_host \<Rightarrow> zt_config \<Rightarrow> talk \<Rightarrow> talk \<times> string option" where
  "reconcile_networks host z t =
     (case client_networks host t of
        (t1, Inl e) \<Rightarrow> (t1, Some e)
      | (t1, Inr joined) \<Rightarrow>
          (case join_all host (zt_networks z) t1 of
             (t2, Some e) \<Rightarrow> (t2, Some e)
           | (t2, None) \<Rightarrow> leave_others host (map (\<lambda>n. to_lower (zn_id n)) (zt_networks z)) (elems joined) t2))"

section \<open>The supervisor\<close>

record network_stats =
  nt_network :: joined_network
  nt_label :: string
  nt_rx :: int
  nt_tx :: int
  nt_rx_ps :: rate
  nt_tx_ps :: rate
  nt_has_rate :: bool

record zt_snapshot =
  sn_enabled :: bool
  sn_running :: bool
  sn_status :: "node_status option"
  sn_networks :: "network_stats slice"
  sn_peers :: "node_peer slice"
  sn_err :: string
  sn_service_err :: string
  sn_hint :: string

definition zero_snapshot :: zt_snapshot where
  "zero_snapshot = \<lparr>sn_enabled = False, sn_running = False, sn_status = None, sn_networks = None, sn_peers = None,
     sn_err = [], sn_service_err = [], sn_hint = []\<rparr>"

record traffic_sample =
  tr_rx :: int
  tr_tx :: int
  tr_at :: gotime

record supervisor =
  sv_home :: string
  sv_callback :: bool
  sv_gateway_sig :: string
  sv_desired :: zt_config
  sv_gen :: u64
  sv_applied :: u64
  sv_process :: "nat option"
  sv_exited :: bool
  sv_client :: "zt_client option"
  sv_port :: u16
  sv_last_start :: gotime
  sv_service_err :: string
  sv_hint :: string
  sv_snap :: zt_snapshot
  sv_revision :: u64
  sv_prev :: "string \<Rightarrow> traffic_sample option"

definition new_supervisor :: "string \<Rightarrow> supervisor" where
  "new_supervisor home = \<lparr>sv_home = home, sv_callback = False, sv_gateway_sig = [], sv_desired = zero_zerotier, sv_gen = 0,
     sv_applied = 0, sv_process = None, sv_exited = False, sv_client = None, sv_port = 0, sv_last_start = 0,
     sv_service_err = [], sv_hint = [], sv_snap = zero_snapshot, sv_revision = 0, sv_prev = (\<lambda>_. None)\<rparr>"

definition restart_backoff :: gotime where
  "restart_backoff = 15 * second"

definition tun_device :: string where
  "tun_device = ''/dev/net/tun''"

definition tun_hint :: string where
  "tun_hint = ''The container cannot access '' @ tun_device @ ''. Add `devices: [/dev/net/tun:/dev/net/tun]` to compose.yml (or `--device /dev/net/tun` to docker run) and restart the container.''"

text \<open>\<^verbatim>\<open>serviceLog.Write\<close>: no other character upper-cases to a letter of the two words.\<close>

definition service_line :: "string \<Rightarrow> supervisor \<Rightarrow> supervisor" where
  "service_line raw s =
     (let line = trim_space raw in
      if line = [] \<or> \<not> contains_str (to_lower line) ''error'' then s
      else s\<lparr>sv_service_err := line, sv_hint := (if contains_str (to_lower line) ''tun/tap'' then tun_hint else sv_hint s)\<rparr>)"

definition service_output :: "string \<Rightarrow> supervisor \<Rightarrow> supervisor" where
  "service_output out s = fold service_line (split_char (char_of (10 :: nat)) out) s"

definition on_gateways_changed :: "bool \<Rightarrow> supervisor \<Rightarrow> supervisor" where
  "on_gateways_changed f s = s\<lparr>sv_callback := f\<rparr>"

definition network_gateways :: "network_stats list \<Rightarrow> gateway_net list" where
  "network_gateways ns =
     concat (map (\<lambda>n. if jn_device (nt_network n) = [] then []
       else map (\<lambda>a. \<lparr>gn_device = jn_device (nt_network n), gn_cidr = a\<rparr>) (elems (jn_addresses (nt_network n)))) ns)"

definition gateway_signature :: "gateway_net list \<Rightarrow> string" where
  "gateway_signature nets = join '','' (sort (map (\<lambda>n. gn_device n @ ''='' @ gn_cidr n) nets))"

definition notify_gateway_change :: "gateway_net list \<Rightarrow> supervisor \<times> history \<Rightarrow> supervisor \<times> history" where
  "notify_gateway_change nets x =
     (case x of (s, log) \<Rightarrow>
        let sig = gateway_signature nets in
        (s\<lparr>sv_gateway_sig := sig\<rparr>, log @ (if sig \<noteq> sv_gateway_sig s \<and> sv_callback s then [Notified sig] else [])))"

definition zt_configure :: "app_config \<Rightarrow> supervisor \<Rightarrow> supervisor" where
  "zt_configure cfg s = s\<lparr>sv_desired := cfg_zerotier cfg, sv_gen := sv_gen s + 1\<rparr>"

definition set_snapshot :: "zt_snapshot \<Rightarrow> supervisor \<Rightarrow> supervisor" where
  "set_snapshot snap0 s =
     (let snap = (if sn_enabled snap0 then snap0\<lparr>sn_service_err := sv_service_err s, sn_hint := sv_hint s\<rparr> else snap0) in
      s\<lparr>sv_snap := snap, sv_revision := (if snap \<noteq> sv_snap s then sv_revision s + 1 else sv_revision s)\<rparr>)"

definition snapshot_version :: "supervisor \<Rightarrow> zt_snapshot \<times> u64" where
  "snapshot_version s = (sv_snap s, sv_revision s)"

text \<open>The long poll: it returns at once when the revision is not the current one, and otherwise when
  a change wakes it, or not at all within the timeout.\<close>

definition wait_for_change :: "u64 \<Rightarrow> bool \<Rightarrow> supervisor \<Rightarrow> bool" where
  "wait_for_change revision woken s = (if revision \<noteq> sv_revision s then True else woken)"

definition zt_gateway_nets :: "supervisor \<Rightarrow> gateway_net list" where
  "zt_gateway_nets s = network_gateways (elems (sn_networks (fst (snapshot_version s))))"

subsection \<open>The process\<close>

definition clear_process :: "supervisor \<Rightarrow> supervisor" where
  "clear_process s = s\<lparr>sv_process := None, sv_exited := False, sv_service_err := [], sv_hint := [], sv_client := None, sv_port := 0\<rparr>"

text \<open>A process whose exit was seen is not signalled; one that ignores the signal is killed.\<close>

definition stop_service :: "zt_host \<Rightarrow> supervisor \<times> history \<Rightarrow> supervisor \<times> history" where
  "stop_service host x =
     (case x of (s, log) \<Rightarrow>
        (case sv_process s of
           None \<Rightarrow> (s, log)
         | Some pid \<Rightarrow>
             (clear_process s,
              if sv_exited s then log
              else let log1 = log @ [Terminated pid] in log1 @ [if zh_exits host log1 then Reaped pid else Killed pid])))"

text \<open>The first part of \<^verbatim>\<open>ensureRunning\<close>: a dead process is forgotten, one on another port is stopped.\<close>

definition drop_stale :: "zt_host \<Rightarrow> u16 \<Rightarrow> supervisor \<times> history \<Rightarrow> supervisor \<times> history" where
  "drop_stale host port x =
     (case x of (s, log) \<Rightarrow>
        if sv_process s = None then (s, log)
        else if sv_exited s then (clear_process s, log)
        else if sv_port s \<noteq> port then (case stop_service host (s, log) of (s1, log1) \<Rightarrow> (s1\<lparr>sv_applied := 0\<rparr>, log1))
        else (s, log))"

definition check_tun :: "zt_host \<Rightarrow> history \<Rightarrow> supervisor \<Rightarrow> supervisor" where
  "check_tun host log s =
     (if zh_tun host log then s\<lparr>sv_service_err := [], sv_hint := []\<rparr>
      else s\<lparr>sv_service_err := ''ZeroTier cannot create network interfaces: '' @ tun_device @ '' is not available.'', sv_hint := tun_hint\<rparr>)"

definition service_command :: "u16 \<Rightarrow> string \<Rightarrow> string list" where
  "service_command port home = [''zerotier-one'', ''-p'' @ nat_dec (unat port), home]"

definition start_service :: "zt_host \<Rightarrow> gotime \<Rightarrow> u16 \<Rightarrow> supervisor \<times> history \<Rightarrow> (supervisor \<times> history) \<times> string option" where
  "start_service host now port x =
     (case x of (s, log) \<Rightarrow>
        let s1 = (check_tun host log s)\<lparr>sv_last_start := now\<rparr>;
            log1 = log @ [Attempted now (service_command port (sv_home s))] in
        (case zh_start host log1 of
           Inl e \<Rightarrow> ((s1, log1), Some (''starting zerotier-one: '' @ e))
         | Inr pid \<Rightarrow>
             ((s1\<lparr>sv_process := Some pid, sv_exited := False, sv_port := port,
                  sv_client := Some (new_client (sv_home s) port), sv_applied := 0\<rparr>, log1 @ [Spawned pid]), None)))"

definition ensure_running :: "zt_host \<Rightarrow> gotime \<Rightarrow> zt_config \<Rightarrow> supervisor \<times> history \<Rightarrow> (supervisor \<times> history) \<times> string option" where
  "ensure_running host now z x =
     (case drop_stale host (zerotier_port z) x of (s, log) \<Rightarrow>
        if sv_process s \<noteq> None then ((s, log), None)
        else if now - sv_last_start s < restart_backoff then ((s, log), Some ''ZeroTier service is not running; retrying shortly'')
        else (case zh_mkdir host log of
                Some e \<Rightarrow> ((s, log), Some (''creating ZeroTier home '' @ sv_home s @ '': '' @ e))
              | None \<Rightarrow> start_service host now (zerotier_port z) (s, log)))"

text \<open>The restart button.\<close>

definition zt_restart :: "zt_host \<Rightarrow> supervisor \<times> history \<Rightarrow> (supervisor \<times> history) \<times> string option" where
  "zt_restart host x =
     (case x of (s, log) \<Rightarrow>
        if \<not> zt_enabled (sv_desired s) then ((s, log), Some ''ZeroTier is disabled'')
        else (case stop_service host (s, log @ [Restart_Asked]) of
                (s1, log1) \<Rightarrow> ((s1\<lparr>sv_last_start := 0, sv_applied := 0\<rparr>, log1), None)))"

text \<open>The goroutine that waits for the process.\<close>

definition reap :: "nat \<Rightarrow> supervisor \<Rightarrow> supervisor" where
  "reap pid s = (if sv_process s = Some pid then s\<lparr>sv_exited := True\<rparr> else s)"

subsection \<open>Counters\<close>

definition read_counter :: "(string \<Rightarrow> string option) \<Rightarrow> string \<Rightarrow> int option" where
  "read_counter files name =
     (case files name of
        None \<Rightarrow> None
      | Some text \<Rightarrow> if snd (parse_int (trim_space text)) = None then Some (fst (parse_int (trim_space text))) else None)"

definition interface_counters :: "(string \<Rightarrow> string option) \<Rightarrow> (int \<times> int) option" where
  "interface_counters files =
     (case read_counter files ''rx_bytes'' of
        None \<Rightarrow> None
      | Some rx \<Rightarrow> (case read_counter files ''tx_bytes'' of None \<Rightarrow> None | Some tx \<Rightarrow> Some (rx, tx)))"

definition network_label :: "zt_config \<Rightarrow> joined_network \<Rightarrow> string" where
  "network_label z n = (case find_zerotier_network (zt_networks z) (jn_id n) of None \<Rightarrow> [] | Some c \<Rightarrow> zn_name c)"

definition sample_network :: "gotime \<Rightarrow> (int \<times> int) option \<Rightarrow> string \<Rightarrow> joined_network \<Rightarrow> (string \<Rightarrow> traffic_sample option) \<Rightarrow> network_stats \<times> (string \<Rightarrow> traffic_sample option)" where
  "sample_network now counters label n prev =
     (let ns = \<lparr>nt_network = n, nt_label = label, nt_rx = 0, nt_tx = 0, nt_rx_ps = no_rate, nt_tx_ps = no_rate, nt_has_rate = False\<rparr>;
          dev = jn_device n in
      if dev = [] then (ns, prev)
      else (case counters of
              None \<Rightarrow> (ns, prev)
            | Some (rx, tx) \<Rightarrow>
                let ns1 = ns\<lparr>nt_rx := rx, nt_tx := tx\<rparr>;
                    ns2 = (case prev dev of
                             None \<Rightarrow> ns1
                           | Some p \<Rightarrow>
                               if 0 < now - tr_at p \<and> tr_rx p \<le> rx \<and> tr_tx p \<le> tx
                               then ns1\<lparr>nt_rx_ps := (sub64 rx (tr_rx p), now - tr_at p), nt_tx_ps := (sub64 tx (tr_tx p), now - tr_at p),
                                        nt_has_rate := True\<rparr>
                               else ns1) in
                (ns2, prev(dev \<mapsto> \<lparr>tr_rx = rx, tr_tx = tx, tr_at = now\<rparr>))))"

fun sample_networks :: "gotime \<Rightarrow> (string \<Rightarrow> string \<Rightarrow> string option) \<Rightarrow> zt_config \<Rightarrow> joined_network list \<Rightarrow> (string \<Rightarrow> traffic_sample option) \<Rightarrow> network_stats list \<times> (string \<Rightarrow> traffic_sample option)" where
  "sample_networks now files z [] prev = ([], prev)"
| "sample_networks now files z (n # ns) prev =
     (case sample_network now (interface_counters (files (jn_device n))) (network_label z n) n prev of
        (st, prev1) \<Rightarrow> (case sample_networks now files z ns prev1 of (sts, prev2) \<Rightarrow> (st # sts, prev2)))"

definition with_counters :: "gotime \<Rightarrow> (string \<Rightarrow> string \<Rightarrow> string option) \<Rightarrow> zt_config \<Rightarrow> joined_network list \<Rightarrow> supervisor \<Rightarrow> network_stats list \<times> supervisor" where
  "with_counters now files z ns s =
     (case sample_networks now files z ns (sv_prev s) of
        (sts, prev) \<Rightarrow>
          (sts, s\<lparr>sv_prev := (\<lambda>dev. if dev \<noteq> [] \<and> dev \<in> jn_device ` set ns then prev dev else None)\<rparr>))"

subsection \<open>The tick\<close>

text \<open>
  The stages: \<open>Begun\<close> and \<open>Ready\<close> keep the wish and the generation the tick read, \<open>Picked\<close> and
  \<open>Talked\<close> also the client, \<open>Storing\<close> the snapshot to store and whether the networks were polled,
  \<open>Announcing\<close> the networks to announce.
\<close>

datatype stage =
    Idle
  | Begun zt_config u64
  | Ready zt_config u64
  | Picked zt_config u64 zt_client bool
  | Talked zt_config zt_client zt_snapshot
  | Storing zt_snapshot bool
  | Announcing "gateway_net list"
  | Halted

type_synonym zt_state = "supervisor \<times> history \<times> stage"

definition enabled_error :: "string \<Rightarrow> zt_snapshot" where
  "enabled_error e = zero_snapshot\<lparr>sn_enabled := True, sn_err := e\<rparr>"

text \<open>The token the client has learnt stays with it while it is the current one.\<close>

definition keep_client :: "zt_client \<Rightarrow> supervisor \<Rightarrow> supervisor" where
  "keep_client c s = s\<lparr>sv_client := map_option (\<lambda>_. c) (sv_client s)\<rparr>"

definition ensure_stage :: "zt_host \<Rightarrow> gotime \<Rightarrow> zt_config \<Rightarrow> u64 \<Rightarrow> supervisor \<times> history \<Rightarrow> zt_state" where
  "ensure_stage host now z g x =
     (if \<not> zt_enabled z then (case stop_service host x of (s, log) \<Rightarrow> (s, log, Storing zero_snapshot False))
      else (case ensure_running host now z x of
              ((s, log), Some e) \<Rightarrow> (s, log, Storing (enabled_error e) False)
            | ((s, log), None) \<Rightarrow> (s, log, Ready z g)))"

definition pick_stage :: "zt_config \<Rightarrow> u64 \<Rightarrow> supervisor \<times> history \<Rightarrow> zt_state" where
  "pick_stage z g x =
     (case x of (s, log) \<Rightarrow>
        (case sv_client s of
           None \<Rightarrow> (s, log, Storing (enabled_error ''ZeroTier control API is not available yet'') False)
         | Some c \<Rightarrow> (s, log, Picked z g c (sv_applied s \<noteq> g))))"

definition talk_stage :: "zt_host \<Rightarrow> zt_config \<Rightarrow> u64 \<Rightarrow> zt_client \<Rightarrow> bool \<Rightarrow> supervisor \<times> history \<Rightarrow> zt_state" where
  "talk_stage host z g c needs x =
     (case x of (s, log) \<Rightarrow>
        let snap = zero_snapshot\<lparr>sn_enabled := True, sn_running := True\<rparr> in
        (case client_status host (c, log) of
           ((c1, log1), Inl e) \<Rightarrow> (keep_client c1 s, log1, Storing (snap\<lparr>sn_err := e\<rparr>) False)
         | ((c1, log1), Inr status) \<Rightarrow>
             let snap1 = snap\<lparr>sn_status := Some status\<rparr> in
             if \<not> needs then (keep_client c1 s, log1, Talked z c1 snap1)
             else (case reconcile_networks host z (c1, log1) of
                     ((c2, log2), Some e) \<Rightarrow> (keep_client c2 s, log2, Talked z c2 (snap1\<lparr>sn_err := e\<rparr>))
                   | ((c2, log2), None) \<Rightarrow> ((keep_client c2 s)\<lparr>sv_applied := g\<rparr>, log2 @ [Reconciled z], Talked z c2 snap1))))"

definition poll_stage :: "zt_host \<Rightarrow> gotime \<Rightarrow> zt_config \<Rightarrow> zt_client \<Rightarrow> zt_snapshot \<Rightarrow> supervisor \<times> history \<Rightarrow> zt_state" where
  "poll_stage host now z c snap x =
     (case x of (s, log) \<Rightarrow>
        (case client_networks host (c, log) of
           ((c1, log1), nets) \<Rightarrow>
             let snap1 = (case nets of Inl e \<Rightarrow> snap\<lparr>sn_err := e\<rparr> | Inr _ \<Rightarrow> snap);
                 found = (case nets of Inl _ \<Rightarrow> [] | Inr ns \<Rightarrow> elems ns) in
             (case with_counters now (zh_counter host log1) z found s of
                (sts, s1) \<Rightarrow>
                  let snap2 = snap1\<lparr>sn_networks := Some sts\<rparr> in
                  (case client_peers host (c1, log1) of
                     ((c2, log2), Inl e) \<Rightarrow>
                       (keep_client c2 s1, log2, Storing (if sn_err snap2 = [] then snap2\<lparr>sn_err := e\<rparr> else snap2) True)
                   | ((c2, log2), Inr ps) \<Rightarrow> (keep_client c2 s1, log2, Storing (snap2\<lparr>sn_peers := ps\<rparr>) True)))))"

definition store_stage :: "zt_snapshot \<Rightarrow> bool \<Rightarrow> supervisor \<times> history \<Rightarrow> zt_state" where
  "store_stage snap polled x =
     (set_snapshot snap (fst x), snd x, if polled then Announcing (network_gateways (elems (sn_networks snap))) else Idle)"

definition announce_stage :: "gateway_net list \<Rightarrow> supervisor \<times> history \<Rightarrow> zt_state" where
  "announce_stage nets x = (case notify_gateway_change nets x of (s, log) \<Rightarrow> (s, log, Idle))"

fun tick_stage :: "zt_host \<Rightarrow> gotime \<Rightarrow> zt_state \<Rightarrow> zt_state" where
  "tick_stage host now (s, log, Idle) = (s, log, Begun (sv_desired s) (sv_gen s))"
| "tick_stage host now (s, log, Begun z g) = ensure_stage host now z g (s, log)"
| "tick_stage host now (s, log, Ready z g) = pick_stage z g (s, log)"
| "tick_stage host now (s, log, Picked z g c needs) = talk_stage host z g c needs (s, log)"
| "tick_stage host now (s, log, Talked z c snap) = poll_stage host now z c snap (s, log)"
| "tick_stage host now (s, log, Storing snap polled) = store_stage snap polled (s, log)"
| "tick_stage host now (s, log, Announcing nets) = announce_stage nets (s, log)"
| "tick_stage host now (s, log, Halted) = (s, log, Halted)"

text \<open>An undisturbed tick: at most six stages follow the first.\<close>

fun run_stages :: "nat \<Rightarrow> zt_host \<Rightarrow> gotime \<Rightarrow> zt_state \<Rightarrow> zt_state" where
  "run_stages 0 host now x = x"
| "run_stages (Suc n) host now x = (if snd (snd x) = Idle then x else run_stages n host now (tick_stage host now x))"

definition tick :: "zt_host \<Rightarrow> gotime \<Rightarrow> supervisor \<times> history \<Rightarrow> zt_state" where
  "tick host now x = (case x of (s, log) \<Rightarrow> run_stages 6 host now (tick_stage host now (s, log, Idle)))"

text \<open>The supervisor among the other goroutines.\<close>

inductive zt_run :: "zt_host \<Rightarrow> zt_state \<Rightarrow> bool" for host where
  created: "zt_run host (new_supervisor home, [], Idle)"
| staged: "zt_run host x \<Longrightarrow> zt_run host (tick_stage host now x)"
| configured: "zt_run host (s, log, st) \<Longrightarrow> zt_run host (zt_configure cfg s, log @ [Configured (cfg_zerotier cfg)], st)"
| restarted: "zt_run host (s, log, st) \<Longrightarrow> zt_restart host (s, log) = ((s', log'), r) \<Longrightarrow> zt_run host (s', log', st)"
| reaped: "zt_run host (s, log, st) \<Longrightarrow> sv_process s = Some pid \<Longrightarrow> \<not> sv_exited s \<Longrightarrow> zt_run host (reap pid s, log @ [Reaped pid], st)"
| printed: "zt_run host (s, log, st) \<Longrightarrow> zt_run host (service_output text s, log, st)"
| registered: "zt_run host (s, log, st) \<Longrightarrow> zt_run host (on_gateways_changed f s, log, st)"
| halted: "zt_run host (s, log, Idle) \<Longrightarrow> stop_service host (s, log) = (s', log') \<Longrightarrow> zt_run host (s', log', Halted)"

end
