(* ===== verification/Zerotier_Spec.thy ===== *)
theory Zerotier_Spec
  imports Zerotier
begin

text \<open>
  What the ZeroTier supervisor guarantees.  The history of a run is folded into the processes that
  are alive, the pace of the start attempts, the configuration wanted and the configuration served;
  one invariant ties these to the fields of the supervisor and holds in every interleaving of the
  stages of a tick with configuration changes, restarts, exits and output of the process.
\<close>

section \<open>What a conversation leaves behind\<close>

text \<open>The client adds requests to the history and nothing else.\<close>

definition asks :: "history \<Rightarrow> history \<Rightarrow> bool" where
  "asks log log' \<longleftrightarrow> (\<exists>rs. log' = log @ map Asked rs)"

lemma asks_refl [simp, intro]: "asks log log"
  by (auto simp: asks_def intro: exI [of _ "[]"])

lemma asks_one [simp, intro]: "asks log (log @ [Asked r])"
  by (auto simp: asks_def intro: exI [of _ "[r]"])

lemma asks_trans: "asks a b \<Longrightarrow> asks b c \<Longrightarrow> asks a c"
  by (auto simp: asks_def simp flip: map_append)

lemma asks_do_request: "asks (snd t) (snd (fst (do_request host m p b t)))"
  by (auto simp: do_request_def Let_def split: prod.splits sum.splits)

lemma fst_decoded [simp]: "fst (decoded p f r) = fst r"
  by (auto simp: decoded_def split: prod.splits sum.splits)

lemma asks_client:
  "asks (snd t) (snd (fst (client_status host t)))" "asks (snd t) (snd (fst (client_networks host t)))"
  "asks (snd t) (snd (fst (client_peers host t)))" "asks (snd t) (snd (fst (client_join host n t)))"
  "asks (snd t) (snd (fst (client_leave host i t)))"
  using asks_do_request [of t host] 
  by (auto simp: client_status_def client_networks_def client_peers_def client_join_def client_leave_def split: prod.splits sum.splits)
    (metis fst_conv snd_conv)+

lemma asks_join_all: "asks (snd t) (snd (fst (join_all host ns t)))"
proof (induction host ns t rule: join_all.induct)
  case (2 host n ns t)
  then show ?case using asks_client(4) [of t host n] by (auto split: prod.splits option.splits intro: asks_trans)
qed simp

lemma asks_leave_others: "asks (snd t) (snd (fst (leave_others host w ns t)))"
proof (induction host w ns t rule: leave_others.induct)
  case (2 host w n ns t)
  then show ?case using asks_client(5) [of t host "jn_id n"] by (auto split: prod.splits option.splits intro: asks_trans)
qed simp

lemma asks_reconcile: "asks (snd t) (snd (fst (reconcile_networks host z t)))"
  using asks_client(2) [of t host] asks_join_all [of _ host "zt_networks z"] asks_leave_others [of _ host "map (\<lambda>n. to_lower (zn_id n)) (zt_networks z)"]
  by (auto simp: reconcile_networks_def split: prod.splits sum.splits option.splits) (metis asks_trans fst_conv snd_conv)+

section \<open>Joined networks\<close>

text \<open>The networks the service is in, as its own bookkeeping of the requests it accepted.\<close>

definition joined_step :: "string set \<Rightarrow> zt_event \<Rightarrow> string set" where
  "joined_step J e =
     (case e of
        Asked r \<Rightarrow>
          if zr_method r = ''POST'' then insert (drop 9 (zr_path r)) J
          else if zr_method r = ''DELETE'' then J - {drop 9 (zr_path r)} else J
      | _ \<Rightarrow> J)"

definition joined_ids :: "string set \<Rightarrow> history \<Rightarrow> string set" where
  "joined_ids J log = foldl joined_step J log"

lemma joined_ids_append [simp]: "joined_ids J (a @ b) = joined_ids (joined_ids J a) b"
  by (simp add: joined_ids_def)

lemma joined_ids_one [simp]: "joined_ids J [e] = joined_step J e" "joined_ids J [] = J"
  by (simp_all add: joined_ids_def)

lemma do_request_Inr:
  "do_request host m p b (c, log) = (t, Inr a) \<Longrightarrow> \<exists>r. zr_method r = m \<and> zr_path r = p \<and> snd t = log @ [Asked r]
     \<and> za_code a < 400 \<and> zh_daemon host (snd t) = Inr a"
  by (auto simp: do_request_def Let_def split: prod.splits sum.splits if_splits)

lemma join_all_joined: "join_all host ns t = (t', None) \<Longrightarrow>
    joined_ids J (snd t') = joined_ids J (snd t) \<union> (\<lambda>n. to_lower (zn_id n)) ` set ns"
proof (induction host ns t rule: join_all.induct)
  case (2 host n ns t)
  then obtain t1 where t1: "client_join host n t = (t1, None)" "join_all host ns t1 = (t', None)"
    by (auto split: prod.splits option.splits)
  obtain c log where t: "t = (c, log)" by (cases t)
  from t1(1) t do_request_Inr have "joined_ids J (snd t1) = insert (to_lower (zn_id n)) (joined_ids J (snd t))"
    by (fastforce simp: client_join_def joined_step_def split: prod.splits sum.splits)
  with 2 t1 show ?case by simp
qed simp

lemma leave_others_joined: "leave_others host w ns t = (t', None) \<Longrightarrow>
    joined_ids J (snd t') = joined_ids J (snd t) - ((\<lambda>n. to_lower (jn_id n)) ` set ns - set w)"
proof (induction host w ns t rule: leave_others.induct)
  case (2 host w n ns t)
  show ?case
  proof (cases "to_lower (jn_id n) \<in> set w")
    case False
    with 2(3) obtain t1 where t1: "client_leave host (jn_id n) t = (t1, None)" "leave_others host w ns t1 = (t', None)"
      by (auto split: prod.splits option.splits)
    obtain c log where t: "t = (c, log)" by (cases t)
    from t1(1) t do_request_Inr have "joined_ids J (snd t1) = joined_ids J (snd t) - {to_lower (jn_id n)}"
      by (fastforce simp: client_leave_def joined_step_def split: prod.splits sum.splits)
    with 2(2) [OF False t1(1) [symmetric]] t1 False show ?thesis by auto
  next
    case True
    with 2 show ?thesis by auto
  qed
qed simp


section \<open>Processes\<close>

definition live_step :: "nat list \<Rightarrow> zt_event \<Rightarrow> nat list" where
  "live_step ps e =
     (case e of Spawned p \<Rightarrow> ps @ [p] | Killed p \<Rightarrow> filter (\<lambda>q. q \<noteq> p) ps | Reaped p \<Rightarrow> filter (\<lambda>q. q \<noteq> p) ps | _ \<Rightarrow> ps)"

definition live :: "history \<Rightarrow> nat list" where
  "live log = foldl live_step [] log"

lemma live_append [simp]: "live (log @ es) = foldl live_step (live log) es"
  by (simp add: live_def)

lemma live_Nil [simp]: "live [] = []"
  by (simp add: live_def)

lemma live_asks: "asks log log' \<Longrightarrow> live log' = live log"
proof -
  have "foldl live_step ps (map Asked rs) = ps" for ps rs by (induction rs arbitrary: ps) (auto simp: live_step_def)
  then show "asks log log' \<Longrightarrow> live log' = live log" by (auto simp: asks_def live_def)
qed

definition attached :: "supervisor \<Rightarrow> nat list" where
  "attached s = (if sv_process s = None \<or> sv_exited s then [] else [the (sv_process s)])"

section \<open>Start attempts and wishes\<close>

text \<open>Whether the attempts so far kept the distance, and the last one since a restart was asked for.\<close>

definition pace_step :: "bool \<times> gotime option \<Rightarrow> zt_event \<Rightarrow> bool \<times> gotime option" where
  "pace_step x e =
     (case e of
        Attempted t _ \<Rightarrow> (fst x \<and> (case snd x of None \<Rightarrow> True | Some l \<Rightarrow> l + restart_backoff \<le> t), Some t)
      | Restart_Asked \<Rightarrow> (fst x, None)
      | _ \<Rightarrow> x)"

definition pace :: "history \<Rightarrow> bool \<times> gotime option" where
  "pace log = foldl pace_step (True, None) log"

definition wish_step :: "nat \<times> zt_config \<Rightarrow> zt_event \<Rightarrow> nat \<times> zt_config" where
  "wish_step x e = (case e of Configured z \<Rightarrow> (Suc (fst x), z) | _ \<Rightarrow> x)"

text \<open>How often the service was configured, and the configuration it was last given.\<close>

definition wishes :: "history \<Rightarrow> nat \<times> zt_config" where
  "wishes log = foldl wish_step (0, zero_zerotier) log"

definition served_step :: "zt_config option \<Rightarrow> zt_event \<Rightarrow> zt_config option" where
  "served_step x e = (case e of Spawned _ \<Rightarrow> None | Reconciled z \<Rightarrow> Some z | _ \<Rightarrow> x)"

text \<open>The configuration of the last complete reconcile since the last start.\<close>

definition served :: "history \<Rightarrow> zt_config option" where
  "served log = foldl served_step None log"

lemma digest_Nil [simp]: "pace [] = (True, None)" "wishes [] = (0, zero_zerotier)" "served [] = None"
  by (simp_all add: pace_def wishes_def served_def)

lemma digest_append [simp]:
  "pace (log @ es) = foldl pace_step (pace log) es" "wishes (log @ es) = foldl wish_step (wishes log) es"
  "served (log @ es) = foldl served_step (served log) es"
  by (simp_all add: pace_def wishes_def served_def)

lemma digest_asks:
  assumes "asks log log'"
  shows "pace log' = pace log" "wishes log' = wishes log" "served log' = served log"
proof -
  have "foldl pace_step x (map Asked rs) = x" "foldl wish_step y (map Asked rs) = y" "foldl served_step z (map Asked rs) = z" for x y z rs
    by (induction rs arbitrary: x y z) (auto simp: pace_step_def wish_step_def served_step_def)
  note f = this
  from assms obtain rs where "log' = log @ map Asked rs" by (auto simp: asks_def)
  then show "pace log' = pace log" "wishes log' = wishes log" "served log' = served log" by (simp_all add: f)
qed

section \<open>The invariant\<close>

definition applied_ok :: "supervisor \<Rightarrow> history \<Rightarrow> bool" where
  "applied_ok s log \<longleftrightarrow> sv_applied s = 0 \<or> (\<exists>m \<le> fst (wishes log). sv_applied s = of_nat m \<and>
     (sv_process s \<noteq> None \<longrightarrow> (\<exists>z. served log = Some z \<and> (m = fst (wishes log) \<longrightarrow> z = snd (wishes log)))))"

definition read_ok :: "zt_config \<Rightarrow> u64 \<Rightarrow> history \<Rightarrow> bool" where
  "read_ok z g log \<longleftrightarrow> (\<exists>m \<le> fst (wishes log). g = of_nat m \<and> (m = fst (wishes log) \<longrightarrow> z = snd (wishes log)))"

definition stage_ok :: "stage \<Rightarrow> history \<Rightarrow> bool" where
  "stage_ok st log = (case st of Begun z g \<Rightarrow> read_ok z g log | Ready z g \<Rightarrow> read_ok z g log | Picked z g _ _ \<Rightarrow> read_ok z g log | _ \<Rightarrow> True)"

definition zt_inv :: "supervisor \<Rightarrow> history \<Rightarrow> bool" where
  "zt_inv s log \<longleftrightarrow> live log = attached s \<and> (sv_process s = None \<longrightarrow> \<not> sv_exited s)
     \<and> fst (pace log) \<and> (\<forall>t. snd (pace log) = Some t \<longrightarrow> sv_last_start s = t)
     \<and> sv_desired s = snd (wishes log) \<and> sv_gen s = of_nat (fst (wishes log)) \<and> applied_ok s log"

lemmas inv_defs = zt_inv_def applied_ok_def attached_def

lemmas event_steps = live_step_def pace_step_def wish_step_def served_step_def

lemma zt_inv_asks: "asks log log' \<Longrightarrow> zt_inv s log' = zt_inv s log" "asks log log' \<Longrightarrow> stage_ok st log' = stage_ok st log"
  "asks log log' \<Longrightarrow> read_ok z g log' = read_ok z g log"
  by (auto simp: inv_defs read_ok_def stage_ok_def live_asks digest_asks split: stage.splits)

lemma zt_inv_frame:
  "sv_process s' = sv_process s \<Longrightarrow> sv_exited s' = sv_exited s \<Longrightarrow> sv_last_start s' = sv_last_start s \<Longrightarrow>
   sv_desired s' = sv_desired s \<Longrightarrow> sv_gen s' = sv_gen s \<Longrightarrow> sv_applied s' = sv_applied s \<Longrightarrow> zt_inv s log \<Longrightarrow> zt_inv s' log"
  by (simp add: inv_defs)

lemma zt_inv_notified: "zt_inv s (log @ [Notified sig]) = zt_inv s log"
  by (simp add: inv_defs event_steps)

lemma stop_service_inv:
  assumes "zt_inv s log" "stop_service host (s, log) = (s', log')"
  shows "zt_inv s' log' \<and> wishes log' = wishes log \<and> sv_process s' = None"
  using assms by (auto simp: stop_service_def clear_process_def inv_defs event_steps Let_def split: option.splits if_splits)

lemma drop_stale_inv:
  assumes "zt_inv s log" "drop_stale host port (s, log) = (s', log')"
  shows "zt_inv s' log' \<and> wishes log' = wishes log"
proof -
  have "zt_inv (clear_process s) log" if "sv_exited s" "sv_process s \<noteq> None"
    using that assms(1) by (auto simp: clear_process_def inv_defs)
  moreover have "zt_inv (s1\<lparr>sv_applied := 0\<rparr>) log1" if "zt_inv s1 log1" for s1 log1
    using that by (auto simp: inv_defs)
  ultimately show ?thesis using assms(1,2) stop_service_inv [OF assms(1)]
    by (auto simp: drop_stale_def split: prod.splits if_splits)
qed

lemma attempted_inv:
  assumes "zt_inv s log" "sv_process s = None" "restart_backoff \<le> now - sv_last_start s"
  shows "zt_inv ((check_tun host l s)\<lparr>sv_last_start := now\<rparr>) (log @ [Attempted now argv])" "sv_process (check_tun host l s) = None"
proof -
  have "l + restart_backoff \<le> now" if "snd (pace log) = Some l" for l
    using that assms(1,3) by (simp add: zt_inv_def)
  then show "zt_inv ((check_tun host l s)\<lparr>sv_last_start := now\<rparr>) (log @ [Attempted now argv])"
    using assms(1,2) by (simp add: check_tun_def inv_defs event_steps split: option.splits)
  show "sv_process (check_tun host l s) = None" using assms(2) by (simp add: check_tun_def)
qed

lemma spawned_inv:
  assumes "zt_inv s log" "sv_process s = None"
  shows "zt_inv (s\<lparr>sv_process := Some pid, sv_exited := False, sv_port := port, sv_client := c, sv_applied := 0\<rparr>) (log @ [Spawned pid])"
  using assms by (simp add: inv_defs event_steps)

lemma start_service_inv:
  assumes "zt_inv s log" "sv_process s = None" "restart_backoff \<le> now - sv_last_start s"
    "start_service host now port (s, log) = ((s', log'), r)"
  shows "zt_inv s' log' \<and> wishes log' = wishes log"
proof -
  have w: "wishes (log @ [Attempted now argv]) = wishes log" "wishes ((log @ [Attempted now argv]) @ [Spawned pid]) = wishes log" for argv pid
    by (simp_all add: event_steps)
  note a = attempted_inv [OF assms(1-3)]
  show ?thesis
    using assms(4) a(1) spawned_inv [OF a(1)] a(2) w
    by (auto simp: start_service_def Let_def simp del: append_assoc digest_append split: sum.splits)
qed

lemma ensure_running_inv:
  assumes "zt_inv s log" "ensure_running host now z (s, log) = ((s', log'), r)"
  shows "zt_inv s' log' \<and> wishes log' = wishes log"
proof -
  obtain s1 log1 where d: "drop_stale host (zerotier_port z) (s, log) = (s1, log1)" by fastforce
  from drop_stale_inv [OF assms(1) d] assms(2) d start_service_inv [of s1 log1] show ?thesis
    by (auto simp: ensure_running_def split: if_splits option.splits) (simp_all add: not_less)
qed

lemma restart_pace: "stop_service host (s, log @ [Restart_Asked]) = (s', log') \<Longrightarrow> snd (pace log') = None"
  by (auto simp: stop_service_def Let_def event_steps split: option.splits if_splits)

lemma zt_restart_inv:
  assumes "zt_inv s log" "zt_restart host (s, log) = ((s', log'), r)"
  shows "zt_inv s' log' \<and> wishes log' = wishes log"
proof (cases "zt_enabled (sv_desired s)")
  case True
  obtain s1 log1 where s1: "stop_service host (s, log @ [Restart_Asked]) = (s1, log1)" by fastforce
  have "zt_inv s (log @ [Restart_Asked])" using assms(1) by (auto simp: inv_defs event_steps split: option.splits)
  from stop_service_inv [OF this s1] have i: "zt_inv s1 log1" "wishes log1 = wishes log" by (simp_all add: wish_step_def)
  with restart_pace [OF s1] assms(2) s1 True show ?thesis by (auto simp: zt_restart_def inv_defs)
qed (use assms in \<open>simp add: zt_restart_def\<close>)

lemma keep_client_inv [simp]: "zt_inv (keep_client c s) log = zt_inv s log"
  by (simp add: keep_client_def inv_defs)

lemma read_same:
  assumes "wishes log' = wishes log"
  shows "read_ok z g log' = read_ok z g log" "stage_ok st log' = stage_ok st log"
  using assms by (auto simp: read_ok_def stage_ok_def split: stage.splits)

lemma ensure_stage_inv:
  assumes "zt_inv s log" "read_ok z g log" "ensure_stage host now z g (s, log) = (s', log', st)"
  shows "zt_inv s' log' \<and> stage_ok st log'"
proof (cases "zt_enabled z")
  case True
  obtain s1 log1 r where e: "ensure_running host now z (s, log) = ((s1, log1), r)" by (metis prod.collapse)
  have i: "zt_inv s1 log1" "wishes log1 = wishes log" using ensure_running_inv [OF assms(1) e] by simp_all
  with assms(2) have "read_ok z g log1" by (simp add: read_same [OF i(2)])
  with i(1) assms(3) True e show ?thesis by (auto simp: ensure_stage_def stage_ok_def split: option.splits)
next
  case False
  with assms(3) stop_service_inv [OF assms(1)] show ?thesis by (auto simp: ensure_stage_def stage_ok_def split: prod.splits)
qed

lemma reconciled_inv:
  assumes "zt_inv s log" "read_ok z g log"
  shows "zt_inv (s\<lparr>sv_applied := g\<rparr>) (log @ [Reconciled z])"
  using assms by (auto simp: inv_defs read_ok_def event_steps)

lemma talk_stage_inv:
  assumes "zt_inv s log" "read_ok z g log" "talk_stage host z g c needs (s, log) = (s', log', st)"
  shows "zt_inv s' log' \<and> stage_ok st log'"
proof -
  obtain c1 log1 r where 1: "client_status host (c, log) = ((c1, log1), r)" by (metis prod.collapse)
  obtain c2 log2 e where 2: "reconcile_networks host z (c1, log1) = ((c2, log2), e)" by (metis prod.collapse)
  have a: "asks log log1" "asks log1 log2" using asks_client(1) [of "(c, log)" host] asks_reconcile [of "(c1, log1)" host z] 1 2 by simp_all
  have "zt_inv (keep_client c2 s\<lparr>sv_applied := g\<rparr>) (log2 @ [Reconciled z])"
    using reconciled_inv [of "keep_client c2 s" log2 z g] assms(1,2) a by (simp add: zt_inv_asks [OF asks_trans [OF a]])
  moreover have "zt_inv s log1" "zt_inv s log2" using assms(1) zt_inv_asks(1) [OF a(1)] zt_inv_asks(1) [OF a(2)] by simp_all
  ultimately show ?thesis using assms(3) 1 2
    by (auto simp: talk_stage_def Let_def stage_ok_def split: sum.splits option.splits if_splits)
qed

lemma poll_stage_inv:
  assumes "zt_inv s log" "poll_stage host now z c snap (s, log) = (s', log', st)"
  shows "zt_inv s' log' \<and> stage_ok st log'"
proof -
  obtain c1 log1 nets where 1: "client_networks host (c, log) = ((c1, log1), nets)" by (metis prod.collapse)
  obtain c2 log2 ps where 2: "client_peers host (c1, log1) = ((c2, log2), ps)" by (metis prod.collapse)
  have a: "asks log log1" "asks log1 log2" using asks_client(2) [of "(c, log)" host] asks_client(3) [of "(c1, log1)" host] 1 2 by simp_all
  have l: "zt_inv s log2" using assms(1) by (simp add: zt_inv_asks [OF asks_trans [OF a]])
  have "zt_inv (s\<lparr>sv_prev := p\<rparr>) log2" for p by (rule zt_inv_frame [OF _ _ _ _ _ _ l]) simp_all
  with assms(2) 1 2 show ?thesis
    by (auto simp: poll_stage_def with_counters_def Let_def stage_ok_def split: prod.splits sum.splits)
qed

lemma tick_stage_inv:
  assumes "zt_inv s log" "stage_ok st log" "tick_stage host now (s, log, st) = (s', log', st')"
  shows "zt_inv s' log' \<and> stage_ok st' log'"
proof (cases st)
  case (Talked z c snap)
  with assms poll_stage_inv show ?thesis by auto
next
  case (Picked z g c needs)
  with assms talk_stage_inv [of s log z g host c needs] show ?thesis by (auto simp: stage_ok_def)
next
  case (Begun z g)
  with assms ensure_stage_inv [of s log z g host now] show ?thesis by (auto simp: stage_ok_def)
next
  case (Storing snap polled)
  have "zt_inv (set_snapshot sn s) log" for sn by (rule zt_inv_frame [OF _ _ _ _ _ _ assms(1)]) (simp_all add: set_snapshot_def Let_def)
  with Storing assms(3) show ?thesis by (auto simp: store_stage_def stage_ok_def)
next
  case (Announcing nets)
  have "zt_inv (s\<lparr>sv_gateway_sig := sig\<rparr>) log" for sig by (rule zt_inv_frame [OF _ _ _ _ _ _ assms(1)]) simp_all
  with Announcing assms(3) show ?thesis
    by (auto simp: announce_stage_def notify_gateway_change_def Let_def stage_ok_def zt_inv_notified)
qed (use assms in \<open>auto simp: stage_ok_def read_ok_def zt_inv_def pick_stage_def split: option.splits\<close>)

lemma service_line_inv: "zt_inv s log \<Longrightarrow> zt_inv (service_line l s) log"
  by (rule zt_inv_frame [of _ s]) (simp_all add: service_line_def Let_def)

lemma service_output_inv: "zt_inv s log \<Longrightarrow> zt_inv (service_output text s) log"
proof -
  have "zt_inv s log \<Longrightarrow> zt_inv (fold service_line ls s) log" for ls
    by (induction ls arbitrary: s) (simp_all add: service_line_inv)
  then show "zt_inv s log \<Longrightarrow> zt_inv (service_output text s) log" by (simp add: service_output_def)
qed

lemma configured_inv:
  assumes "zt_inv s log" "stage_ok st log"
  shows "zt_inv (zt_configure cfg s) (log @ [Configured (cfg_zerotier cfg)]) \<and> stage_ok st (log @ [Configured (cfg_zerotier cfg)])"
proof
  have "applied_ok (zt_configure cfg s) (log @ [Configured (cfg_zerotier cfg)])"
  proof (cases "sv_applied s = 0")
    case False
    with assms(1) obtain m where "m \<le> fst (wishes log)" "sv_applied s = of_nat m" "sv_process s \<noteq> None \<longrightarrow> (\<exists>z. served log = Some z)"
      unfolding zt_inv_def applied_ok_def by blast
    then show ?thesis unfolding applied_ok_def
      by (intro disjI2 exI [of _ m]) (auto simp: zt_configure_def event_steps)
  qed (simp add: applied_ok_def zt_configure_def)
  then show "zt_inv (zt_configure cfg s) (log @ [Configured (cfg_zerotier cfg)])"
    using assms(1) by (simp add: zt_inv_def) (simp add: zt_configure_def attached_def event_steps)
  have "read_ok z g (log @ [Configured y])" if "read_ok z g log" for z g y
  proof -
    from that obtain m where "m \<le> fst (wishes log)" "g = of_nat m" unfolding read_ok_def by blast
    then show ?thesis unfolding read_ok_def by (intro exI [of _ m]) (simp add: event_steps)
  qed
  then show "stage_ok st (log @ [Configured (cfg_zerotier cfg)])"
    using assms(2) by (cases st) (simp_all add: stage_ok_def)
qed

lemma zt_run_inv: "zt_run host (s, log, st) \<Longrightarrow> zt_inv s log \<and> stage_ok st log"
proof (induction "(s, log, st)" arbitrary: s log st rule: zt_run.induct)
  case (created home)
  show ?case by (simp add: new_supervisor_def inv_defs stage_ok_def)
next
  case (staged x)
  then show ?case using tick_stage_inv by (metis prod.collapse)
next
  case (configured s log st cfg)
  then show ?case using configured_inv by blast
next
  case (restarted s log st s' log' r)
  then have i: "zt_inv s' log'" "wishes log' = wishes log" using zt_restart_inv [of s log host s' log' r] by simp_all
  with restarted(2) show ?case by (simp add: read_same(2) [OF i(2)])
next
  case (reaped s log st pid)
  have w: "wishes (log @ [Reaped pid]) = wishes log" by (simp add: event_steps)
  from reaped have i: "zt_inv s log" "stage_ok st log" by auto
  have "zt_inv (reap pid s) (log @ [Reaped pid])" using i(1) reaped(3,4) by (simp add: reap_def inv_defs event_steps)
  then show ?case using i(2) read_same(2) [OF w] by blast
next
  case (printed s log st out)
  then show ?case using service_output_inv by blast
next
  case (registered s log st f)
  then show ?case using zt_inv_frame [of "on_gateways_changed f s" s log] by (simp add: on_gateways_changed_def)
next
  case (halted s log s' log')
  then show ?case using stop_service_inv [of s log host s' log'] by (simp add: stage_ok_def)
qed

lemma pace_keeps: "fst (foldl pace_step p es) \<Longrightarrow> fst p"
proof (induction es arbitrary: p)
  case (Cons e es)
  then have "fst (pace_step p e)" by simp
  then show ?case by (cases e) (simp_all add: pace_step_def)
qed simp

lemma pace_apart:
  "fst (foldl pace_step (ok, Some t) (b @ [Attempted u y])) \<Longrightarrow> Restart_Asked \<notin> set b \<Longrightarrow> t + restart_backoff \<le> u"
proof (induction b arbitrary: ok t)
  case (Cons e b)
  show ?case
  proof (cases "\<exists>v x. e = Attempted v x")
    case True
    then obtain v x where e: "e = Attempted v x" by blast
    have s: "pace_step (ok, Some t) e = (ok \<and> t + restart_backoff \<le> v, Some v)" by (simp add: e pace_step_def)
    have f: "fst (foldl pace_step (pace_step (ok, Some t) e) (b @ [Attempted u y]))" using Cons(2) by simp
    then have "v + restart_backoff \<le> u" using Cons(1,3) unfolding s by simp
    moreover have "t + restart_backoff \<le> v" using pace_keeps [OF f] unfolding s by simp
    ultimately show ?thesis by (simp add: restart_backoff_def second_def)
  next
    case False
    with Cons show ?thesis by (cases e) (simp_all add: pace_step_def)
  qed
qed (simp add: pace_step_def)


section \<open>An undisturbed tick\<close>

lemma nonempty_errors:
  "do_request host m p b t = (t', Inl e) \<Longrightarrow> m \<noteq> [] \<Longrightarrow> e \<noteq> []"
  by (auto simp: do_request_def auth_token_def Let_def split: prod.splits sum.splits if_splits)

lemma client_errors:
  "client_status host t = (t', Inl e) \<Longrightarrow> e \<noteq> []" "client_networks host t = (t', Inl e) \<Longrightarrow> e \<noteq> []"
  "client_peers host t = (t', Inl e) \<Longrightarrow> e \<noteq> []"
  by (auto simp: client_status_def client_networks_def client_peers_def decoded_def dest: nonempty_errors split: prod.splits sum.splits)

lemma join_all_error: "join_all host ns t = (t', Some e) \<Longrightarrow> e \<noteq> []"
  by (induction host ns t rule: join_all.induct) (auto split: prod.splits option.splits)

lemma leave_others_error: "leave_others host w ns t = (t', Some e) \<Longrightarrow> e \<noteq> []"
  by (induction host w ns t rule: leave_others.induct) (auto split: prod.splits option.splits if_splits)

lemma reconcile_error: "reconcile_networks host z t = (t', Some e) \<Longrightarrow> e \<noteq> []"
  by (auto simp: reconcile_networks_def dest: client_errors join_all_error leave_others_error split: prod.splits sum.splits option.splits)

lemma ensure_error: "ensure_running host now z x = (x', Some e) \<Longrightarrow> e \<noteq> []"
  by (auto simp: ensure_running_def start_service_def Let_def split: prod.splits option.splits sum.splits if_splits)

lemma ensure_frame: "ensure_running host now z (s, log) = ((s', log'), r) \<Longrightarrow> sv_gen s' = sv_gen s \<and> sv_desired s' = sv_desired s"
  by (auto simp: ensure_running_def drop_stale_def stop_service_def clear_process_def start_service_def check_tun_def Let_def
    split: prod.splits option.splits sum.splits if_splits)


lemma pick_frame:
  "pick_stage z g (s, log) = (s', log', st) \<Longrightarrow> s' = s \<and> log' = log \<and>
     ((\<exists>e. e \<noteq> [] \<and> st = Storing (enabled_error e) False) \<or> (\<exists>c. st = Picked z g c (sv_applied s \<noteq> g)))"
  by (auto simp: pick_stage_def split: option.splits)

text \<open>What holds at the stages of a tick that has read the configuration \<open>z\<close> and goes undisturbed.\<close>

definition tick_ok :: "zt_config \<Rightarrow> supervisor \<Rightarrow> stage \<Rightarrow> bool" where
  "tick_ok z s st \<longleftrightarrow> sv_desired s = z \<and>
     (case st of
        Begun z' g \<Rightarrow> z' = z \<and> g = sv_gen s
      | Ready z' g \<Rightarrow> z' = z \<and> g = sv_gen s
      | Picked z' g c needs \<Rightarrow> z' = z \<and> g = sv_gen s \<and> (needs \<or> sv_applied s = g)
      | Talked z' c snap \<Rightarrow> z' = z \<and> sn_enabled snap \<and> (sn_err snap \<noteq> [] \<or> sv_applied s = sv_gen s)
      | Storing snap polled \<Rightarrow> sn_enabled snap \<and> (sn_err snap \<noteq> [] \<or> (polled \<and> sv_applied s = sv_gen s))
      | Announcing nets \<Rightarrow> nets = zt_gateway_nets s \<and> (sn_err (sv_snap s) \<noteq> [] \<or> sv_applied s = sv_gen s)
      | Idle \<Rightarrow> sn_err (sv_snap s) \<noteq> [] \<or> (sv_applied s = sv_gen s \<and> sv_gateway_sig s = gateway_signature (zt_gateway_nets s))
      | Halted \<Rightarrow> False)"

lemma tick_ok_talk:
  assumes "tick_ok z s (Picked z g c needs)" "talk_stage host z g c needs (s, log) = (s', log', st)"
  shows "tick_ok z s' st"
  using assms
  by (auto simp: talk_stage_def tick_ok_def keep_client_def zero_snapshot_def Let_def dest: client_errors reconcile_error
    split: prod.splits sum.splits option.splits if_splits)

lemma tick_ok_poll:
  assumes "tick_ok z s (Talked z c snap)" "poll_stage host now z c snap (s, log) = (s', log', st)"
  shows "tick_ok z s' st"
  using assms
  by (auto simp: poll_stage_def with_counters_def tick_ok_def keep_client_def Let_def dest: client_errors
    split: prod.splits sum.splits option.splits if_splits)

lemma tick_ok_ensure:
  assumes "tick_ok z s (Begun z g)" "zt_enabled z" "ensure_stage host now z g (s, log) = (s', log', st)"
  shows "tick_ok z s' st"
proof -
  obtain s1 log1 r where e: "ensure_running host now z (s, log) = ((s1, log1), r)" by (metis prod.collapse)
  from ensure_frame [OF e] assms ensure_error [of host now z "(s, log)"] e show ?thesis
    by (auto simp: ensure_stage_def tick_ok_def enabled_error_def zero_snapshot_def split: option.splits)
qed

lemma tick_ok_stage:
  assumes "tick_ok z s st" "zt_enabled z" "st \<noteq> Idle" "tick_stage host now (s, log, st) = (s', log', st')"
  shows "tick_ok z s' st'"
proof (cases st)
  case (Begun z' g)
  then have "z' = z" using assms(1) by (simp add: tick_ok_def)
  with Begun assms tick_ok_ensure show ?thesis by simp
next
  case (Ready z' g)
  with assms pick_frame [of z g s log s' log' st'] show ?thesis
    by (auto simp: tick_ok_def enabled_error_def zero_snapshot_def)
next
  case (Picked z' g c needs)
  then have "z' = z" using assms(1) by (simp add: tick_ok_def)
  with Picked assms tick_ok_talk show ?thesis by simp
next
  case (Talked z' c snap)
  then have "z' = z" using assms(1) by (simp add: tick_ok_def)
  with Talked assms tick_ok_poll show ?thesis by simp
next
  case (Storing snap polled)
  with assms show ?thesis
    by (auto simp: tick_ok_def store_stage_def set_snapshot_def zt_gateway_nets_def snapshot_version_def Let_def)
next
  case (Announcing nets)
  with assms show ?thesis
    by (auto simp: tick_ok_def announce_stage_def notify_gateway_change_def zt_gateway_nets_def snapshot_version_def Let_def)
qed (use assms in \<open>simp_all add: tick_ok_def\<close>)


fun stages_left :: "stage \<Rightarrow> nat" where
  "stages_left Idle = 0"
| "stages_left (Announcing _) = 1"
| "stages_left (Storing _ _) = 2"
| "stages_left (Talked _ _ _) = 3"
| "stages_left (Picked _ _ _ _) = 4"
| "stages_left (Ready _ _) = 5"
| "stages_left (Begun _ _) = 6"
| "stages_left Halted = 0"

lemma stages_decrease:
  assumes "tick_stage host now (s, log, st) = (s', log', st')" "st \<noteq> Idle" "st \<noteq> Halted"
  shows "stages_left st' < stages_left st \<and> st' \<noteq> Halted"
  using assms
  by (cases st) (auto simp: ensure_stage_def pick_stage_def talk_stage_def poll_stage_def store_stage_def announce_stage_def Let_def
    split: prod.splits option.splits sum.splits if_splits)

lemma run_stages_Idle:
  "stages_left st \<le> n \<Longrightarrow> st \<noteq> Halted \<Longrightarrow> snd (snd (run_stages n host now (s, log, st))) = Idle"
proof (induction n arbitrary: s log st)
  case 0
  then show ?case by (cases st) simp_all
next
  case (Suc n)
  obtain s1 log1 st1 where t: "tick_stage host now (s, log, st) = (s1, log1, st1)" by (metis prod.collapse)
  show ?case
  proof (cases "st = Idle")
    case False
    with stages_decrease [OF t False Suc.prems(2)] Suc.IH [of st1 s1 log1] Suc.prems(1) t show ?thesis by simp
  qed simp
qed

lemma run_stages_keeps:
  assumes "\<And>s log st s' log' st'. P s log st \<Longrightarrow> st \<noteq> Idle \<Longrightarrow> tick_stage host now (s, log, st) = (s', log', st') \<Longrightarrow> P s' log' st'"
    "P s log st" "run_stages n host now (s, log, st) = (s', log', st')"
  shows "P s' log' st'"
  using assms(2,3)
proof (induction n arbitrary: s log st)
  case (Suc n)
  obtain s1 log1 st1 where t: "tick_stage host now (s, log, st) = (s1, log1, st1)" by (metis prod.collapse)
  show ?case
  proof (cases "st = Idle")
    case False
    from Suc.IH [of s1 log1 st1] assms(1) [OF Suc.prems(1) False t] Suc.prems(2) False t show ?thesis by simp
  qed (use Suc.prems in simp)
qed simp


text \<open>A tick that finds the service disabled.\<close>

lemma stop_service_quiet:
  "stop_service host (s, log) = (s', log') \<Longrightarrow>
   sv_gateway_sig s' = sv_gateway_sig s \<and> (\<exists>es. log' = log @ es \<and> (\<forall>sig. Notified sig \<notin> set es))"
  by (auto simp: stop_service_def clear_process_def Let_def split: option.splits if_splits)


lemma zt_run_tick: "zt_run host (s, log, Idle) \<Longrightarrow> zt_run host (tick host now (s, log))"
proof -
  have "zt_run host x \<Longrightarrow> zt_run host (run_stages n host now x)" for n x
    by (induction n arbitrary: x) (simp_all add: zt_run.staged)
  then show "zt_run host (s, log, Idle) \<Longrightarrow> zt_run host (tick host now (s, log))"
    using zt_run.staged [of host "(s, log, Idle)" now] by (simp add: tick_def)
qed

section \<open>Properties\<close>

text \<open>However requests, exits and ticks interleave, at most one ZeroTier process is alive.\<close>

theorem one_service: "zt_run host (s, log, st) \<Longrightarrow> length (live log) \<le> 1"
  using zt_run_inv [of host s log st] by (simp add: zt_inv_def attached_def)



text \<open>C31: a reconcile that succeeds leaves the service in exactly the configured networks,
  whatever it was in before.\<close>

theorem reconcile_joins_exactly:
  assumes "reconcile_networks host z (c, log) = (t, None)"
    and "\<And>r a ns. zr_path r = ''/network'' \<Longrightarrow> zh_daemon host (log @ [Asked r]) = Inr a \<Longrightarrow> za_as_networks a = Inr ns \<Longrightarrow>
           (\<lambda>n. to_lower (jn_id n)) ` set (elems ns) = joined_ids J log"
  shows "joined_ids J (snd t) = (\<lambda>n. to_lower (zn_id n)) ` set (zt_networks z)"
proof -
  let ?W = "(\<lambda>n. to_lower (zn_id n)) ` set (zt_networks z)"
  from assms(1) obtain t1 t2 ns where
    1: "client_networks host (c, log) = (t1, Inr ns)" and 2: "join_all host (zt_networks z) t1 = (t2, None)"
    and 3: "leave_others host (map (\<lambda>n. to_lower (zn_id n)) (zt_networks z)) (elems ns) t2 = (t, None)"
    by (auto simp: reconcile_networks_def split: prod.splits sum.splits option.splits)
  from 1 obtain a where "do_request host ''GET'' ''/network'' None (c, log) = (t1, Inr a)" and a: "za_as_networks a = Inr ns"
    by (auto simp: client_networks_def decoded_def split: prod.splits sum.splits)
  from do_request_Inr [OF this(1)] obtain r where r: "zr_method r = ''GET''" "zr_path r = ''/network''"
    "snd t1 = log @ [Asked r]" "zh_daemon host (snd t1) = Inr a" by blast
  have "joined_ids J (snd t1) = joined_ids J log" using r(1,3) by (simp add: joined_step_def)
  moreover have "(\<lambda>n. to_lower (jn_id n)) ` set (elems ns) = joined_ids J log" using assms(2) r a by metis
  ultimately show ?thesis
    using join_all_joined [OF 2, of J] leave_others_joined [OF 3, of J] by auto
qed

text \<open>An undisturbed tick ends, and if the snapshot it leaves shows no error then the
  wanted networks are applied and the gateway networks it shows are the announced ones.\<close>

theorem healthy_tick:
  assumes "tick host now (s, log) = (s', log', st)" "zt_enabled (sv_desired s)" "sn_err (sv_snap s') = []"
  shows "st = Idle \<and> sv_applied s' = sv_gen s' \<and> sv_gateway_sig s' = gateway_signature (zt_gateway_nets s')"
proof -
  let ?z = "sv_desired s" let ?st = "Begun (sv_desired s) (sv_gen s)"
  have r: "run_stages 6 host now (s, log, ?st) = (s', log', st)" using assms(1) by (simp add: tick_def)
  have "tick_ok ?z s ?st" by (simp add: tick_ok_def)
  then have "tick_ok ?z s' st"
    using run_stages_keeps [of "\<lambda>s log st. tick_ok ?z s st", OF _ _ r] tick_ok_stage [OF _ assms(2)] by blast
  moreover have "st = Idle" using run_stages_Idle [of ?st 6 host now s log] r by simp
  ultimately show ?thesis using assms(3) by (simp add: tick_ok_def)
qed

text \<open>C34: a tick that finds the service disabled empties the gateway networks without telling
  the callback, and keeps the signature, so that the same networks coming back are not announced either.\<close>

theorem disabling_is_not_announced:
  assumes "tick host now (s, log) = (s', log', st)" "\<not> zt_enabled (sv_desired s)"
  shows "zt_gateway_nets s' = [] \<and> sv_gateway_sig s' = sv_gateway_sig s \<and>
    (\<exists>es. log' = log @ es \<and> (\<forall>sig. Notified sig \<notin> set es)) \<and>
    (\<forall>nets. gateway_signature nets = sv_gateway_sig s \<longrightarrow> snd (notify_gateway_change nets (s', log')) = log')"
proof -
  obtain s1 log1 where s1: "stop_service host (s, log) = (s1, log1)" by fastforce
  from assms have "s' = set_snapshot zero_snapshot s1" "log' = log1"
    by (simp_all add: tick_def ensure_stage_def s1 store_stage_def eval_nat_numeral)
  with stop_service_quiet [OF s1] show ?thesis
    by (simp add: set_snapshot_def zt_gateway_nets_def snapshot_version_def zero_snapshot_def elems_def network_gateways_def
      notify_gateway_change_def Let_def)
qed

section \<open>Concrete runs\<close>

definition sample_joined :: "string \<Rightarrow> joined_network" where
  "sample_joined i = \<lparr>jn_id = i, jn_name = ''lan'', jn_status = ''OK'', jn_type = ''PRIVATE'', jn_mac = [], jn_mtu = 2800, jn_bridge = False,
     jn_broadcast = True, jn_revision = 1, jn_device = ''zt0'', jn_port_error = 0, jn_addresses = Some [''10.147.20.5/24''],
     jn_routes = None, jn_dns = \<lparr>pd_domain = [], pd_servers = None\<rparr>, jn_managed = True, jn_global = False, jn_default = False, jn_allow_dns = False\<rparr>"

definition sample_host :: "string + nat \<Rightarrow> zt_host" where
  "sample_host start = \<lparr>zh_token = (\<lambda>_. Inr ''secret''),
     zh_daemon = (\<lambda>_. Inr \<lparr>za_code = 200, za_status = ''200 OK'', za_detail = [],
       za_as_status = Inr \<lparr>ns_address = ''0123456789'', ns_online = True, ns_version = ''1.14'', ns_tcp_fallback = False, ns_clock = 0\<rparr>,
       za_as_networks = Inr (Some [sample_joined ''8056c2e21c0000ff'']), za_as_peers = Inr None\<rparr>),
     zh_mkdir = (\<lambda>_. None), zh_tun = (\<lambda>_. True), zh_start = (\<lambda>_. start), zh_exits = (\<lambda>_. True), zh_counter = (\<lambda>_ _ _. None)\<rparr>"

definition sample_wish :: zt_config where
  "sample_wish = zero_zerotier\<lparr>zt_enabled := True, zt_networks :=
     [\<lparr>zn_id = ''8056C2E21C000001'', zn_name = ''home'', zn_managed = True, zn_global = False, zn_default = False, zn_dns = False\<rparr>]\<rparr>"

definition sample_app :: app_config where
  "sample_app = zero_config\<lparr>cfg_zerotier := sample_wish\<rparr>"

definition sample_first :: "string + nat \<Rightarrow> zt_state" where
  "sample_first start = tick (sample_host start) (20 * second) (zt_configure sample_app (new_supervisor []), [Configured sample_wish])"

definition sample_second :: "string + nat \<Rightarrow> zt_state" where
  "sample_second start = tick (sample_host start) (40 * second) (fst (sample_first start), fst (snd (sample_first start)))"

lemma tick_Idle: "snd (snd (tick host now (s, log))) = Idle"
  using run_stages_Idle [of "Begun (sv_desired s) (sv_gen s)" 6] by (simp add: tick_def)

lemma sample_first_run: "zt_run (sample_host start) (sample_first start)"
  using zt_run.configured [OF zt_run.created [of "sample_host start" "[]"], of sample_app] zt_run_tick
  by (simp add: sample_first_def sample_app_def)

lemma sample_second_run: "zt_run (sample_host start) (sample_second start)"
proof -
  have "snd (snd (sample_first start)) = Idle" by (simp add: sample_first_def tick_Idle)
  then have "zt_run (sample_host start) (fst (sample_first start), fst (snd (sample_first start)), Idle)"
    using sample_first_run by (metis prod.collapse)
  from zt_run_tick [OF this] show ?thesis by (simp add: sample_second_def)
qed

lemma sample_facts:
  "live (fst (snd (sample_first (Inr 7)))) = [7]" "sv_process (fst (sample_first (Inr 7))) = Some 7"
  "sv_applied (fst (sample_first (Inr 7))) = 1" "sv_gen (fst (sample_first (Inr 7))) = 1"
  "fst (wishes (fst (snd (sample_first (Inr 7))))) = 1" "sn_err (sv_snap (fst (sample_first (Inr 7)))) = []"
  "fst (snd (sample_second (Inl ''not found''))) = [Configured sample_wish] @ Attempted (20 * second) (service_command 9993 [])
     # [] @ Attempted (40 * second) (service_command 9993 []) # []"
  by code_simp+

theorem one_service_witness: "length [7 :: nat] \<le> 1 \<and> live (fst (snd (sample_first (Inr 7)))) = [7]"
  using one_service [of "sample_host (Inr 7)" "fst (sample_first (Inr 7))" "fst (snd (sample_first (Inr 7)))" "snd (snd (sample_first (Inr 7)))"]
    sample_first_run [of "Inr 7"] by (simp add: sample_facts)



theorem healthy_tick_witness: "sv_applied (fst (sample_first (Inr 7))) = sv_gen (fst (sample_first (Inr 7)))"
proof -
  let ?s = "zt_configure sample_app (new_supervisor [])" let ?log = "[Configured sample_wish]"
  have "zt_enabled (sv_desired ?s)" by code_simp
  moreover have "tick (sample_host (Inr 7)) (20 * second) (?s, ?log) =
    (fst (sample_first (Inr 7)), fst (snd (sample_first (Inr 7))), snd (snd (sample_first (Inr 7))))" by (simp add: sample_first_def)
  ultimately show ?thesis using healthy_tick sample_facts(6) by blast
qed

theorem disabling_is_not_announced_witness:
  "zt_gateway_nets (fst (tick (sample_host (Inr 7)) (20 * second) (new_supervisor [], []))) = []"
proof -
  let ?x = "tick (sample_host (Inr 7)) (20 * second) (new_supervisor [], [])"
  have "\<not> zt_enabled (sv_desired (new_supervisor []))" by code_simp
  with disabling_is_not_announced [of "sample_host (Inr 7)" "20 * second" "new_supervisor []" "[]" "fst ?x" "fst (snd ?x)" "snd (snd ?x)"]
  show ?thesis by simp
qed

theorem reconcile_joins_exactly_witness:
  "joined_ids {''8056c2e21c0000ff''} (snd (fst (reconcile_networks (sample_host (Inr 7)) sample_wish (new_client [] 9993, []))))
     = {''8056c2e21c000001''}"
proof -
  let ?r = "reconcile_networks (sample_host (Inr 7)) sample_wish (new_client [] 9993, [])"
  have "snd ?r = None" by code_simp
  then have r: "?r = (fst ?r, None)" by (metis prod.collapse)
  have d: "to_lower (jn_id (sample_joined ''8056c2e21c0000ff'')) = ''8056c2e21c0000ff''" by code_simp
  have "joined_ids {''8056c2e21c0000ff''} (snd (fst ?r)) = (\<lambda>n. to_lower (zn_id n)) ` set (zt_networks sample_wish)"
    by (rule reconcile_joins_exactly [OF r]) (auto simp: sample_host_def elems_def d)
  moreover have "(\<lambda>n. to_lower (zn_id n)) ` set (zt_networks sample_wish) = {''8056c2e21c000001''}" by code_simp
  ultimately show ?thesis by simp
qed

end
