(* ===== verification/Formatting.thy ===== *)
theory Formatting
  imports Stats
begin

text \<open>
  Numbers, sizes, durations and ages as the pages print them: the formatting functions of
  \<^verbatim>\<open>internal/wgstats/wgstats.go\<close> and \<^verbatim>\<open>internal/handlers/system.go\<close>.  The conversion of a
  counter to \<^verbatim>\<open>float64\<close> rounds to 53 bits; seconds, minutes and hours are exact quotients.
\<close>

section \<open>Numbers as text\<close>

text \<open>Division and conversion to \<^verbatim>\<open>int\<close> round towards zero.\<close>

definition trunc_div :: "int \<Rightarrow> int \<Rightarrow> int" where
  "trunc_div a b = sgn a * (\<bar>a\<bar> div b)"

definition int_dec :: "int \<Rightarrow> string" where
  "int_dec i = (if i < 0 then ''-'' @ nat_dec (nat (- i)) else nat_dec (nat i))"

definition round_half_even :: "nat \<Rightarrow> nat \<Rightarrow> nat" where
  "round_half_even n d =
     (let q = n div d; r = n mod d in
      if 2 * r < d then q else if d < 2 * r then q + 1 else if even q then q else q + 1)"

fun bit_size :: "nat \<Rightarrow> nat" where
  "bit_size n = (if n = 0 then 0 else Suc (bit_size (n div 2)))"

declare bit_size.simps [simp del]

text \<open>\<^verbatim>\<open>float64(n)\<close>: 53 significant bits.\<close>

definition float_of_nat :: "nat \<Rightarrow> nat" where
  "float_of_nat n = (if n < 2 ^ 53 then n else let u = 2 ^ (bit_size n - 53) in round_half_even n u * u)"

text \<open>\<^verbatim>\<open>%.1f\<close> of a quotient by a power of two, which is exact in floating point.\<close>

definition fixed1 :: "nat \<Rightarrow> nat \<Rightarrow> string" where
  "fixed1 n d = (let t = round_half_even (10 * n) d in nat_dec (t div 10) @ ''.'' @ nat_dec (t mod 10))"

section \<open>wgstats\<close>

definition format_bytes :: "int \<Rightarrow> string" where
  "format_bytes b =
     (let f = float_of_nat (nat b) in
      if 1024 ^ 4 \<le> b then fixed1 f (1024 ^ 4) @ '' TB''
      else if 1024 ^ 3 \<le> b then fixed1 f (1024 ^ 3) @ '' GB''
      else if 1024 ^ 2 \<le> b then fixed1 f (1024 ^ 2) @ '' MB''
      else if 1024 \<le> b then fixed1 f 1024 @ '' KB''
      else int_dec b @ '' B'')"

definition format_bytes_per_sec :: "rate \<Rightarrow> string" where
  "format_bytes_per_sec r = format_bytes (trunc_div (fst r * second) (snd r)) @ ''/s''"

definition format_duration :: "int \<Rightarrow> string" where
  "format_duration d =
     (let s = trunc_div d second in
      if d < 60 * second then int_dec s @ ''s''
      else if d < 3600 * second then int_dec (s div 60) @ ''m '' @ int_dec (s mod 60) @ ''s''
      else let hours = s div 3600; minutes = s div 60 mod 60 in
        if 24 \<le> hours then int_dec (hours div 24) @ ''d '' @ int_dec (hours mod 24) @ ''h '' @ int_dec minutes @ ''m''
        else int_dec hours @ ''h '' @ int_dec minutes @ ''m'')"

definition format_handshake :: "gotime \<Rightarrow> gotime \<Rightarrow> string" where
  "format_handshake now t =
     (if t = 0 then ''never''
      else let d = now - t; s = trunc_div d second in
        if d < 60 * second then int_dec s @ ''s ago''
        else if d < 3600 * second then int_dec (s div 60) @ ''m ago''
        else if d < 24 * 3600 * second then int_dec (s div 3600) @ ''h ago''
        else int_dec (s div 3600 div 24) @ ''d ago'')"

section \<open>The system page\<close>

text \<open>The unit and its exponent; the test of the exponent ends the loop before the product overflows.\<close>

fun system_unit :: "nat \<Rightarrow> int \<Rightarrow> int \<Rightarrow> int \<times> nat" where
  "system_unit 0 v d = (d, 5)"
| "system_unit (Suc left) v d = (if d * 1024 \<le> v then system_unit left v (d * 1024) else (d, 4 - left))"

definition format_system_bytes :: "int \<Rightarrow> string" where
  "format_system_bytes v =
     (if v < 1024 then int_dec v @ '' B''
      else case system_unit 5 v 1024 of
             (d, e) \<Rightarrow> fixed1 (float_of_nat (nat v)) (nat d) @ '' '' @ [''KMGTPE'' ! e] @ ''iB'')"

definition format_system_handshake :: "(gotime \<Rightarrow> string) \<Rightarrow> gotime \<Rightarrow> gotime \<Rightarrow> string" where
  "format_system_handshake local_time now t =
     (if t = 0 then ''nie''
      else let age = max 0 (now - t); s = age div second in
        if age < 60 * second then ''vor '' @ int_dec s @ '' s''
        else if age < 3600 * second then ''vor '' @ int_dec (s div 60) @ '' min''
        else if age < 24 * 3600 * second then ''vor '' @ int_dec (s div 3600) @ '' h''
        else local_time t)"

text \<open>\<^verbatim>\<open>Duration.String\<close> of a whole number of seconds, and \<^verbatim>\<open>Duration.Round(time.Second)\<close>.\<close>

definition duration_string :: "int \<Rightarrow> string" where
  "duration_string i =
     (let s = nat \<bar>i\<bar> in
      (if i < 0 then ''-'' else []) @ (if 3600 \<le> s then nat_dec (s div 3600) @ ''h'' else [])
        @ (if 60 \<le> s then nat_dec (s div 60 mod 60) @ ''m'' else []) @ nat_dec (s mod 60) @ ''s'')"

definition round_seconds :: "int \<Rightarrow> int" where
  "round_seconds d = sgn d * ((\<bar>d\<bar> + second div 2) div second)"

text \<open>The unit is the largest one that does not exceed the number.\<close>

lemma system_unit_fits:
  "1024 \<le> v \<Longrightarrow> system_unit 5 v 1024 = (d, e) \<Longrightarrow>
   e \<le> 5 \<and> d = 1024 ^ Suc e \<and> d \<le> v \<and> (e < 5 \<longrightarrow> v < 1024 * d)"
  by (auto simp: eval_nat_numeral split: if_splits)

end
