(* ===== verification/Bgp_Stats.thy ===== *)
theory Bgp_Stats
  imports Bgp Slices Formatting
begin

text \<open>
  \<^verbatim>\<open>internal/bgp/stats.go\<close> and \<^verbatim>\<open>internal/bgp/listener.go\<close>: the statistics snapshot of the
  BGP service with its cache, the watcher of the advertised routes, and the listeners handed to the
  BGP library.  What the library reports (metrics, tables) and what the sockets do are arguments.
\<close>

section \<open>The statistics\<close>

record bgp_route =
  br_prefix :: string
  br_next_hop :: string
  br_local_pref :: u32
  br_as_path :: string
  br_status :: string

record bgp_peer_stats =
  bs_name :: string
  bs_ip :: string
  bs_asn :: u32
  bs_state :: string
  bs_uptime :: string
  bs_updates :: u64
  bs_routes :: "bgp_route list"
  bs_advertised :: "bgp_route list"

record bgp_stats =
  st_router_id :: string
  st_asn :: u32
  st_running :: bool
  st_peers :: "bgp_peer_stats list"

text \<open>A table of the library: each prefix with its paths, as next hop, local preference and AS path.\<close>

type_synonym rib = "(string \<times> (string \<times> u32 \<times> string) list) list"

record peer_metric =
  pm_ip :: string
  pm_asn :: u32
  pm_state :: nat
  pm_updates :: u64
  pm_since :: gotime

record bgp_view =
  bv_router_id :: string
  bv_asn :: u32
  bv_names :: "string \<Rightarrow> string option"
  bv_metrics :: "peer_metric list option"
  bv_loc_v4 :: "string \<Rightarrow> bool"
  bv_loc_v6 :: "string \<Rightarrow> bool"
  bv_in_v4 :: "string \<Rightarrow> rib option"
  bv_in_v6 :: "string \<Rightarrow> rib option"
  bv_out_v4 :: "string \<Rightarrow> rib option"
  bv_out_v6 :: "string \<Rightarrow> rib option"

definition bgp_state_to_string :: "nat \<Rightarrow> string" where
  "bgp_state_to_string st =
     (if st = 0 then ''Down'' else if st = 1 then ''Idle'' else if st = 2 then ''Connect'' else if st = 3 then ''Active''
      else if st = 4 then ''OpenSent'' else if st = 5 then ''OpenConfirm'' else if st = 6 then ''Established'' else ''Unknown'')"

definition rib_routes :: "(string \<Rightarrow> string) \<Rightarrow> rib option \<Rightarrow> bgp_route list" where
  "rib_routes status r =
     concat (map (\<lambda>(p, paths). map (\<lambda>(nh, lp, asp).
         \<lparr>br_prefix = p, br_next_hop = nh, br_local_pref = lp, br_as_path = asp, br_status = status p\<rparr>) paths)
       (the_default [] r))"

definition in_status :: "(string \<Rightarrow> bool) \<Rightarrow> string \<Rightarrow> string" where
  "in_status loc p = (if loc p then ''Accepted'' else ''Filtered'')"

definition received_routes :: "bgp_view \<Rightarrow> string \<Rightarrow> bgp_route list" where
  "received_routes v ip =
     rib_routes (in_status (bv_loc_v4 v)) (bv_in_v4 v ip) @ rib_routes (in_status (bv_loc_v6 v)) (bv_in_v6 v ip)"

definition advertised_routes :: "bgp_view \<Rightarrow> string \<Rightarrow> bgp_route list" where
  "advertised_routes v ip = rib_routes (\<lambda>_. ''Advertised'') (bv_out_v4 v ip) @ rib_routes (\<lambda>_. ''Advertised'') (bv_out_v6 v ip)"

definition accepted_first :: "bgp_route \<Rightarrow> bgp_route \<Rightarrow> bool" where
  "accepted_first a b \<longleftrightarrow> br_status a = ''Accepted'' \<and> br_status b \<noteq> ''Accepted''"

definition peer_stats_of :: "gotime \<Rightarrow> bgp_view \<Rightarrow> peer_metric \<Rightarrow> bgp_peer_stats" where
  "peer_stats_of now v pm =
     (let ip = pm_ip pm; established = pm_state pm = 6 in
      \<lparr>bs_name = the_default [] (bv_names v ip), bs_ip = ip, bs_asn = pm_asn pm, bs_state = bgp_state_to_string (pm_state pm),
       bs_uptime = (if pm_since pm \<noteq> 0 \<and> established then duration_string (trunc_div (now - pm_since pm) second) else ''0s''),
       bs_updates = pm_updates pm,
       bs_routes = sort_slice accepted_first (if established then received_routes v ip else []),
       bs_advertised = (if established then advertised_routes v ip else [])\<rparr>)"

definition peer_ip_before :: "bgp_peer_stats \<Rightarrow> bgp_peer_stats \<Rightarrow> bool" where
  "peer_ip_before a b \<longleftrightarrow> bs_ip a < bs_ip b"

definition collect_bgp_stats :: "gotime \<Rightarrow> bgp_view option \<Rightarrow> bgp_stats" where
  "collect_bgp_stats now active =
     (case active of
        None \<Rightarrow> \<lparr>st_router_id = [], st_asn = 0, st_running = False, st_peers = []\<rparr>
      | Some v \<Rightarrow>
          \<lparr>st_router_id = bv_router_id v, st_asn = bv_asn v, st_running = True,
           st_peers = sort_slice peer_ip_before (map (peer_stats_of now v) (the_default [] (bv_metrics v)))\<rparr>)"

section \<open>The cache\<close>

text \<open>The runtime is known by its identity; \<open>None\<close> is no runtime.\<close>

record stats_cache =
  sc_runtime :: "nat option"
  sc_until :: gotime
  sc_value :: "bgp_stats option"

definition stats_cache_ttl :: gotime where
  "stats_cache_ttl = 2 * second"

definition empty_cache :: stats_cache where
  "empty_cache = \<lparr>sc_runtime = None, sc_until = 0, sc_value = None\<rparr>"

definition get_bgp_stats :: "gotime \<Rightarrow> nat option \<Rightarrow> bgp_view option \<Rightarrow> stats_cache \<Rightarrow> stats_cache \<times> bgp_stats" where
  "get_bgp_stats now rt v c =
     (case sc_value c of
        Some s \<Rightarrow>
          if sc_runtime c = rt \<and> now < sc_until c then (c, s)
          else (let s' = collect_bgp_stats now v in (\<lparr>sc_runtime = rt, sc_until = now + stats_cache_ttl, sc_value = Some s'\<rparr>, s'))
      | None \<Rightarrow> (let s' = collect_bgp_stats now v in (\<lparr>sc_runtime = rt, sc_until = now + stats_cache_ttl, sc_value = Some s'\<rparr>, s')))"

section \<open>The watcher\<close>

text \<open>The prefixes sent to each peer of the service; a peer without any is no key of the map.\<close>

definition advertised_routes_by_peer :: "(bgp_view \<times> string list) option \<Rightarrow> (string \<times> string list) list" where
  "advertised_routes_by_peer active =
     (case active of
        None \<Rightarrow> []
      | Some (v, ips) \<Rightarrow>
          concat (map (\<lambda>ip.
            let ps = advertised_prefixes (map_option (map fst) (bv_out_v4 v ip)) (map_option (map fst) (bv_out_v6 v ip)) in
            if ps = [] then [] else [(ip, ps)]) ips))"

text \<open>One round: the signature seen last, and whether the callback runs.\<close>

definition watch_round :: "bool \<Rightarrow> (string \<times> string list) list \<Rightarrow> string \<Rightarrow> string \<times> bool" where
  "watch_round callback routes prev =
     (let sig = advertised_signature routes in if sig \<noteq> prev then (sig, callback) else (prev, False))"

section \<open>The listeners\<close>

text \<open>A listener is known by its number; opening one either fails or yields a number.\<close>

record listener_manager =
  lm_addresses :: "string \<Rightarrow> string list"
  lm_listeners :: "string \<Rightarrow> nat list option"
  lm_vrfs :: "string list"
  lm_closed :: bool

datatype socket_event = Opened nat string | Closed nat

definition new_listener_manager :: "(string \<Rightarrow> string list) \<Rightarrow> listener_manager" where
  "new_listener_manager addresses = \<lparr>lm_addresses = addresses, lm_listeners = (\<lambda>_. None), lm_vrfs = [], lm_closed = False\<rparr>"

definition listen_addrs :: "listener_manager \<Rightarrow> string \<Rightarrow> string list" where
  "listen_addrs m v = lm_addresses m v"

definition get_listeners :: "listener_manager \<Rightarrow> string \<Rightarrow> nat list" where
  "get_listeners m v = the_default [] (lm_listeners m v)"

definition close_listeners :: "nat list \<Rightarrow> socket_event list \<Rightarrow> socket_event list" where
  "close_listeners ls log = log @ map Closed ls"

fun open_listeners :: "(socket_event list \<Rightarrow> string \<Rightarrow> string + nat) \<Rightarrow> string list \<Rightarrow> nat list \<Rightarrow> socket_event list \<Rightarrow> socket_event list \<times> (string + nat list)" where
  "open_listeners sys [] created log = (log, Inr created)"
| "open_listeners sys (a # as) created log =
     (case sys log a of
        Inl e \<Rightarrow> (close_listeners created log, Inl e)
      | Inr l \<Rightarrow> open_listeners sys as (created @ [l]) (log @ [Opened l a]))"

definition create_listeners :: "(socket_event list \<Rightarrow> string \<Rightarrow> string + nat) \<Rightarrow> string \<Rightarrow> listener_manager \<times> socket_event list \<Rightarrow> (listener_manager \<times> socket_event list) \<times> string option" where
  "create_listeners sys v x =
     (case x of (m, log) \<Rightarrow>
        if lm_listeners m v \<noteq> None then ((m, log), None)
        else (case open_listeners sys (lm_addresses m v) [] log of
                (log1, Inl e) \<Rightarrow> ((m, log1), Some e)
              | (log1, Inr ls) \<Rightarrow> ((m\<lparr>lm_listeners := (lm_listeners m)(v \<mapsto> ls), lm_vrfs := lm_vrfs m @ [v]\<rparr>, log1), None)))"

definition close_manager :: "listener_manager \<times> socket_event list \<Rightarrow> listener_manager \<times> socket_event list" where
  "close_manager x =
     (case x of (m, log) \<Rightarrow>
        if lm_closed m then (m, log)
        else (m\<lparr>lm_closed := True, lm_listeners := (\<lambda>_. None), lm_vrfs := []\<rparr>,
              close_listeners (concat (map (get_listeners m) (lm_vrfs m))) log))"

text \<open>An accepted connection sets the time to live before its first write; a failure stays.\<close>

record managed_conn =
  mc_ttl :: nat
  mc_set :: "string option option"

definition conn_write :: "(nat \<Rightarrow> string option) \<Rightarrow> (string \<Rightarrow> string option) \<Rightarrow> string \<Rightarrow> managed_conn \<Rightarrow> managed_conn \<times> string option" where
  "conn_write set_ttl send p c =
     (let c1 = (if mc_set c = None then c\<lparr>mc_set := Some (set_ttl (mc_ttl c))\<rparr> else c) in
      (case mc_set c1 of
         Some (Some e) \<Rightarrow> (c1, Some e)
       | _ \<Rightarrow> (c1, send p)))"

section \<open>Order of the statistics\<close>

interpretation accepted_order: key_order accepted_first "\<lambda>r. br_status r \<noteq> ''Accepted''"
  by unfold_locales (auto simp: accepted_first_def)

interpretation peer_order: key_order peer_ip_before bs_ip
  by unfold_locales (simp add: peer_ip_before_def)

text \<open>Accepted routes come first, and sorting loses none.\<close>

lemma routes_accepted_first:
  "sorted_wrt (\<lambda>a b. br_status b = ''Accepted'' \<longrightarrow> br_status a = ''Accepted'') (bs_routes (peer_stats_of now v pm))
   \<and> mset (bs_routes (peer_stats_of now v pm)) = mset (if pm_state pm = 6 then received_routes v (pm_ip pm) else [])"
proof -
  have "sorted_wrt (\<lambda>a b. br_status b = ''Accepted'' \<longrightarrow> br_status a = ''Accepted'') (sort_slice accepted_first rs)" for rs
    using accepted_order.sort_pairs [of rs] by (rule sorted_wrt_mono_rel [rotated]) auto
  then show ?thesis by (simp add: peer_stats_of_def Let_def)
qed

lemma stats_peers_sorted: "sorted_wrt (\<lambda>a b. bs_ip a \<le> bs_ip b) (st_peers (collect_bgp_stats now active))"
  by (auto simp: collect_bgp_stats_def intro: peer_order.sort_pairs split: option.splits)

section \<open>Age of the cached statistics\<close>

datatype cache_event = Read gotime "nat option" "bgp_view option" | Invalidated

fun cache_step :: "stats_cache \<Rightarrow> cache_event \<Rightarrow> stats_cache" where
  "cache_step c (Read now rt v) = fst (get_bgp_stats now rt v c)"
| "cache_step c Invalidated = empty_cache"

definition cache_after :: "cache_event list \<Rightarrow> stats_cache" where
  "cache_after es = foldl cache_step empty_cache es"

text \<open>The events since the last invalidation, the latest first.\<close>

definition since_invalidated :: "cache_event list \<Rightarrow> cache_event list" where
  "since_invalidated es = takeWhile (\<lambda>e. e \<noteq> Invalidated) (rev es)"

definition cached_from :: "cache_event list \<Rightarrow> stats_cache \<Rightarrow> bool" where
  "cached_from es c \<longleftrightarrow> (\<forall>s. sc_value c = Some s \<longrightarrow>
     (\<exists>t v. Read t (sc_runtime c) v \<in> set es \<and> s = collect_bgp_stats t v \<and> sc_until c = t + stats_cache_ttl))"

lemma get_bgp_stats_cached:
  assumes "cached_from es c" "get_bgp_stats now rt v c = (c', s)"
  shows "cached_from (Read now rt v # es) c' \<and>
    (\<exists>t v'. Read t rt v' \<in> set (Read now rt v # es) \<and> s = collect_bgp_stats t v' \<and> now < t + stats_cache_ttl)"
proof -
  have n: "now < now + stats_cache_ttl" by (simp add: stats_cache_ttl_def second_def)
  show ?thesis
  proof (cases "\<exists>s0. sc_value c = Some s0 \<and> sc_runtime c = rt \<and> now < sc_until c")
    case True
    then obtain s0 where s0: "sc_value c = Some s0" "sc_runtime c = rt" "now < sc_until c" by blast
    with assms(2) have "c' = c" "s = s0" by (auto simp: get_bgp_stats_def)
    moreover from assms(1) s0 obtain t v' where "Read t rt v' \<in> set es" "s0 = collect_bgp_stats t v'" "sc_until c = t + stats_cache_ttl"
      by (auto simp: cached_from_def)
    ultimately show ?thesis using s0 assms(1) by (auto simp: cached_from_def)
  next
    case False
    with assms(2) have "c' = \<lparr>sc_runtime = rt, sc_until = now + stats_cache_ttl, sc_value = Some (collect_bgp_stats now v)\<rparr>"
      "s = collect_bgp_stats now v"
      by (auto simp: get_bgp_stats_def Let_def split: option.splits if_splits)
    with n show ?thesis
      by (intro conjI exI [of _ now] exI [of _ v]) (simp_all add: cached_from_def exI [of _ v])
  qed
qed

lemma cache_after_from: "cached_from (since_invalidated es) (cache_after es)"
proof (induction es rule: rev_induct)
  case Nil
  show ?case by (simp add: cache_after_def empty_cache_def cached_from_def)
next
  case (snoc e es)
  show ?case
  proof (cases e)
    case (Read now rt v)
    obtain c s where g: "get_bgp_stats now rt v (cache_after es) = (c, s)" by fastforce
    then have "cache_after (es @ [e]) = c" by (simp add: cache_after_def Read)
    with get_bgp_stats_cached [OF snoc.IH g] show ?thesis by (simp add: since_invalidated_def Read)
  next
    case Invalidated
    then show ?thesis by (simp add: cache_after_def since_invalidated_def empty_cache_def cached_from_def)
  qed
qed


section \<open>Open sockets\<close>

definition open_step :: "nat set \<Rightarrow> socket_event \<Rightarrow> nat set" where
  "open_step S e = (case e of Opened l _ \<Rightarrow> insert l S | Closed l \<Rightarrow> S - {l})"

definition open_sockets :: "socket_event list \<Rightarrow> nat set" where
  "open_sockets log = foldl open_step {} log"

lemma open_sockets_simps [simp]:
  "open_sockets [] = {}" "open_sockets (log @ [Opened l a]) = insert l (open_sockets log)" 
  by (simp_all add: open_sockets_def open_step_def)

lemma open_sockets_closed [simp]: "open_sockets (log @ map Closed ls) = open_sockets log - set ls"
  by (induction ls rule: rev_induct) (auto simp: open_sockets_def open_step_def)

text \<open>A new socket is not one that is open.\<close>

definition fresh_sockets :: "(socket_event list \<Rightarrow> string \<Rightarrow> string + nat) \<Rightarrow> bool" where
  "fresh_sockets sys \<longleftrightarrow> (\<forall>log a l. sys log a = Inr l \<longrightarrow> l \<notin> open_sockets log)"

lemma open_listeners_open:
  "open_listeners sys as created log = (log', r) \<Longrightarrow> fresh_sockets sys \<Longrightarrow> set created \<subseteq> open_sockets log \<Longrightarrow>
   case r of
     Inl e \<Rightarrow> open_sockets log' = open_sockets log - set created
   | Inr ls \<Rightarrow> open_sockets log' = open_sockets log \<union> set ls \<and> set created \<subseteq> set ls
       \<and> set ls \<inter> (open_sockets log - set created) = {}"
proof (induction sys as created log arbitrary: log' r rule: open_listeners.induct)
  case (2 sys a as created log)
  show ?case
  proof (cases "sys log a")
    case (Inl e)
    with 2(2) show ?thesis by (auto simp: close_listeners_def)
  next
    case (Inr l)
    then have "l \<notin> open_sockets log" using 2(3) by (simp add: fresh_sockets_def)
    moreover have "set (created @ [l]) \<subseteq> open_sockets (log @ [Opened l a])" using 2(4) by auto
    ultimately show ?thesis using 2(1) [OF Inr, of log' r] 2(2-4) Inr by (cases r) auto
  qed
qed auto

inductive listening :: "(socket_event list \<Rightarrow> string \<Rightarrow> string + nat) \<Rightarrow> listener_manager \<times> socket_event list \<Rightarrow> bool" for sys where
  fresh: "listening sys (new_listener_manager addresses, [])"
| create: "listening sys x \<Longrightarrow> create_listeners sys v x = (y, r) \<Longrightarrow> listening sys y"
| close: "listening sys x \<Longrightarrow> listening sys (close_manager x)"

definition held :: "listener_manager \<Rightarrow> nat set" where
  "held m = (\<Union>v. set (get_listeners m v))"

definition manager_ok :: "listener_manager \<Rightarrow> bool" where
  "manager_ok m \<longleftrightarrow> (\<forall>v. lm_listeners m v \<noteq> None \<longleftrightarrow> v \<in> set (lm_vrfs m))"

lemma held_vrfs: "manager_ok m \<Longrightarrow> held m = set (concat (map (get_listeners m) (lm_vrfs m)))"
  by (auto simp: held_def manager_ok_def get_listeners_def the_default_def split: option.splits) (metis option.distinct(1))

lemma create_listeners_ok:
  assumes "fresh_sockets sys" "manager_ok m" "open_sockets log = held m" "create_listeners sys v (m, log) = ((m', log'), r)"
  shows "manager_ok m' \<and> open_sockets log' = held m' \<and> (r \<noteq> None \<longrightarrow> open_sockets log' = open_sockets log)"
proof (cases "lm_listeners m v")
  case None
  obtain log1 q where q: "open_listeners sys (lm_addresses m v) [] log = (log1, q)" by fastforce
  note o = open_listeners_open [OF q assms(1)]
  show ?thesis
  proof (cases q)
    case (Inl e)
    with None q o assms show ?thesis by (simp add: create_listeners_def)
  next
    case (Inr ls)
    let ?m = "m\<lparr>lm_listeners := (lm_listeners m)(v \<mapsto> ls), lm_vrfs := lm_vrfs m @ [v]\<rparr>"
    have "m' = ?m" "log' = log1" "r = None" using None q Inr assms(4) by (simp_all add: create_listeners_def)
    moreover have "held ?m = held m \<union> set ls"
    proof -
      have g: "get_listeners ?m = (get_listeners m)(v := ls)" "get_listeners m v = []"
        using None by (auto simp: get_listeners_def)
      have "(\<Union>w. set (((get_listeners m)(v := ls)) w)) = set ls \<union> (\<Union>w \<in> - {v}. set (get_listeners m w))"
        by (auto split: if_splits)
      moreover have "held m = (\<Union>w \<in> - {v}. set (get_listeners m w))" using g(2) by (force simp: held_def)
      ultimately show ?thesis unfolding held_def [of ?m] g(1) by auto
    qed
    ultimately show ?thesis using o Inr assms(2,3) by (auto simp: manager_ok_def)
  qed
qed (use assms in \<open>simp add: create_listeners_def\<close>)


lemma close_manager_ok:
  assumes "manager_ok m" "open_sockets log = held m" "close_manager (m, log) = (m', log')"
  shows "manager_ok m' \<and> open_sockets log' = held m' \<and> (\<not> lm_closed m \<longrightarrow> open_sockets log' = {})"
proof (cases "lm_closed m")
  case False
  let ?m = "m\<lparr>lm_closed := True, lm_listeners := \<lambda>_. None, lm_vrfs := []\<rparr>"
  have m: "m' = ?m" "log' = log @ map Closed (concat (map (get_listeners m) (lm_vrfs m)))"
    using assms(3) False by (simp_all add: close_manager_def close_listeners_def)
  have "held ?m = {}" "manager_ok ?m" by (simp_all add: held_def get_listeners_def manager_ok_def)
  moreover have "open_sockets log' = {}" using held_vrfs [OF assms(1)] by (simp only: m(2) open_sockets_closed assms(2) Diff_cancel)
  ultimately show ?thesis using m(1) by simp
qed (use assms in \<open>simp add: close_manager_def\<close>)

lemma listening_ok: "listening sys x \<Longrightarrow> fresh_sockets sys \<Longrightarrow> manager_ok (fst x) \<and> open_sockets (snd x) = held (fst x)"
proof (induction rule: listening.induct)
  case (fresh addresses)
  show ?case by (simp add: new_listener_manager_def manager_ok_def held_def get_listeners_def)
next
  case (create x v y r)
  then show ?case using create_listeners_ok [of sys "fst x" "snd x" v "fst y" "snd y" r] by simp
next
  case (close x)
  then show ?case using close_manager_ok [of "fst x" "snd x" "fst (close_manager x)" "snd (close_manager x)"] by simp
qed

text \<open>C40: at every moment the open sockets are those the manager holds; a failed creation leaves
  none behind, and closing the manager closes all.\<close>

theorem no_leaked_listener:
  assumes "listening sys (m, log)" "fresh_sockets sys"
  shows "open_sockets log = (\<Union>v. set (get_listeners m v)) \<and>
    (\<forall>v m' log' e. create_listeners sys v (m, log) = ((m', log'), Some e) \<longrightarrow> m' = m \<and> open_sockets log' = open_sockets log) \<and>
    (\<not> lm_closed m \<longrightarrow> open_sockets (snd (close_manager (m, log))) = {})"
proof (intro conjI allI impI)
  have ok: "manager_ok m" "open_sockets log = held m" using listening_ok [OF assms] by simp_all
  show "open_sockets log = (\<Union>v. set (get_listeners m v))" using ok by (simp add: held_def)
  fix v m' log' e assume c: "create_listeners sys v (m, log) = ((m', log'), Some e)"
  show "open_sockets log' = open_sockets log" using create_listeners_ok [OF assms(2) ok c] by blast
  show "m' = m" using c by (auto simp: create_listeners_def split: if_splits prod.splits sum.splits)
next
  assume "\<not> lm_closed m"
  then show "open_sockets (snd (close_manager (m, log))) = {}"
    using close_manager_ok [of m log "fst (close_manager (m, log))" "snd (close_manager (m, log))"] listening_ok [OF assms]
    by (metis fst_conv prod.collapse snd_conv)
qed

definition next_number :: "socket_event list \<Rightarrow> nat" where
  "next_number log = foldr (\<lambda>e n. case e of Opened l _ \<Rightarrow> max (Suc l) n | Closed _ \<Rightarrow> n) log 0"

definition sample_sockets :: "socket_event list \<Rightarrow> string \<Rightarrow> string + nat" where
  "sample_sockets log a = (if a = ''bad'' then Inl ''cannot listen'' else Inr (next_number log))"

lemma open_was_opened: "l \<in> open_sockets log \<Longrightarrow> \<exists>a. Opened l a \<in> set log"
proof (induction log rule: rev_induct)
  case (snoc e log)
  then show ?case by (cases e) (auto simp: open_sockets_def open_step_def)
qed simp

lemma next_number_above: "Opened l a \<in> set log \<Longrightarrow> l < next_number log"
  by (induction log) (auto simp: next_number_def less_max_iff_disj split: socket_event.splits)

lemma sample_sockets_fresh: "fresh_sockets sample_sockets"
proof -
  have "next_number log \<notin> open_sockets log" for log
    using open_was_opened next_number_above by (metis less_irrefl)
  then show ?thesis by (simp add: fresh_sockets_def sample_sockets_def)
qed

definition sample_listening :: "(listener_manager \<times> socket_event list) \<times> string option" where
  "sample_listening = create_listeners sample_sockets ''main'' (new_listener_manager (\<lambda>_. [''10.0.0.1:179'', ''10.147.20.5:179'']), [])"

theorem no_leaked_listener_witness: "open_sockets (snd (close_manager (fst sample_listening))) = {}"
proof -
  let ?m = "fst (fst sample_listening)" let ?log = "snd (fst sample_listening)"
  have "listening sample_sockets (fst sample_listening)"
    unfolding sample_listening_def by (rule listening.create [OF listening.fresh]) (rule surjective_pairing)
  then have "listening sample_sockets (?m, ?log)" by simp
  moreover have "\<not> lm_closed ?m" by code_simp
  ultimately show ?thesis using no_leaked_listener [OF _ sample_sockets_fresh, of ?m ?log] by simp
qed


end
