(* ===== verification/Pages.thy ===== *)
theory Pages
  imports Handlers_Spec Bgp_Stats Zerotier Formatting
begin

text \<open>
  The handlers that only read (\<^verbatim>\<open>GetSystemTab\<close>, \<^verbatim>\<open>GetCombinedStats\<close>, \<^verbatim>\<open>ListPeers\<close>, the forms and the
  tabs): the data each one hands to its template.  What the host answers (commands, file modes,
  the audit file, the QR encoder, the sparkline drawing) is a field of \<open>page_env\<close>.
\<close>

section \<open>What the pages are built from\<close>

record page_env =
  pe_host :: responder
  pe_version :: string
  pe_go :: string
  pe_os :: string
  pe_arch :: string
  pe_sparkline :: "history_point list \<Rightarrow> nat \<Rightarrow> nat \<Rightarrow> string"
  pe_rfc3339 :: "gotime \<Rightarrow> string"
  pe_local_time :: "gotime \<Rightarrow> string"
  pe_command :: "string list \<Rightarrow> string \<times> bool"
  pe_private :: "string \<Rightarrow> bool"
  pe_file :: "string \<Rightarrow> string option"
  pe_bgp :: bgp_stats
  pe_zerotier :: supervisor
  pe_poll :: bool
  pe_restart :: "string option"
  pe_run :: runner
  pe_derive :: "string \<Rightarrow> string + string"
  pe_qr_new :: "string \<Rightarrow> string option"
  pe_qr_png :: "string \<Rightarrow> string + string"

section \<open>Peers\<close>

record peer_row =
  row_peer :: peer
  row_id :: string
  row_allowed_ips :: string
  row_created :: gotime
  row_exit_name :: string
  row_endpoint :: string
  row_rx :: string
  row_tx :: string
  row_rx_ps :: string
  row_tx_ps :: string
  row_last_seen :: string
  row_last_seen_at :: string
  row_sparkline :: string
  row_has_stats :: bool
  row_strict_applied :: bool

definition build_peer_row :: "page_env \<Rightarrow> gotime \<Rightarrow> collector \<Rightarrow> peer \<Rightarrow> string \<Rightarrow> live_stats option \<Rightarrow> bool \<Rightarrow> peer_row" where
  "build_peer_row pe now c p exit_name stats strict =
     (let row = \<lparr>row_peer = p, row_id = p_id p, row_allowed_ips = p_allowed_ips p, row_created = p_created p, row_exit_name = exit_name,
                 row_endpoint = [], row_rx = [], row_tx = [], row_rx_ps = [], row_tx_ps = [], row_last_seen = [], row_last_seen_at = [],
                 row_sparkline = [], row_has_stats = False, row_strict_applied = strict\<rparr>;
          (row1, seen) =
            (case stats of
               Some l \<Rightarrow>
                 if ls_key l \<noteq> [] then
                   (row\<lparr>row_has_stats := True, row_endpoint := ls_endpoint l, row_rx := format_bytes (ls_rx l), row_tx := format_bytes (ls_tx l),
                        row_rx_ps := format_bytes_per_sec (ls_rx_ps l), row_tx_ps := format_bytes_per_sec (ls_tx_ps l),
                        row_sparkline := pe_sparkline pe (the_default [] (get_peer_history c (p_public_key p))) 80 16\<rparr>,
                    if p_last_seen p < ls_handshake l then ls_handshake l else p_last_seen p)
                 else (if 0 < p_rx p \<or> 0 < p_tx p then row\<lparr>row_rx := format_bytes (p_rx p), row_tx := format_bytes (p_tx p)\<rparr> else row, p_last_seen p)
             | None \<Rightarrow> (if 0 < p_rx p \<or> 0 < p_tx p then row\<lparr>row_rx := format_bytes (p_rx p), row_tx := format_bytes (p_tx p)\<rparr> else row, p_last_seen p)) in
      row1\<lparr>row_last_seen := format_handshake now seen, row_last_seen_at := (if seen \<noteq> 0 then pe_rfc3339 pe seen else [])\<rparr>)"

text \<open>The names of the exit nodes by identifier; the last of two equal identifiers wins.\<close>

definition exit_node_names :: "peer list \<Rightarrow> string \<Rightarrow> string" where
  "exit_node_names ps i = the_default [] (foldl (\<lambda>m p. if p_is_exit p then m(p_id p \<mapsto> p_name p) else m) (\<lambda>_. None) ps i)"

definition build_peers_list :: "page_env \<Rightarrow> gotime \<Rightarrow> app \<Rightarrow> peer_row list" where
  "build_peers_list pe now a =
     (let cfg = app_config_of a in
      map (\<lambda>p. build_peer_row pe now (ap_stats a) p (exit_node_names (cfg_peers cfg) (p_exit_id p))
                 (get_peer_stats (ap_stats a) (p_public_key p)) (the_default False (peer_routing_applied_map (ap_store a) (p_id p))))
        (cfg_peers cfg))"

record peer_form_data =
  pf_is_new :: bool
  pf_defaults :: bool
  pf_peer :: peer
  pf_exit_nodes :: "peer list"
  pf_gateways :: "(vpn_gateway \<times> bool) list"
  pf_nets :: "gateway_net list"

text \<open>An identifier that is not found leaves the zero peer, which the handler turns into a 404.\<close>

definition build_peer_form :: "page_env \<Rightarrow> string \<Rightarrow> app_config \<Rightarrow> peer_form_data" where
  "build_peer_form pe i cfg =
     (let p = (if i = [] then zero_peer else the_default zero_peer (find_peer_by_id (cfg_peers cfg) i)) in
      \<lparr>pf_is_new = (i = []), pf_defaults = (i = []), pf_peer = p, pf_exit_nodes = exit_node_peers (cfg_peers cfg),
       pf_gateways = map (\<lambda>g. (g, g_id g = p_gateway_id p)) (cfg_gateways cfg),
       pf_nets = gateway_nets (s_address (cfg_server cfg)) (zt_gateway_nets (pe_zerotier pe))\<rparr>)"

record devices_page =
  dp_peer :: peer
  dp_devices :: "net_device list"
  dp_rules :: "string \<Rightarrow> string option"
  dp_gateways :: "vpn_gateway list"
  dp_error :: string

definition shown_rules :: "device_rule list \<Rightarrow> string \<Rightarrow> string option" where
  "shown_rules rs = foldl (\<lambda>m r. if dr_enabled r then m(dr_ip r \<mapsto> (if trim_space (dr_gateway r) = [] then ''__direct__'' else dr_gateway r)) else m) (\<lambda>_. None) rs"

definition default_rules :: "string \<Rightarrow> net_device list \<Rightarrow> (string \<Rightarrow> string option) \<Rightarrow> string \<Rightarrow> string option" where
  "default_rules gid ds m =
     (if trim_space gid = [] then m
      else foldl (\<lambda>m d. if m (nd_ip d) = None then m(nd_ip d \<mapsto> gid) else m) m ds)"

definition build_devices_page :: "string \<Rightarrow> net_device list option \<Rightarrow> string \<Rightarrow> app_config \<Rightarrow> devices_page option" where
  "build_devices_page i devices err cfg =
     (case find_peer_by_id (cfg_peers cfg) i of
        None \<Rightarrow> None
      | Some p \<Rightarrow>
          let ds = (case devices of Some ds \<Rightarrow> ds | None \<Rightarrow> p_devices p) in
          Some \<lparr>dp_peer = p, dp_devices = ds, dp_rules = default_rules (p_gateway_id p) ds (shown_rules (p_device_rules p)),
                dp_gateways = cfg_gateways cfg, dp_error = err\<rparr>)"

section \<open>The title bar\<close>

record peer_live =
  pl_id :: string
  pl_allowed_ips :: string
  pl_created :: gotime
  pl_rx :: string
  pl_tx :: string
  pl_rx_ps :: string
  pl_tx_ps :: string
  pl_last_seen :: string
  pl_last_seen_at :: string
  pl_sparkline :: string
  pl_has_stats :: bool

record stats_bar =
  sb_up :: bool
  sb_uptime :: string
  sb_rx :: string
  sb_tx :: string
  sb_rx_ps :: string
  sb_tx_ps :: string
  sb_sparkline :: string
  sb_peers :: "peer_live list"
  sb_bgp :: "bgp_stats option"

definition live_row :: "peer_row \<Rightarrow> peer_live" where
  "live_row r =
     \<lparr>pl_id = row_id r, pl_allowed_ips = row_allowed_ips r, pl_created = row_created r, pl_rx = row_rx r, pl_tx = row_tx r,
      pl_rx_ps = row_rx_ps r, pl_tx_ps = row_tx_ps r, pl_last_seen = row_last_seen r, pl_last_seen_at = row_last_seen_at r,
      pl_sparkline = row_sparkline r, pl_has_stats = row_has_stats r\<rparr>"

definition combined_stats :: "page_env \<Rightarrow> gotime \<Rightarrow> string \<Rightarrow> app \<Rightarrow> stats_bar" where
  "combined_stats pe now kind a =
     (let c = ap_stats a in
      \<lparr>sb_up = cl_up c, sb_uptime = format_duration (collector_uptime now c), sb_rx = format_bytes (if_rx (cl_iface c)),
       sb_tx = format_bytes (if_tx (cl_iface c)), sb_rx_ps = format_bytes_per_sec (if_rx_ps (cl_iface c)),
       sb_tx_ps = format_bytes_per_sec (if_tx_ps (cl_iface c)), sb_sparkline = pe_sparkline pe (cl_history c) 120 24,
       sb_peers = (if kind \<in> {''bgp'', ''server'', ''zerotier''} then [] else map live_row (build_peers_list pe now a)),
       sb_bgp = (if kind = ''bgp'' then Some (pe_bgp pe) else None)\<rparr>)"

section \<open>Gateways\<close>

text \<open>The manager is asked once per row, and each answer may depend on the commands run before.\<close>

record gateway_view =
  gv_gateway :: vpn_gateway
  gv_running :: bool
  gv_last_error :: string
  gv_users :: nat

fun gateway_views :: "responder \<Rightarrow> peer list \<Rightarrow> vpn_gateway list \<Rightarrow> manager \<times> effect list \<Rightarrow> gateway_view list \<times> effect list" where
  "gateway_views host ps [] s = ([], snd s)"
| "gateway_views host ps (g # gs) s =
     (case gateway_status_of host (g_id g) s of
        (st, log) \<Rightarrow>
          (case gateway_views host ps gs (fst s, log) of
             (vs, log') \<Rightarrow>
               (\<lparr>gv_gateway = g, gv_running = gs_running st, gv_last_error = gs_last_error st,
                 gv_users = length (filter (\<lambda>p. p_gateway_id p = g_id g) ps)\<rparr> # vs, log')))"

record assignment_row =
  as_id :: string
  as_name :: string
  as_allowed_ips :: string
  as_gateway_id :: string
  as_enabled :: bool
  as_gateway_name :: string
  as_online :: bool

fun assignment_rows :: "responder \<Rightarrow> vpn_gateway list \<Rightarrow> peer list \<Rightarrow> manager \<times> effect list \<Rightarrow> assignment_row list \<times> effect list" where
  "assignment_rows host gs [] s = ([], snd s)"
| "assignment_rows host gs (p # ps) s =
     (let (name, online, log) =
            (case find_vpn_gateway_by_id gs (p_gateway_id p) of
               None \<Rightarrow> ([], False, snd s)
             | Some g \<Rightarrow> (case gateway_status_of host (g_id g) s of (st, log) \<Rightarrow> (g_name g, gs_running st, log))) in
      (case assignment_rows host gs ps (fst s, log) of
         (rows, log') \<Rightarrow>
           (\<lparr>as_id = p_id p, as_name = p_name p, as_allowed_ips = p_allowed_ips p, as_gateway_id = p_gateway_id p,
             as_enabled = p_enabled p, as_gateway_name = name, as_online = online\<rparr> # rows, log')))"

definition name_before :: "assignment_row \<Rightarrow> assignment_row \<Rightarrow> bool" where
  "name_before r q \<longleftrightarrow> to_lower (as_name r) < to_lower (as_name q)"

definition build_assignments :: "responder \<Rightarrow> app_config \<Rightarrow> manager \<times> effect list \<Rightarrow> assignment_row list \<times> effect list" where
  "build_assignments host cfg s =
     (case assignment_rows host (cfg_gateways cfg) (cfg_peers cfg) s of (rows, log) \<Rightarrow> (sort_slice name_before rows, log))"

section \<open>ZeroTier\<close>

record zt_network_row =
  zr_network :: network_stats
  zr_rx :: string
  zr_tx :: string
  zr_rx_ps :: string
  zr_tx_ps :: string

record zt_peer_row =
  zp_peer :: node_peer
  zp_latency :: string
  zp_path :: string

record zt_page =
  zg_config :: zt_config
  zg_port :: u16
  zg_snapshot :: zt_snapshot
  zg_networks :: "zt_network_row list"
  zg_peers :: "zt_peer_row list"
  zg_addresses :: "string list"
  zg_pending :: "zt_network list"
  zg_revision :: u64

definition zt_network_row_of :: "network_stats \<Rightarrow> zt_network_row" where
  "zt_network_row_of n =
     \<lparr>zr_network = n, zr_rx = format_bytes (nt_rx n), zr_tx = format_bytes (nt_tx n),
      zr_rx_ps = (if nt_has_rate n then format_bytes_per_sec (nt_rx_ps n) else []),
      zr_tx_ps = (if nt_has_rate n then format_bytes_per_sec (nt_tx_ps n) else [])\<rparr>"

definition path_label :: "node_path \<Rightarrow> string" where
  "path_label q = np_address q @ (if np_preferred q then '' (preferred)'' else [])"

text \<open>The dash of an unknown latency is the three bytes of U+2014.\<close>

definition zt_peer_row_of :: "node_peer \<Rightarrow> zt_peer_row" where
  "zt_peer_row_of p =
     (let paths = map path_label (filter (\<lambda>q. np_active q \<and> \<not> np_expired q) (elems (no_paths p))) in
      \<lparr>zp_peer = p,
       zp_latency = (if 0 \<le> no_latency p then int_dec (no_latency p) @ '' ms'' else map char_of [0xE2, 0x80, 0x94 :: nat]),
       zp_path = (if paths = [] then ''relayed'' else join '', '' paths)\<rparr>)"

definition pending_networks :: "zt_network list \<Rightarrow> network_stats list \<Rightarrow> zt_network list" where
  "pending_networks wanted ns = filter (\<lambda>w. \<not> list_ex (\<lambda>n. equal_fold (jn_id (nt_network n)) (zn_id w)) ns) wanted"

definition build_zerotier_page :: "supervisor \<Rightarrow> app_config \<Rightarrow> zt_page" where
  "build_zerotier_page sv cfg =
     (let (snap, revision) = snapshot_version sv; ns = elems (sn_networks snap); z = cfg_zerotier cfg in
      \<lparr>zg_config = z, zg_port = zerotier_port z, zg_snapshot = snap, zg_networks = map zt_network_row_of ns,
       zg_peers = map zt_peer_row_of (elems (sn_peers snap)), zg_addresses = concat (map (\<lambda>n. elems (jn_addresses (nt_network n))) ns),
       zg_pending = pending_networks (zt_networks z) ns, zg_revision = revision\<rparr>)"

section \<open>BGP\<close>

record bgp_tab =
  bt_enabled :: bool
  bt_asn :: u32
  bt_address :: string
  bt_port :: u16
  bt_stats :: bgp_stats
  bt_peers :: "bgp_peer list"

definition build_bgp_tab :: "bgp_stats \<Rightarrow> app_config \<Rightarrow> bgp_tab" where
  "build_bgp_tab stats cfg =
     \<lparr>bt_enabled = s_bgp_enabled (cfg_server cfg), bt_asn = s_bgp_asn (cfg_server cfg), bt_address = s_bgp_address (cfg_server cfg),
      bt_port = s_bgp_port (cfg_server cfg), bt_stats = stats, bt_peers = cfg_bgp_peers cfg\<rparr>"

section \<open>System\<close>

record system_check =
  ck_name :: string
  ck_status :: string
  ck_detail :: string
  ck_ok :: bool

record system_peer =
  sp_name :: string
  sp_address :: string
  sp_gateway :: string
  sp_enabled :: bool
  sp_last_seen :: string
  sp_rx :: string
  sp_tx :: string

record system_gateway =
  sg_name :: string
  sg_interface :: string
  sg_endpoint :: string
  sg_enabled :: bool
  sg_running :: bool
  sg_handshake :: string
  sg_rx :: string
  sg_tx :: string
  sg_table :: nat
  sg_peers :: nat
  sg_last_error :: string

record system_page =
  sy_version :: string
  sy_go :: string
  sy_os :: string
  sy_arch :: string
  sy_uptime :: string
  sy_up :: bool
  sy_peer_count :: nat
  sy_active_peers :: nat
  sy_gateway_count :: nat
  sy_running_gateways :: nat
  sy_ipv6_gateways :: nat
  sy_checks :: "system_check list"
  sy_peers :: "system_peer list"
  sy_gateways :: "system_gateway list"
  sy_rules :: string
  sy_routes :: string
  sy_audit :: string

definition command_output :: "page_env \<Rightarrow> string list \<Rightarrow> string" where
  "command_output pe args =
     (case pe_command pe args of (out, failed) \<Rightarrow> trim_space out @ (if failed then '' (command error)'' else []))"

definition system_peer_of :: "page_env \<Rightarrow> gotime \<Rightarrow> vpn_gateway list \<Rightarrow> peer \<Rightarrow> system_peer" where
  "system_peer_of pe now gs p =
     \<lparr>sp_name = p_name p, sp_address = p_allowed_ips p,
      sp_gateway = (case find_vpn_gateway_by_id gs (p_gateway_id p) of None \<Rightarrow> ''Kein VPN-Gateway'' | Some g \<Rightarrow> g_name g),
      sp_enabled = p_enabled p, sp_last_seen = format_system_handshake (pe_local_time pe) now (p_last_seen p),
      sp_rx = format_system_bytes (p_rx p), sp_tx = format_system_bytes (p_tx p)\<rparr>"

fun system_gateways :: "page_env \<Rightarrow> gotime \<Rightarrow> vpn_gateway list \<Rightarrow> manager \<times> effect list \<Rightarrow> system_gateway list \<times> effect list" where
  "system_gateways pe now [] s = ([], snd s)"
| "system_gateways pe now (g # gs) s =
     (case gateway_status_of (pe_host pe) (g_id g) s of
        (st, log) \<Rightarrow>
          (case system_gateways pe now gs (fst s, log) of
             (vs, log') \<Rightarrow>
               (\<lparr>sg_name = g_name g, sg_interface = g_interface g, sg_endpoint = g_endpoint g, sg_enabled = g_enabled g,
                 sg_running = gs_running st, sg_handshake = format_system_handshake (pe_local_time pe) now (gs_handshake st),
                 sg_rx = format_system_bytes (gs_rx st), sg_tx = format_system_bytes (gs_tx st), sg_table = g_table g,
                 sg_peers = gs_count st, sg_last_error = gs_last_error st\<rparr> # vs, log')))"

definition full_tunnel_v6 :: "vpn_gateway \<Rightarrow> bool" where
  "full_tunnel_v6 g = contains_str (g_allowed_ips g) ''::/0''"

definition check_of :: "string \<Rightarrow> bool \<Rightarrow> string \<Rightarrow> system_check" where
  "check_of name ok detail = \<lparr>ck_name = name, ck_status = (if ok then ''OK'' else ''WARN''), ck_detail = detail, ck_ok = ok\<rparr>"

definition passkey_protected :: "server_config \<Rightarrow> bool" where
  "passkey_protected srv \<longleftrightarrow> s_require_passkey srv \<and> s_passkeys srv \<noteq> []"

definition system_checks :: "page_env \<Rightarrow> string \<Rightarrow> string \<Rightarrow> server_config \<Rightarrow> system_check list" where
  "system_checks pe cpath wpath srv =
     [check_of ''Admin-Passkey'' (passkey_protected srv)
        (if passkey_protected srv then ''WebAuthn/FIDO2 ist aktiviert'' else ''Passkey-Schutz ist nicht vollst'' @ map char_of [0xC3, 0xA4 :: nat] @ ''ndig aktiviert''),
      check_of ''Config-Datei'' (pe_private pe cpath) cpath,
      check_of ''WireGuard-Config'' (pe_private pe wpath) wpath]"

definition route_tables :: "page_env \<Rightarrow> vpn_gateway list \<Rightarrow> string list" where
  "route_tables pe gs =
     concat (map (\<lambda>g. if g_table g = 0 then []
       else (''table '' @ nat_dec (g_table g) @ '' ('' @ g_name g @ ''):'' @ nl
               @ command_output pe [''ip'', ''route'', ''show'', ''table'', nat_dec (g_table g)])
          # (if full_tunnel_v6 g
             then [''table '' @ nat_dec (g_table g) @ '' IPv6:'' @ nl @ command_output pe [''ip'', ''-6'', ''route'', ''show'', ''table'', nat_dec (g_table g)]]
             else [])) gs)"

text \<open>The audit file the page reads, and its last fifty lines.\<close>

definition audit_view_path :: "string \<Rightarrow> string" where
  "audit_view_path cpath =
     (if has_suffix cpath ''config.yaml'' then take (length cpath - length ''config.yaml'') cpath else cpath) @ ''audit.log''"

definition audit_tail :: "string option \<Rightarrow> string" where
  "audit_tail content =
     (let text = (case content of
                    None \<Rightarrow> []
                  | Some raw \<Rightarrow> (let ls = split_char (char_of (10 :: nat)) (trim_space raw) in join nl (drop (length ls - 50) ls))) in
      if text = [] then ''Noch keine '' @ map char_of [0xC3, 0x84 :: nat] @ ''nderungen protokolliert.'' else text)"

definition or_text :: "string \<Rightarrow> string \<Rightarrow> string" where
  "or_text s d = (if s = [] then d else s)"

definition build_system_page :: "page_env \<Rightarrow> gotime \<Rightarrow> collector \<Rightarrow> string \<Rightarrow> string \<Rightarrow> app_config \<Rightarrow> manager \<times> effect list \<Rightarrow> system_page \<times> effect list" where
  "build_system_page pe now c cpath wpath cfg s =
     (case system_gateways pe now (cfg_gateways cfg) s of
        (gs, log) \<Rightarrow>
          (\<lparr>sy_version = or_text (pe_version pe) ''dev'', sy_go = pe_go pe, sy_os = pe_os pe, sy_arch = pe_arch pe,
            sy_uptime = duration_string (round_seconds (collector_uptime now c)), sy_up = cl_up c,
            sy_peer_count = length (cfg_peers cfg), sy_active_peers = length (filter (\<lambda>p. p_last_seen p \<noteq> 0) (cfg_peers cfg)),
            sy_gateway_count = length (cfg_gateways cfg), sy_running_gateways = length (filter sg_running gs),
            sy_ipv6_gateways = length (filter full_tunnel_v6 (cfg_gateways cfg)),
            sy_checks = system_checks pe cpath wpath (cfg_server cfg),
            sy_peers = map (system_peer_of pe now (cfg_gateways cfg)) (cfg_peers cfg), sy_gateways = gs,
            sy_rules = or_text (command_output pe [''ip'', ''rule'']) ''Keine Policy-Routing-Regeln gefunden.'',
            sy_routes = or_text (join (nl @ nl) (route_tables pe (cfg_gateways cfg))) ''Keine VPN-Gateway-Routingtabellen gefunden.'',
            sy_audit = audit_tail (pe_file pe (audit_view_path cpath))\<rparr>, log))"

section \<open>The handlers\<close>

datatype page =
    Peers_List "peer_row list"
  | Peer_Form peer_form_data
  | Devices_Page devices_page
  | Stats_Page stats_bar
  | Server_Page server_config
  | Show_Page "string + string"
  | BGP_Page bgp_tab
  | BGP_Form "bgp_peer option"
  | System_Page system_page
  | Assignments_Page "assignment_row list" "vpn_gateway list"
  | Gateway_Status_Page gateway_status
  | ZeroTier_Page string zt_page
  | QR_Modal string string
  | QR_Image string
  | Static_Page string
  | No_Content
  | Error_Page string
  | Error_Text string

text \<open>\<^verbatim>\<open>GET /peers/{id}/qr\<close>: a peer without a name counts as missing.\<close>

definition qr_modal :: "string \<Rightarrow> app_config \<Rightarrow> nat \<times> page" where
  "qr_modal i cfg =
     (let name = (case find_peer_by_id (cfg_peers cfg) i of None \<Rightarrow> [] | Some p \<Rightarrow> p_name p) in
      if name = [] then (404, Error_Page ''peer not found'') else (200, QR_Modal i name))"

definition qr_code :: "page_env \<Rightarrow> string \<Rightarrow> request \<Rightarrow> app_config \<Rightarrow> nat \<times> page" where
  "qr_code pe i rq cfg =
     (case find_peer_by_id (cfg_peers cfg) i of
        None \<Rightarrow> (500, Error_Text ''peer not found'')
      | Some p \<Rightarrow>
          (case render_client_config_with_endpoint (pe_derive pe) (cfg_server cfg) p
                  (client_endpoint_from_request rq (s_listen_port (cfg_server cfg))) of
             Inl e \<Rightarrow> (500, Error_Text e)
           | Inr content \<Rightarrow>
               (case pe_qr_new pe content of
                  Some e \<Rightarrow> (500, Error_Text (''QR generation failed: '' @ e))
                | None \<Rightarrow>
                    (case pe_qr_png pe content of
                       Inl e \<Rightarrow> (500, Error_Text (''QR PNG failed: '' @ e))
                     | Inr png \<Rightarrow> (200, QR_Image png)))))"

text \<open>The long poll ends with no content when nothing changed in time.\<close>

definition zerotier_status :: "page_env \<Rightarrow> request \<Rightarrow> app_config \<Rightarrow> nat \<times> page" where
  "zerotier_status pe rq cfg =
     (let sv = pe_zerotier pe; page = (200, ZeroTier_Page ''zerotier-status'' (build_zerotier_page sv cfg)) in
      case rq_form rq ''since'' of
        [] \<Rightarrow> page
      | since # _ \<Rightarrow>
          (case parse_uint 10 64 since of
             (_, Some _) \<Rightarrow> (400, Error_Page ''invalid ZeroTier revision'')
           | (revision, None) \<Rightarrow> if wait_for_change (of_nat revision) (pe_poll pe) sv then page else (204, No_Content)))"

definition peer_edit :: "page_env \<Rightarrow> string \<Rightarrow> app_config \<Rightarrow> nat \<times> page" where
  "peer_edit pe i cfg =
     (let f = build_peer_form pe i cfg in
      if \<not> pf_is_new f \<and> p_id (pf_peer f) = [] then (404, Error_Page ''peer not found'') else (200, Peer_Form f))"

definition bgp_edit :: "string \<Rightarrow> app_config \<Rightarrow> nat \<times> page" where
  "bgp_edit i cfg =
     (if i = [] then (200, BGP_Form None)
      else case find_bgp_peer_by_id (cfg_bgp_peers cfg) i of
             None \<Rightarrow> (404, Error_Page ''BGP peer not found'')
           | Some b \<Rightarrow> if b_id b = [] then (404, Error_Page ''BGP peer not found'') else (200, BGP_Form (Some b)))"

text \<open>\<^verbatim>\<open>wg show\<close> changes nothing, so its call is not kept.\<close>

definition read_page :: "page_env \<Rightarrow> endpoint \<Rightarrow> request \<Rightarrow> moment \<Rightarrow> app \<Rightarrow> effect list \<times> nat \<times> page" where
  "read_page pe ep rq mo a =
     (let cfg = app_config_of a; log = ap_effects a; s = (ap_gateways a, log); now = mo_now mo in
      case ep of
        Stats_Bar \<Rightarrow> (log, 200, Stats_Page (combined_stats pe now (form_value (rq_form rq) ''kind'') a))
      | Quick_Form \<Rightarrow> (log, 200, Static_Page ''quick-peer-form'')
      | Peers \<Rightarrow> (log, 200, Peers_List (build_peers_list pe now a))
      | Peer_New \<Rightarrow> (log, peer_edit pe [] cfg)
      | Peer_Edit i \<Rightarrow> (log, peer_edit pe i cfg)
      | Peer_QR i \<Rightarrow> (log, qr_modal i cfg)
      | Devices i \<Rightarrow>
          (log, case build_devices_page i None [] cfg of None \<Rightarrow> (404, Error_Page ''peer not found'') | Some d \<Rightarrow> (200, Devices_Page d))
      | Server \<Rightarrow> (log, 200, Server_Page (cfg_server cfg))
      | Server_Show \<Rightarrow> (log, 200, Show_Page (snd (show_wg (pe_run pe) (w_wg (ap_world a)) (cfg_peers cfg))))
      | BGP_Tab \<Rightarrow> (log, 200, BGP_Page (build_bgp_tab (pe_bgp pe) cfg))
      | BGP_New \<Rightarrow> (log, bgp_edit [] cfg)
      | BGP_Edit i \<Rightarrow> (log, bgp_edit i cfg)
      | System_Tab \<Rightarrow>
          (case build_system_page pe now (ap_stats a) (st_config_path (ap_store a)) (st_wg_path (ap_store a)) cfg s of
             (page, log') \<Rightarrow> (log', 200, System_Page page))
      | Assignments \<Rightarrow>
          (case build_assignments (pe_host pe) cfg s of (rows, log') \<Rightarrow> (log', 200, Assignments_Page rows (cfg_gateways cfg)))
      | Gateway_New \<Rightarrow> (log, 200, Static_Page ''gateway-form'')
      | Gateway_Status i \<Rightarrow> (case gateway_status_of (pe_host pe) i s of (st, log') \<Rightarrow> (log', 200, Gateway_Status_Page st))
      | ZeroTier \<Rightarrow> (log, 200, ZeroTier_Page ''zerotier-tab'' (build_zerotier_page (pe_zerotier pe) cfg))
      | ZeroTier_Status \<Rightarrow> (log, zerotier_status pe rq cfg)
      | Client_QR i \<Rightarrow> (log, qr_code pe i rq cfg)
      | _ \<Rightarrow> (log, 200, Static_Page []))"

text \<open>Requests that the router hands to the handlers of this theory, as the rest of the program sees them.\<close>

definition page_body :: "page \<Rightarrow> body" where
  "page_body p =
     (case p of
        Error_Page e \<Rightarrow> Page_Error e | Error_Text e \<Rightarrow> Plain e | No_Content \<Rightarrow> Done | Static_Page n \<Rightarrow> Template n
      | QR_Image png \<Rightarrow> File ''qr.png'' png | Peers_List _ \<Rightarrow> Template ''peers-list'' | Peer_Form _ \<Rightarrow> Template ''peer-form''
      | Devices_Page _ \<Rightarrow> Template ''peer-network-devices'' | Stats_Page _ \<Rightarrow> Template ''stats-bar'' | Server_Page _ \<Rightarrow> Template ''server-config''
      | Show_Page _ \<Rightarrow> Template ''wg-show-modal'' | BGP_Page _ \<Rightarrow> Template ''bgp-tab'' | BGP_Form _ \<Rightarrow> Template ''bgp-peer-form''
      | System_Page _ \<Rightarrow> Template ''system'' | Assignments_Page _ _ \<Rightarrow> Template ''gateway-assignments''
      | Gateway_Status_Page _ \<Rightarrow> Template ''empty'' | ZeroTier_Page n _ \<Rightarrow> Template n | QR_Modal _ _ \<Rightarrow> Template ''qr-modal'')"

definition page_reader :: "page_env \<Rightarrow> endpoint \<Rightarrow> request \<Rightarrow> moment \<Rightarrow> app \<Rightarrow> app \<times> response" where
  "page_reader pe ep rq mo a =
     (case read_page pe ep rq mo a of (log, status, page) \<Rightarrow> (a\<lparr>ap_effects := log\<rparr>, reply status (page_body page)))"

end
