(* ===== verification/Pages_Spec.thy ===== *)
theory Pages_Spec
  imports Pages Program
begin

text \<open>
  Properties of the read-only pages: keys never reach the pages that are polled or copied, the
  devices page agrees with the routing rules, the assignment page lists every peer in order.
\<close>

section \<open>What a page may depend on\<close>

text \<open>A configuration without its keys.\<close>

definition erase_peer :: "peer \<Rightarrow> peer" where
  "erase_peer p = p\<lparr>p_private_key := [], p_preshared_key := []\<rparr>"

definition erase_gateway :: "vpn_gateway \<Rightarrow> vpn_gateway" where
  "erase_gateway g = g\<lparr>g_private_key := [], g_preshared_key := []\<rparr>"

definition erase_secrets :: "app_config \<Rightarrow> app_config" where
  "erase_secrets cfg =
     cfg\<lparr>cfg_server := (cfg_server cfg)\<lparr>s_private_key := []\<rparr>, cfg_peers := map erase_peer (cfg_peers cfg),
         cfg_gateways := map erase_gateway (cfg_gateways cfg)\<rparr>"

lemma find_gateway_erase:
  "find_vpn_gateway_by_id (map erase_gateway gs) i = map_option erase_gateway (find_vpn_gateway_by_id gs i)"
  by (induction gs) (auto simp: find_vpn_gateway_by_id_def erase_gateway_def)

lemma system_gateways_erase: "system_gateways pe now (map erase_gateway gs) s = system_gateways pe now gs s"
  by (induction gs arbitrary: s) (auto simp: erase_gateway_def split: prod.splits)

lemma system_peer_erase: "system_peer_of pe now (map erase_gateway gs) (erase_peer p) = system_peer_of pe now gs p"
  by (auto simp: system_peer_of_def erase_peer_def find_gateway_erase erase_gateway_def split: option.splits)

lemma route_tables_erase: "route_tables pe (map erase_gateway gs) = route_tables pe gs"
  by (simp add: route_tables_def full_tunnel_v6_def erase_gateway_def comp_def cong: if_cong)

lemma filter_length_map: "length (filter P (map f xs)) = length (filter (\<lambda>x. P (f x)) xs)"
  by (simp add: filter_map comp_def)

lemma system_page_erase: "build_system_page pe now c cpath wpath (erase_secrets cfg) s = build_system_page pe now c cpath wpath cfg s"
proof -
  have "system_checks pe cpath wpath ((cfg_server cfg)\<lparr>s_private_key := []\<rparr>) = system_checks pe cpath wpath (cfg_server cfg)"
    by (simp add: system_checks_def passkey_protected_def)
  moreover have "length (filter (\<lambda>p. p_last_seen p \<noteq> 0) (map erase_peer ps)) = length (filter (\<lambda>p. p_last_seen p \<noteq> 0) ps)" for ps
    by (simp add: filter_length_map comp_def erase_peer_def)
  moreover have "length (filter full_tunnel_v6 (map erase_gateway gs)) = length (filter full_tunnel_v6 gs)" for gs
    by (simp add: filter_length_map comp_def full_tunnel_v6_def [abs_def] erase_gateway_def)
  moreover have "map (system_peer_of pe now (map erase_gateway gs)) (map erase_peer ps) = map (system_peer_of pe now gs) ps" for gs ps
    by (simp add: system_peer_erase)
  ultimately show ?thesis
    by (simp add: build_system_page_def erase_secrets_def system_gateways_erase route_tables_erase del: map_map)
qed

text \<open>C27: two configurations that differ in private and preshared keys only give the same diagnostics
  page, so that page cannot show a key.\<close>

theorem diagnostics_hold_no_secrets:
  assumes "erase_secrets (app_config_of a) = erase_secrets (app_config_of b)" "ap_stats a = ap_stats b"
    "ap_gateways a = ap_gateways b" "ap_effects a = ap_effects b"
    "st_config_path (ap_store a) = st_config_path (ap_store b)" "st_wg_path (ap_store a) = st_wg_path (ap_store b)"
  shows "read_page pe System_Tab rq mo a = read_page pe System_Tab rq mo b"
proof -
  have "build_system_page pe now c cpath wpath (app_config_of a) s = build_system_page pe now c cpath wpath (app_config_of b) s" for now c cpath wpath s
    using system_page_erase [of pe now c cpath wpath "app_config_of a" s] system_page_erase [of pe now c cpath wpath "app_config_of b" s] assms(1) by simp
  with assms(2-) show ?thesis by (simp add: read_page_def Let_def)
qed

text \<open>What the two-second refresh of the peers may use.\<close>

definition live_part :: "peer \<Rightarrow> string \<times> string \<times> gotime \<times> string \<times> gotime \<times> int \<times> int" where
  "live_part p = (p_id p, p_allowed_ips p, p_created p, p_public_key p, p_last_seen p, p_rx p, p_tx p)"

lemma live_row_part:
  assumes "live_part p = live_part q"
  shows "live_row (build_peer_row pe now c p nm st strict) = live_row (build_peer_row pe now c q nm' st strict')"
  using assms by (simp add: live_part_def live_row_def build_peer_row_def Let_def split: option.splits)

text \<open>C38: the polled title bar depends on the counters and on the identity, address and traffic of the
  peers only: keys, routing policy and the other form settings never reach it.\<close>

theorem polled_rows_live_only:
  assumes "map live_part (cfg_peers (app_config_of a)) = map live_part (cfg_peers (app_config_of b))" "ap_stats a = ap_stats b"
  shows "snd (read_page pe Stats_Bar rq mo a) = snd (read_page pe Stats_Bar rq mo b)"
proof -
  have "list_all2 (\<lambda>p q. live_part p = live_part q) (cfg_peers (app_config_of a)) (cfg_peers (app_config_of b))"
    using assms(1) by (simp add: list_all2_map1 list_all2_map2 flip: list.rel_eq)
  then have "map live_row (build_peers_list pe (mo_now mo) a) = map live_row (build_peers_list pe (mo_now mo) b)"
    using assms(2) by (simp add: build_peers_list_def Let_def comp_def flip: list.rel_eq)
      (auto simp: list.rel_map live_part_def intro!: live_row_part elim!: list.rel_mono_strong)
  with assms(2) show ?thesis by (simp add: read_page_def combined_stats_def Let_def)
qed

text \<open>The pages fit the place the router leaves for them.\<close>

lemma pages_are_readers: "readers (cx\<lparr>cx_other := page_reader pe\<rparr>)"
  by (simp add: readers_def page_reader_def split: prod.splits)

text \<open>So the invariants of the program hold with the pages in place.\<close>

lemma program_with_pages:
  "program (cx\<lparr>cx_other := page_reader pe\<rparr>) su a \<Longrightarrow> sound (cx\<lparr>cx_other := page_reader pe\<rparr>) su a"
  using program_sound pages_are_readers by blast

lemma pages_are_static: "static_files (cx\<lparr>cx_other := page_reader pe\<rparr>)"
  by (simp add: static_files_def page_reader_def read_page_def Let_def)

section \<open>Devices behind a peer\<close>

definition shown_value :: "device_rule \<Rightarrow> string" where
  "shown_value r = (if trim_space (dr_gateway r) = [] then ''__direct__'' else dr_gateway r)"

lemma foldl_updates:
  "foldl (\<lambda>m r. if P r then m(k r \<mapsto> v r) else m) m rs = m ++ map_of (rev (map (\<lambda>r. (k r, v r)) (filter P rs)))"
  by (induction rs arbitrary: m) (auto simp: map_add_def fun_eq_iff split: option.splits)

lemma shown_rules_map: "shown_rules rs = map_of (rev (map (\<lambda>r. (dr_ip r, shown_value r)) (filter dr_enabled rs)))"
  unfolding shown_rules_def shown_value_def [symmetric] by (simp add: foldl_updates)

lemma shown_rules_distinct:
  assumes "distinct (map dr_ip rs)"
  shows "shown_rules rs ip = map_option shown_value (find (\<lambda>r. dr_ip r = ip \<and> dr_enabled r) rs)"
proof -
  let ?ps = "map (\<lambda>r. (dr_ip r, shown_value r)) (filter dr_enabled rs)"
  have "distinct (map fst ?ps)" using assms by (simp add: comp_def distinct_map_filter)
  then have "map_of (rev ?ps) = map_of ?ps" by (subst map_of_inject_set) (simp_all add: rev_map [symmetric])
  moreover have "map_of (map (\<lambda>r. (dr_ip r, shown_value r)) (filter dr_enabled xs)) ip =
      map_option shown_value (find (\<lambda>r. dr_ip r = ip \<and> dr_enabled r) xs)" for xs
    by (induction xs) auto
  ultimately show ?thesis by (simp add: shown_rules_map)
qed

lemma find_upd_other: "(\<And>x. P x \<Longrightarrow> \<not> Q x) \<Longrightarrow> (\<And>x. P x \<Longrightarrow> \<not> Q (f x)) \<Longrightarrow> find Q (upd_first P f xs) = find Q xs"
  by (induction xs) auto

lemma find_append_one: "find Q (xs @ [y]) = (case find Q xs of None \<Rightarrow> if Q y then Some y else None | Some x \<Rightarrow> Some x)"
  by (induction xs) auto

lemma distinct_route_device: "distinct (map dr_ip rs) \<Longrightarrow> distinct (map dr_ip (route_device ip gid rs))"
  by (auto simp: route_device_def map_upd_first_same list_ex_iff)

lemma route_device_sets:
  "\<exists>r \<in> set (route_device ip gid rs). dr_ip r = ip \<and> dr_gateway r = gid \<and> dr_enabled r"
proof -
  have "\<exists>x \<in> set rs. dr_ip x = ip \<Longrightarrow> \<exists>r \<in> set (upd_first (\<lambda>r. dr_ip r = ip) (\<lambda>r. r\<lparr>dr_gateway := gid, dr_enabled := True\<rparr>) rs).
      dr_ip r = ip \<and> dr_gateway r = gid \<and> dr_enabled r"
    by (induction rs) auto
  then show ?thesis by (auto simp: route_device_def list_ex_iff)
qed

lemma shown_after_route:
  assumes "distinct (map dr_ip rs)"
  shows "shown_rules (route_device ip gid rs) = (shown_rules rs)(ip \<mapsto> (if trim_space gid = [] then ''__direct__'' else gid))"
proof
  fix k
  show "shown_rules (route_device ip gid rs) k = ((shown_rules rs)(ip \<mapsto> (if trim_space gid = [] then ''__direct__'' else gid))) k"
  proof (cases "k = ip")
    case True
    obtain r where r: "r \<in> set (route_device ip gid rs)" "dr_ip r = ip" "dr_gateway r = gid" "dr_enabled r"
      using route_device_sets by blast
    have d: "distinct (map dr_ip (route_device ip gid rs))" using assms by (rule distinct_route_device)
    have "find (\<lambda>r. dr_ip r = ip \<and> dr_enabled r) (route_device ip gid rs) = Some r"
    proof (cases "find (\<lambda>r. dr_ip r = ip \<and> dr_enabled r) (route_device ip gid rs)")
      case None
      then show ?thesis using r by (auto simp: find_None_iff)
    next
      case (Some q)
      then have "q \<in> set (route_device ip gid rs)" "dr_ip q = ip" by (auto simp: find_Some_iff)
      with r d have "q = r" by (auto simp: distinct_map inj_on_def)
      with Some show ?thesis by simp
    qed
    with True r d show ?thesis by (simp add: shown_rules_distinct shown_value_def)
  next
    case False
    then have "find (\<lambda>r. dr_ip r = k \<and> dr_enabled r) (route_device ip gid rs) = find (\<lambda>r. dr_ip r = k \<and> dr_enabled r) rs"
      using find_upd_other [of "\<lambda>r. dr_ip r = ip" "\<lambda>r. dr_ip r = k \<and> dr_enabled r" "\<lambda>r. r\<lparr>dr_gateway := gid, dr_enabled := True\<rparr>" rs]
      by (simp add: route_device_def find_append_one split: option.split)
    with False assms show ?thesis by (simp add: shown_rules_distinct distinct_route_device)
  qed
qed

lemma default_rules_keep: "m ip = Some v \<Longrightarrow> default_rules gid ds m ip = Some v"
proof -
  have "m ip = Some v \<Longrightarrow> foldl (\<lambda>m d. if m (nd_ip d) = None then m(nd_ip d \<mapsto> gid) else m) m ds ip = Some v" for m
  proof (induction ds arbitrary: m)
    case (Cons d ds)
    then show ?case by (cases "nd_ip d = ip") simp_all
  qed simp
  then show "m ip = Some v \<Longrightarrow> default_rules gid ds m ip = Some v" by (simp add: default_rules_def)
qed

lemma default_rules_none:
  assumes "trim_space gid \<noteq> []" "d \<in> set ds" "m (nd_ip d) = None"
  shows "default_rules gid ds m (nd_ip d) = Some gid"
proof -
  let ?f = "\<lambda>m d. if m (nd_ip d) = None then m(nd_ip d \<mapsto> gid) else m"
  have keep: "m' ip = Some v \<Longrightarrow> default_rules gid es m' ip = Some v" for m' es ip v by (rule default_rules_keep)
  have "d \<in> set es \<Longrightarrow> m' (nd_ip d) = None \<Longrightarrow> foldl ?f m' es (nd_ip d) = Some gid" for es m'
  proof (induction es arbitrary: m')
    case (Cons e es)
    then show ?case using keep [of "m'(nd_ip e \<mapsto> gid)" "nd_ip d" gid es] assms(1) by (cases "nd_ip e = nd_ip d") (auto simp: default_rules_def)
  qed simp
  with assms show ?thesis by (simp add: default_rules_def)
qed

lemma set_device_route_peer:
  assumes "set_device_route i ip gid now cfg = Inr cfg'" "find_peer_by_id (cfg_peers cfg) i = Some p"
  shows "find_peer_by_id (cfg_peers cfg') i = Some (p\<lparr>p_device_rules := route_device ip gid (p_device_rules p), p_updated := now\<rparr>)"
    "cfg_gateways cfg' = cfg_gateways cfg"
  using assms by (auto simp: set_device_route_def set_peers_def edit_peer_def find_peer_by_id_def find_upd_first)

lemma device_rules_listed:
  assumes "p \<in> set (cfg_peers cfg)" "p_enabled p" "d \<in> set (p_device_rules p)" "(c, s, t, dir) \<in> set (device_specs cfg d)"
  shows "\<exists>r \<in> set (peer_device_gateway_rules cfg). vr_cmd r = c \<and> vr_source r = s \<and> vr_table r = t \<and> vr_direct r = dir"
proof -
  let ?specs = "concat (map (\<lambda>p. if p_enabled p then concat (map (device_specs cfg) (p_device_rules p)) else []) (cfg_peers cfg))"
  have "(c, s, t, dir) \<in> set ?specs" using assms by (auto intro!: bexI [of _ p])
  then have "(c, s, t, dir) \<in> (\<lambda>r. (vr_cmd r, vr_source r, vr_table r, vr_direct r)) ` set (number_gateway_rules device_rule_base ?specs)"
    unfolding list.set_map [symmetric] number_gateway_spec .
  then show ?thesis unfolding peer_device_gateway_rules_def by force
qed

text \<open>C28: an assignment of a device that the handler accepts is shown on the page of the peer, and the
  routing rules carry it out: the table of the gateway, the main table for a direct device, and
  no route when the gateway is not usable.\<close>

theorem device_assignment_shown:
  assumes "set_device_route i ip gid now cfg = Inr cfg'" "find_peer_by_id (cfg_peers cfg) i = Some p" "distinct (map dr_ip (p_device_rules p))"
  shows "(\<exists>page. build_devices_page i devices err cfg' = Some page \<and>
           dp_rules page ip = Some (if trim_space gid = [] then ''__direct__'' else gid)) \<and>
    (p_enabled p \<and> device_ip \<lparr>dr_ip = ip, dr_gateway = gid, dr_enabled = True\<rparr> = Some source \<longrightarrow>
      (\<exists>r \<in> set (peer_device_gateway_rules cfg'). vr_cmd r = ''ip'' \<and> vr_source r = source \<and> vr_direct r = (trim_space gid = []) \<and>
         vr_table r = (if trim_space gid = [] then 0 else case usable_gateway cfg gid of None \<Rightarrow> 0 | Some g \<Rightarrow> g_table g)))"
proof (intro conjI impI)
  note found = set_device_route_peer [OF assms(1,2)]
  show "\<exists>page. build_devices_page i devices err cfg' = Some page \<and> dp_rules page ip = Some (if trim_space gid = [] then ''__direct__'' else gid)"
    by (simp add: build_devices_page_def found(1) Let_def shown_after_route [OF assms(3)] default_rules_keep)
  assume "p_enabled p \<and> device_ip \<lparr>dr_ip = ip, dr_gateway = gid, dr_enabled = True\<rparr> = Some source"
  then have e: "p_enabled p" and s: "device_ip \<lparr>dr_ip = ip, dr_gateway = gid, dr_enabled = True\<rparr> = Some source" by simp_all
  obtain d where d: "d \<in> set (route_device ip gid (p_device_rules p))" "dr_ip d = ip" "dr_gateway d = gid" "dr_enabled d"
    using route_device_sets by blast
  have "device_ip d = Some source" using s d(2) by (simp add: device_ip_def)
  moreover have "usable_gateway cfg' gid = usable_gateway cfg gid"
    by (simp add: usable_gateway_def gateway_interfaces_def found(2))
  ultimately have spec: "(''ip'', source, if trim_space gid = [] then 0 else case usable_gateway cfg gid of None \<Rightarrow> 0 | Some g \<Rightarrow> g_table g,
      trim_space gid = []) \<in> set (device_specs cfg' d)"
    using d(3,4) by (auto simp: device_specs_def split: option.splits)
  have member: "p\<lparr>p_device_rules := route_device ip gid (p_device_rules p), p_updated := now\<rparr> \<in> set (cfg_peers cfg')"
    using peers.lookup_SomeD [OF found(1)] by simp
  show "\<exists>r \<in> set (peer_device_gateway_rules cfg'). vr_cmd r = ''ip'' \<and> vr_source r = source \<and> vr_direct r = (trim_space gid = []) \<and>
           vr_table r = (if trim_space gid = [] then 0 else case usable_gateway cfg gid of None \<Rightarrow> 0 | Some g \<Rightarrow> g_table g)"
    using device_rules_listed [OF member _ _ spec] e d(1) by fastforce
qed

lemma gateway_rule_sources:
  assumes "r \<in> set (vpn_gateway_rules cfg)"
  shows "\<exists>p \<in> set (cfg_peers cfg). p_enabled p \<and> vr_source r \<in> set (peer_sources (p_allowed_ips p))"
proof -
  let ?specs = "concat (map (peer_gateway_specs cfg) (cfg_peers cfg))"
  have "(vr_cmd r, vr_source r, vr_table r, vr_direct r) \<in> set ?specs"
    using assms number_gateway_spec [of gateway_rule_base ?specs] unfolding vpn_gateway_rules_def
    by (metis (mono_tags, lifting) image_eqI list.set_map)
  then show ?thesis by (force simp: peer_gateway_specs_def split: if_splits option.splits)
qed

section \<open>Samples\<close>

definition sample_keyed :: "string \<Rightarrow> app" where
  "sample_keyed k =
     sample_app\<lparr>ap_store := sample_locked\<lparr>st_config := sample_gateway_config
       \<lparr>cfg_peers := [sample_bound\<lparr>p_private_key := k, p_preshared_key := k\<rparr>],
        cfg_gateways := [sample_gateway\<lparr>g_private_key := k\<rparr>]\<rparr>\<rparr>\<rparr>"

theorem diagnostics_hold_no_secrets_witness:
  "(\<forall>pe rq mo. read_page pe System_Tab rq mo (sample_keyed ''secret'') = read_page pe System_Tab rq mo (sample_keyed ''other'')) \<and>
   app_config_of (sample_keyed ''secret'') \<noteq> app_config_of (sample_keyed ''other'')"
proof -
  have "read_page pe System_Tab rq mo (sample_keyed ''secret'') = read_page pe System_Tab rq mo (sample_keyed ''other'')" for pe rq mo
    by (rule diagnostics_hold_no_secrets)
      (simp_all add: sample_keyed_def app_config_of_def erase_secrets_def erase_peer_def erase_gateway_def)
  moreover have "map p_private_key (cfg_peers (app_config_of (sample_keyed k))) = [k]" for k
    by (simp add: sample_keyed_def app_config_of_def)
  from this [of "''secret''"] this [of "''other''"] have "app_config_of (sample_keyed ''secret'') \<noteq> app_config_of (sample_keyed ''other'')" by auto
  ultimately show ?thesis by blast
qed

theorem polled_rows_live_only_witness:
  "\<forall>pe rq mo. snd (read_page pe Stats_Bar rq mo (sample_keyed ''secret'')) = snd (read_page pe Stats_Bar rq mo (sample_keyed ''other''))"
proof (intro allI)
  fix pe rq mo
  show "snd (read_page pe Stats_Bar rq mo (sample_keyed ''secret'')) = snd (read_page pe Stats_Bar rq mo (sample_keyed ''other''))"
    by (rule polled_rows_live_only) (simp_all add: sample_keyed_def app_config_of_def live_part_def)
qed

theorem device_assignment_shown_witness:
  "case set_device_route ''p'' ''192.168.1.5'' ''g'' 7 (zero_config\<lparr>cfg_peers := [sample_bound\<lparr>p_id := ''p''\<rparr>], cfg_gateways := [sample_gateway]\<rparr>) of
     Inl _ \<Rightarrow> False
   | Inr c \<Rightarrow>
       (\<exists>page. build_devices_page ''p'' None [] c = Some page \<and> dp_rules page ''192.168.1.5'' = Some ''g'') \<and>
       (\<exists>r \<in> set (peer_device_gateway_rules c). vr_source r = ''192.168.1.5'' \<and> vr_table r = 200)"
proof -
  let ?p = "sample_bound\<lparr>p_id := ''p''\<rparr>" and ?cfg = "zero_config\<lparr>cfg_peers := [sample_bound\<lparr>p_id := ''p''\<rparr>], cfg_gateways := [sample_gateway]\<rparr>"
  have f: "find_peer_by_id (cfg_peers ?cfg) ''p'' = Some ?p" by (simp add: find_peer_by_id_def)
  then obtain c where c: "set_device_route ''p'' ''192.168.1.5'' ''g'' 7 ?cfg = Inr c" by (simp add: set_device_route_def)
  have t: "trim_space ''g'' \<noteq> []" by code_simp
  have d: "distinct (map dr_ip (p_device_rules ?p))" "p_enabled ?p" by (simp_all add: sample_bound_def)
  have s: "device_ip \<lparr>dr_ip = ''192.168.1.5'', dr_gateway = ''g'', dr_enabled = True\<rparr> = Some ''192.168.1.5''" by code_simp
  have u: "usable_gateway ?cfg ''g'' = Some sample_gateway" "g_table sample_gateway = 200"
    by (simp_all add: usable_gateway_def gateway_interfaces_def sample_gateway_def)
  show ?thesis using device_assignment_shown [OF c f d(1), of None "[]" "''192.168.1.5''"] c t d(2) s u by auto
qed

text \<open>A device without a rule is shown with the gateway of its peer, but the rules of that gateway
  select the peer's own sources only.\<close>

lemma shown_default:
  assumes "build_devices_page i devices err cfg = Some page" "trim_space (p_gateway_id (dp_peer page)) \<noteq> []" "d \<in> set (dp_devices page)"
    "shown_rules (p_device_rules (dp_peer page)) (nd_ip d) = None"
  shows "dp_rules page (nd_ip d) = Some (p_gateway_id (dp_peer page))"
  using assms by (auto simp: build_devices_page_def Let_def split: option.splits intro!: default_rules_none)

theorem shown_default_not_routed:
  "\<exists>cfg page d. build_devices_page ''p'' None [] cfg = Some page \<and> d \<in> set (dp_devices page) \<and> dp_rules page (nd_ip d) = Some ''g'' \<and>
     usable_gateway cfg ''g'' \<noteq> None \<and> map vr_source (vpn_gateway_rules cfg @ peer_device_gateway_rules cfg) = [''10.0.0.2'', ''10.0.0.2'']"
proof -
  define d where "d = \<lparr>nd_ip = ''192.168.1.5'', nd_mac = [], nd_hostname = [], nd_vendor = [], nd_interface = ''wg0'', nd_online = True, nd_last_seen = 0\<rparr>"
  define cfg where "cfg = sample_gateway_config\<lparr>cfg_peers := [zero_peer\<lparr>p_id := ''p'', p_enabled := True, p_allowed_ips := ''10.0.0.2/32'',
    p_gateway_id := ''g'', p_devices := [d]\<rparr>], cfg_gateways := [sample_gateway\<lparr>g_id := ''g'', g_interface := ''wgb-g'', g_enabled := True, g_table := 200\<rparr>]\<rparr>"
  have u: "usable_gateway cfg ''g'' \<noteq> None" by (simp add: cfg_def usable_gateway_def gateway_interfaces_def)
  have m: "map vr_source (vpn_gateway_rules cfg @ peer_device_gateway_rules cfg) = [''10.0.0.2'', ''10.0.0.2'']"
    unfolding cfg_def d_def by code_simp
  have "build_devices_page ''p'' None [] cfg \<noteq> None" by (simp add: build_devices_page_def cfg_def find_peer_by_id_def Let_def)
  then obtain page where p: "build_devices_page ''p'' None [] cfg = Some page" by blast
  have "dp_peer page = hd (cfg_peers cfg)" "dp_devices page = [d]"
    using p by (auto simp: build_devices_page_def cfg_def find_peer_by_id_def Let_def)
  moreover have "trim_space ''g'' \<noteq> []" by code_simp
  ultimately have "d \<in> set (dp_devices page)" "dp_rules page (nd_ip d) = Some ''g''"
    using shown_default [OF p, of d] by (simp_all add: cfg_def shown_rules_def zero_peer_def)
  with p u m show ?thesis by (intro exI conjI)
qed

section \<open>Assignments\<close>

lemma assignment_rows_peers:
  "map (\<lambda>r. (as_id r, as_name r, as_gateway_id r)) (fst (assignment_rows host gs ps s)) = map (\<lambda>p. (p_id p, p_name p, p_gateway_id p)) ps"
proof (induction ps arbitrary: s)
  case (Cons p ps)
  obtain name online log where g: "(case find_vpn_gateway_by_id gs (p_gateway_id p) of
               None \<Rightarrow> ([], False, snd s)
             | Some g \<Rightarrow> (case gateway_status_of host (g_id g) s of (st, log) \<Rightarrow> (g_name g, gs_running st, log))) = (name, online, log)"
    by (rule prod_cases3)
  obtain rows log' where r: "assignment_rows host gs ps (fst s, log) = (rows, log')" by fastforce
  have "map (\<lambda>r. (as_id r, as_name r, as_gateway_id r)) rows = map (\<lambda>p. (p_id p, p_name p, p_gateway_id p)) ps"
    using Cons [of "(fst s, log)"] by (simp only: r fst_conv)
  then show ?case unfolding assignment_rows.simps g Let_def prod.case r by simp
qed simp

interpretation name_order: key_order name_before "\<lambda>r. to_lower (as_name r)"
  by unfold_locales (simp add: name_before_def)

lemma assignments_sorted:
  assumes "build_assignments host cfg s = (rows, log)"
  shows "mset (map (\<lambda>r. (as_id r, as_name r, as_gateway_id r)) rows) = mset (map (\<lambda>p. (p_id p, p_name p, p_gateway_id p)) (cfg_peers cfg))"
    and "sorted (map (\<lambda>r. to_lower (as_name r)) rows)"
proof -
  have r: "rows = sort_slice name_before (fst (assignment_rows host (cfg_gateways cfg) (cfg_peers cfg) s))"
    using assms by (simp add: build_assignments_def split: prod.splits)
  show "mset (map (\<lambda>r. (as_id r, as_name r, as_gateway_id r)) rows) = mset (map (\<lambda>p. (p_id p, p_name p, p_gateway_id p)) (cfg_peers cfg))"
    unfolding r mset_map mset_sort_slice by (simp flip: mset_map add: assignment_rows_peers del: mset_map)
  show "sorted (map (\<lambda>r. to_lower (as_name r)) rows)"
    unfolding r by (rule name_order.sort_sorted)
qed

end
