(* ===== verification/Aliasing.thy ===== *)
theory Aliasing
  imports Models
begin

text \<open>
  The configuration as Go holds it: slices that point into arrays, which copies of a struct share.
  \<^verbatim>\<open>AppConfig.Clone\<close> copies every array a configuration reaches, and \<^verbatim>\<open>Store.Read\<close> and
  \<^verbatim>\<open>Store.Write\<close> hand out and keep such copies.  The theorems say that no edit of the live
  configuration, of a snapshot or of a backup can be seen through another one, which is why
  every other theory may treat a configuration as a value.  The pointer to the time of the last use
  of a passkey counts as a value: the code only ever replaces it.
\<close>

section \<open>Slices\<close>

record slice =
  sl_array :: nat
  sl_len :: nat

definition nil_slice :: slice where
  "nil_slice = \<lparr>sl_array = 0, sl_len = 0\<rparr>"

text \<open>The fields of a peer that are slices are read from the record of slices, the others from the peer.\<close>

record peer_struct =
  ps_flat :: peer
  ps_devices :: slice
  ps_rules :: slice
  ps_exit_routes :: slice
  ps_advertised :: slice
  ps_policy_routes :: slice

record bgp_struct =
  bp_flat :: bgp_peer
  bp_filters :: slice
  bp_export :: slice

datatype cell =
    Text_Cell string
  | Device_Cell net_device
  | Rule_Cell device_rule
  | Filter_Cell route_filter
  | Passkey_Cell passkey
  | Network_Cell zt_network
  | Gateway_Cell vpn_gateway
  | Peer_Cell peer_struct
  | BGP_Cell bgp_struct

record config_struct =
  cs_server :: server_config
  cs_zerotier :: zt_config
  cs_passkeys :: slice
  cs_peers :: slice
  cs_bgp_peers :: slice
  cs_networks :: slice
  cs_gateways :: slice

record memory =
  my_arrays :: "nat \<Rightarrow> cell list"
  my_next :: nat

definition elements :: "memory \<Rightarrow> slice \<Rightarrow> cell list" where
  "elements h s = take (sl_len s) (my_arrays h (sl_array s))"

section \<open>The value of a configuration\<close>

fun text_of :: "cell \<Rightarrow> string" where "text_of (Text_Cell x) = x" | "text_of _ = []"
fun device_of :: "cell \<Rightarrow> net_device option" where "device_of (Device_Cell x) = Some x" | "device_of _ = None"
fun rule_of :: "cell \<Rightarrow> device_rule option" where "rule_of (Rule_Cell x) = Some x" | "rule_of _ = None"
fun filter_of :: "cell \<Rightarrow> route_filter option" where "filter_of (Filter_Cell x) = Some x" | "filter_of _ = None"
fun passkey_of :: "cell \<Rightarrow> passkey option" where "passkey_of (Passkey_Cell x) = Some x" | "passkey_of _ = None"
fun network_of :: "cell \<Rightarrow> zt_network option" where "network_of (Network_Cell x) = Some x" | "network_of _ = None"
fun gateway_of :: "cell \<Rightarrow> vpn_gateway option" where "gateway_of (Gateway_Cell x) = Some x" | "gateway_of _ = None"

definition peer_value :: "memory \<Rightarrow> peer_struct \<Rightarrow> peer" where
  "peer_value h q =
     (ps_flat q)\<lparr>p_devices := List.map_filter device_of (elements h (ps_devices q)),
       p_device_rules := List.map_filter rule_of (elements h (ps_rules q)),
       p_exit_routes := map text_of (elements h (ps_exit_routes q)),
       p_advertised := map text_of (elements h (ps_advertised q)),
       p_policy_routes := map text_of (elements h (ps_policy_routes q))\<rparr>"

definition bgp_value :: "memory \<Rightarrow> bgp_struct \<Rightarrow> bgp_peer" where
  "bgp_value h q =
     (bp_flat q)\<lparr>b_route_filters := List.map_filter filter_of (elements h (bp_filters q)),
       b_export_filters := List.map_filter filter_of (elements h (bp_export q))\<rparr>"

fun peer_at :: "memory \<Rightarrow> cell \<Rightarrow> peer option" where
  "peer_at h (Peer_Cell q) = Some (peer_value h q)" | "peer_at h _ = None"

fun bgp_at :: "memory \<Rightarrow> cell \<Rightarrow> bgp_peer option" where
  "bgp_at h (BGP_Cell q) = Some (bgp_value h q)" | "bgp_at h _ = None"

definition config_value :: "memory \<Rightarrow> config_struct \<Rightarrow> app_config" where
  "config_value h c =
     \<lparr>cfg_server = (cs_server c)\<lparr>s_passkeys := List.map_filter passkey_of (elements h (cs_passkeys c))\<rparr>,
      cfg_peers = List.map_filter (peer_at h) (elements h (cs_peers c)),
      cfg_bgp_peers = List.map_filter (bgp_at h) (elements h (cs_bgp_peers c)),
      cfg_zerotier = (cs_zerotier c)\<lparr>zt_networks := List.map_filter network_of (elements h (cs_networks c))\<rparr>,
      cfg_gateways = List.map_filter gateway_of (elements h (cs_gateways c))\<rparr>"

section \<open>Clone\<close>

text \<open>\<^verbatim>\<open>append([]T(nil), xs...)\<close>: the nil slice for no elements, otherwise a new array.\<close>

definition copy_slice :: "slice \<Rightarrow> memory \<Rightarrow> memory \<times> slice" where
  "copy_slice s h =
     (if elements h s = [] then (h, nil_slice)
      else (h\<lparr>my_arrays := (my_arrays h)(my_next h := elements h s), my_next := my_next h + 1\<rparr>,
            \<lparr>sl_array = my_next h, sl_len = length (elements h s)\<rparr>))"

definition clone_peer :: "peer_struct \<Rightarrow> memory \<Rightarrow> memory \<times> peer_struct" where
  "clone_peer q h =
     (let (h1, devices) = copy_slice (ps_devices q) h;
          (h2, rules) = copy_slice (ps_rules q) h1;
          (h3, exit_routes) = copy_slice (ps_exit_routes q) h2;
          (h4, advertised) = copy_slice (ps_advertised q) h3;
          (h5, policy_routes) = copy_slice (ps_policy_routes q) h4 in
      (h5, q\<lparr>ps_devices := devices, ps_rules := rules, ps_exit_routes := exit_routes,
             ps_advertised := advertised, ps_policy_routes := policy_routes\<rparr>))"

definition clone_bgp :: "bgp_struct \<Rightarrow> memory \<Rightarrow> memory \<times> bgp_struct" where
  "clone_bgp q h =
     (let (h1, filters) = copy_slice (bp_filters q) h; (h2, exports) = copy_slice (bp_export q) h1 in
      (h2, q\<lparr>bp_filters := filters, bp_export := exports\<rparr>))"

fun clone_cell :: "cell \<Rightarrow> memory \<Rightarrow> memory \<times> cell" where
  "clone_cell (Peer_Cell q) h = (case clone_peer q h of (h1, q1) \<Rightarrow> (h1, Peer_Cell q1))"
| "clone_cell (BGP_Cell q) h = (case clone_bgp q h of (h1, q1) \<Rightarrow> (h1, BGP_Cell q1))"
| "clone_cell x h = (h, x)"

definition set_cell :: "slice \<Rightarrow> nat \<Rightarrow> cell \<Rightarrow> memory \<Rightarrow> memory" where
  "set_cell s i x h = h\<lparr>my_arrays := (my_arrays h)(sl_array s := (my_arrays h (sl_array s))[i := x])\<rparr>"

text \<open>\<^verbatim>\<open>for i := range clone.Peers\<close>: the nested slices come from the element of the original, and the
  element of the copy is written in place.\<close>

fun clone_loop :: "slice \<Rightarrow> slice \<Rightarrow> nat \<Rightarrow> nat \<Rightarrow> memory \<Rightarrow> memory" where
  "clone_loop src dst i 0 h = h"
| "clone_loop src dst i (Suc n) h =
     (case clone_cell (elements h src ! i) h of (h1, x) \<Rightarrow> clone_loop src dst (i + 1) n (set_cell dst i x h1))"

definition copy_nested :: "slice \<Rightarrow> memory \<Rightarrow> memory \<times> slice" where
  "copy_nested s h = (case copy_slice s h of (h1, t) \<Rightarrow> (clone_loop s t 0 (sl_len t) h1, t))"

definition clone_config :: "config_struct \<Rightarrow> memory \<Rightarrow> memory \<times> config_struct" where
  "clone_config c h =
     (let (h1, passkeys) = copy_slice (cs_passkeys c) h;
          (h2, ps) = copy_nested (cs_peers c) h1;
          (h3, bs) = copy_nested (cs_bgp_peers c) h2;
          (h4, networks) = copy_slice (cs_networks c) h3;
          (h5, gateways) = copy_slice (cs_gateways c) h4 in
      (h5, c\<lparr>cs_passkeys := passkeys, cs_peers := ps, cs_bgp_peers := bs, cs_networks := networks, cs_gateways := gateways\<rparr>))"

section \<open>What a configuration reaches\<close>

definition slice_foot :: "slice \<Rightarrow> nat set" where
  "slice_foot s = (if sl_len s = 0 then {} else {sl_array s})"

fun cell_foot :: "cell \<Rightarrow> nat set" where
  "cell_foot (Peer_Cell q) = slice_foot (ps_devices q) \<union> slice_foot (ps_rules q) \<union> slice_foot (ps_exit_routes q)
     \<union> slice_foot (ps_advertised q) \<union> slice_foot (ps_policy_routes q)"
| "cell_foot (BGP_Cell q) = slice_foot (bp_filters q) \<union> slice_foot (bp_export q)"
| "cell_foot _ = {}"

definition deep_foot :: "memory \<Rightarrow> slice \<Rightarrow> nat set" where
  "deep_foot h s = slice_foot s \<union> \<Union> (cell_foot ` set (elements h s))"

definition config_foot :: "memory \<Rightarrow> config_struct \<Rightarrow> nat set" where
  "config_foot h c = slice_foot (cs_passkeys c) \<union> deep_foot h (cs_peers c) \<union> deep_foot h (cs_bgp_peers c)
     \<union> slice_foot (cs_networks c) \<union> slice_foot (cs_gateways c)"

text \<open>Everything a configuration reaches is allocated.\<close>

definition allocated :: "memory \<Rightarrow> config_struct \<Rightarrow> bool" where
  "allocated h c \<longleftrightarrow> config_foot h c \<subseteq> {..<my_next h}"

text \<open>Two memories that agree on a set of arrays.\<close>

definition agree :: "nat set \<Rightarrow> memory \<Rightarrow> memory \<Rightarrow> bool" where
  "agree A h h' \<longleftrightarrow> (\<forall>a \<in> A. my_arrays h' a = my_arrays h a)"

lemma agree_mono: "agree A h h' \<Longrightarrow> B \<subseteq> A \<Longrightarrow> agree B h h'"
  by (auto simp: agree_def)

lemma agree_trans: "agree A h h1 \<Longrightarrow> agree A h1 h2 \<Longrightarrow> agree A h h2"
  by (simp add: agree_def)

lemma elements_frame: "agree (slice_foot s) h h' \<Longrightarrow> elements h' s = elements h s"
  by (auto simp: agree_def slice_foot_def elements_def split: if_splits)

lemma cell_frame:
  assumes "agree (cell_foot x) h h'"
  shows "peer_at h' x = peer_at h x" "bgp_at h' x = bgp_at h x"
proof -
  have e: "slice_foot s \<subseteq> cell_foot x \<Longrightarrow> elements h' s = elements h s" for s
    using assms elements_frame agree_mono by blast
  show "peer_at h' x = peer_at h x" "bgp_at h' x = bgp_at h x"
    using e by (cases x; simp add: peer_value_def bgp_value_def subset_eq)+
qed

lemma map_filter_frame: "(\<And>x. x \<in> set xs \<Longrightarrow> f x = g x) \<Longrightarrow> List.map_filter f xs = List.map_filter g xs"
  by (induction xs) (auto simp: List.map_filter_simps split: option.split)

lemma deep_frame:
  assumes "agree (deep_foot h s) h h'"
  shows "elements h' s = elements h s" "deep_foot h' s = deep_foot h s"
    "List.map_filter (peer_at h') (elements h' s) = List.map_filter (peer_at h) (elements h s)"
    "List.map_filter (bgp_at h') (elements h' s) = List.map_filter (bgp_at h) (elements h s)"
proof -
  show e: "elements h' s = elements h s" by (rule elements_frame, rule agree_mono [OF assms]) (simp add: deep_foot_def)
  then show "deep_foot h' s = deep_foot h s" by (simp add: deep_foot_def)
  have "x \<in> set (elements h s) \<Longrightarrow> agree (cell_foot x) h h'" for x
    using assms by (rule agree_mono) (auto simp: deep_foot_def)
  then show "List.map_filter (peer_at h') (elements h' s) = List.map_filter (peer_at h) (elements h s)"
    "List.map_filter (bgp_at h') (elements h' s) = List.map_filter (bgp_at h) (elements h s)"
    by (auto simp: e intro!: map_filter_frame cell_frame)
qed

lemma config_frame:
  assumes "agree (config_foot h c) h h'"
  shows "config_value h' c = config_value h c" "config_foot h' c = config_foot h c"
proof -
  have a: "B \<subseteq> config_foot h c \<Longrightarrow> agree B h h'" for B using assms by (rule agree_mono)
  have e: "elements h' (cs_passkeys c) = elements h (cs_passkeys c)" "elements h' (cs_networks c) = elements h (cs_networks c)"
    "elements h' (cs_gateways c) = elements h (cs_gateways c)"
    by (rule elements_frame, rule a, simp add: config_foot_def subset_eq)+
  have d: "agree (deep_foot h (cs_peers c)) h h'" "agree (deep_foot h (cs_bgp_peers c)) h h'"
    by (rule a, simp add: config_foot_def subset_eq)+
  from deep_frame [OF d(1)] deep_frame [OF d(2)] e
  show "config_value h' c = config_value h c" "config_foot h' c = config_foot h c" by (simp_all add: config_value_def config_foot_def)
qed

section \<open>Copies are fresh and equal\<close>

text \<open>An operation that only allocates.\<close>

definition grows :: "memory \<Rightarrow> memory \<Rightarrow> bool" where
  "grows h h' \<longleftrightarrow> my_next h \<le> my_next h' \<and> agree {..<my_next h} h h'"

definition fresh_in :: "memory \<Rightarrow> memory \<Rightarrow> nat set" where
  "fresh_in h h' = {my_next h..<my_next h'}"

lemma grows_refl [simp]: "grows h h"
  by (simp add: grows_def agree_def)

lemma grows_trans: "grows h h1 \<Longrightarrow> grows h1 h2 \<Longrightarrow> grows h h2"
  by (auto simp: grows_def agree_def)

lemma grows_agree: "grows h h' \<Longrightarrow> \<forall>a \<in> A. a < my_next h \<Longrightarrow> agree A h h'"
  by (auto simp: grows_def agree_def)

definition copied :: "memory \<Rightarrow> memory \<Rightarrow> slice \<Rightarrow> slice \<Rightarrow> bool" where
  "copied h h' s t \<longleftrightarrow> grows h h' \<and> slice_foot t \<subseteq> fresh_in h h' \<and> elements h' t = elements h s"

lemma copied_step:
  assumes "grows h h1" "slice_foot s \<subseteq> {..<my_next h}" "copy_slice s h1 = (h2, t)"
  shows "copied h h2 s t" "grows h1 h2" "sl_len t = length (elements h s)"
proof -
  have e: "elements h1 s = elements h s" using elements_frame grows_agree assms(1,2) by blast
  have "elements h2 t = elements h1 s"
  proof (cases "elements h1 s = []")
    case True
    with assms(3) show ?thesis by (auto simp: copy_slice_def nil_slice_def elements_def)
  next
    case False
    then have "elements h2 t = take (length (elements h1 s)) (elements h1 s)"
      using assms(3) by (auto simp: copy_slice_def elements_def [of h2])
    then show ?thesis by simp
  qed
  moreover have g: "grows h1 h2" using assms(3) by (auto simp: copy_slice_def grows_def agree_def split: if_splits)
  moreover have "slice_foot t \<subseteq> fresh_in h h2" using assms(1,3)
    by (auto simp: copy_slice_def fresh_in_def slice_foot_def nil_slice_def grows_def split: if_splits)
  ultimately show "copied h h2 s t" "grows h1 h2" using e grows_trans [OF assms(1) g] by (simp_all add: copied_def)
  show "sl_len t = length (elements h s)" using assms(3) e by (auto simp: copy_slice_def nil_slice_def split: if_splits)
qed

lemma copied_grow:
  assumes "copied h h1 s t" "grows h1 h2"
  shows "copied h h2 s t"
proof -
  have "slice_foot t \<subseteq> fresh_in h h2" using assms by (force simp: copied_def fresh_in_def grows_def)
  moreover have "elements h2 t = elements h1 t"
    using assms by (intro elements_frame grows_agree [OF assms(2)]) (auto simp: copied_def fresh_in_def)
  ultimately show ?thesis using assms grows_trans by (auto simp: copied_def)
qed

definition copied_cell :: "memory \<Rightarrow> memory \<Rightarrow> cell \<Rightarrow> cell \<Rightarrow> bool" where
  "copied_cell h h' x y \<longleftrightarrow>
     grows h h' \<and> cell_foot y \<subseteq> fresh_in h h' \<and> peer_at h' y = peer_at h x \<and> bgp_at h' y = bgp_at h x"

lemma clone_peer_copied:
  assumes "clone_peer q h = (h', q')" "cell_foot (Peer_Cell q) \<subseteq> {..<my_next h}"
  shows "copied_cell h h' (Peer_Cell q) (Peer_Cell q')"
proof -
  obtain h1 devices where 1: "copy_slice (ps_devices q) h = (h1, devices)" by fastforce
  obtain h2 rules where 2: "copy_slice (ps_rules q) h1 = (h2, rules)" by fastforce
  obtain h3 exit_routes where 3: "copy_slice (ps_exit_routes q) h2 = (h3, exit_routes)" by fastforce
  obtain h4 advertised where 4: "copy_slice (ps_advertised q) h3 = (h4, advertised)" by fastforce
  obtain h5 policy_routes where 5: "copy_slice (ps_policy_routes q) h4 = (h5, policy_routes)" by fastforce
  have q: "h' = h5" "q' = q\<lparr>ps_devices := devices, ps_rules := rules, ps_exit_routes := exit_routes, ps_advertised := advertised, ps_policy_routes := policy_routes\<rparr>"
    using assms(1) by (simp_all add: clone_peer_def 1 2 3 4 5)
  have f: "slice_foot (ps_devices q) \<subseteq> {..<my_next h}" "slice_foot (ps_rules q) \<subseteq> {..<my_next h}" "slice_foot (ps_exit_routes q) \<subseteq> {..<my_next h}"
    "slice_foot (ps_advertised q) \<subseteq> {..<my_next h}" "slice_foot (ps_policy_routes q) \<subseteq> {..<my_next h}" using assms(2) by auto
  note c1 = copied_step [OF grows_refl f(1) 1]
  note c2 = copied_step [OF c1(2) f(2) 2] note g2 = grows_trans [OF c1(2) c2(2)]
  note c3 = copied_step [OF g2 f(3) 3] note g3 = grows_trans [OF g2 c3(2)]
  note c4 = copied_step [OF g3 f(4) 4] note g4 = grows_trans [OF g3 c4(2)]
  note c5 = copied_step [OF g4 f(5) 5]
  have "copied h h5 (ps_devices q) devices" "copied h h5 (ps_rules q) rules" "copied h h5 (ps_exit_routes q) exit_routes"
    "copied h h5 (ps_advertised q) advertised" "copied h h5 (ps_policy_routes q) policy_routes"
    using copied_grow [OF copied_grow [OF copied_grow [OF copied_grow [OF c1(1) c2(2)] c3(2)] c4(2)] c5(2)]
      copied_grow [OF copied_grow [OF copied_grow [OF c2(1) c3(2)] c4(2)] c5(2)]
      copied_grow [OF copied_grow [OF c3(1) c4(2)] c5(2)] copied_grow [OF c4(1) c5(2)] c5(1) by simp_all
  then show ?thesis by (simp add: q copied_cell_def copied_def peer_value_def)
qed

lemma clone_bgp_copied:
  assumes "clone_bgp q h = (h', q')" "cell_foot (BGP_Cell q) \<subseteq> {..<my_next h}"
  shows "copied_cell h h' (BGP_Cell q) (BGP_Cell q')"
proof -
  obtain h1 filters where 1: "copy_slice (bp_filters q) h = (h1, filters)" by fastforce
  obtain h2 exports where 2: "copy_slice (bp_export q) h1 = (h2, exports)" by fastforce
  have q: "h' = h2" "q' = q\<lparr>bp_filters := filters, bp_export := exports\<rparr>" using assms(1) by (simp_all add: clone_bgp_def 1 2)
  have f: "slice_foot (bp_filters q) \<subseteq> {..<my_next h}" "slice_foot (bp_export q) \<subseteq> {..<my_next h}" using assms(2) by auto
  note c1 = copied_step [OF grows_refl f(1) 1]
  note c2 = copied_step [OF c1(2) f(2) 2]
  from copied_grow [OF c1(1) c2(2)] c2(1) show ?thesis by (simp add: q copied_cell_def copied_def bgp_value_def)
qed

lemma clone_cell_copied:
  "clone_cell x h = (h', y) \<Longrightarrow> cell_foot x \<subseteq> {..<my_next h} \<Longrightarrow> copied_cell h h' x y"
  by (cases x) (auto simp: copied_cell_def [of _ _ "Text_Cell _"] copied_cell_def [of _ _ "Device_Cell _"] copied_cell_def [of _ _ "Rule_Cell _"]
    copied_cell_def [of _ _ "Filter_Cell _"] copied_cell_def [of _ _ "Passkey_Cell _"] copied_cell_def [of _ _ "Network_Cell _"]
    copied_cell_def [of _ _ "Gateway_Cell _"] intro!: clone_peer_copied clone_bgp_copied simp del: cell_foot.simps(1,2) split: prod.splits)

section \<open>The loop over the elements\<close>

definition loop_inv :: "memory \<Rightarrow> slice \<Rightarrow> cell list \<Rightarrow> nat \<Rightarrow> memory \<Rightarrow> bool" where
  "loop_inv h0 dst xs i h \<longleftrightarrow>
     grows h0 h \<and> sl_array dst \<in> fresh_in h0 h \<and> length (my_arrays h (sl_array dst)) = length xs \<and>
     (\<forall>j < i. cell_foot (my_arrays h (sl_array dst) ! j) \<subseteq> fresh_in h0 h - {sl_array dst} \<and>
        peer_at h (my_arrays h (sl_array dst) ! j) = peer_at h0 (xs ! j) \<and> bgp_at h (my_arrays h (sl_array dst) ! j) = bgp_at h0 (xs ! j))"

lemma loop_inv_step:
  assumes "loop_inv h0 dst xs i h" "i < length xs" "cell_foot (xs ! i) \<subseteq> {..<my_next h0}" "clone_cell (xs ! i) h = (h1, x)"
  shows "loop_inv h0 dst xs (Suc i) (set_cell dst i x h1)"
proof -
  let ?d = "sl_array dst" and ?h2 = "set_cell dst i x h1"
  have g0: "grows h0 h" and d: "my_next h0 \<le> ?d" "?d < my_next h" and len: "length (my_arrays h ?d) = length xs"
    using assms(1) by (auto simp: loop_inv_def fresh_in_def)
  then have "cell_foot (xs ! i) \<subseteq> {..<my_next h}" using assms(3) by (auto simp: grows_def)
  from clone_cell_copied [OF assms(4) this] have c: "grows h h1" "cell_foot x \<subseteq> fresh_in h h1" "peer_at h1 x = peer_at h (xs ! i)"
    "bgp_at h1 x = bgp_at h (xs ! i)" by (simp_all add: copied_cell_def)
  have same: "my_arrays h1 ?d = my_arrays h ?d" using c(1) d by (simp add: grows_def agree_def)
  have arr: "my_arrays ?h2 ?d = (my_arrays h ?d)[i := x]" by (simp add: set_cell_def same)
  have next2: "my_next ?h2 = my_next h1" by (simp add: set_cell_def)
  have off: "agree (- {?d}) h1 ?h2" by (simp add: agree_def set_cell_def)
  have g1: "grows h0 h1" using g0 c(1) by (rule grows_trans)
  have g2: "grows h0 ?h2" using g1 d(1) by (auto simp: grows_def agree_def set_cell_def)
  have "cell_foot (my_arrays ?h2 ?d ! j) \<subseteq> fresh_in h0 ?h2 - {?d} \<and>
     peer_at ?h2 (my_arrays ?h2 ?d ! j) = peer_at h0 (xs ! j) \<and> bgp_at ?h2 (my_arrays ?h2 ?d ! j) = bgp_at h0 (xs ! j)" if "j < Suc i" for j
  proof (cases "j = i")
    case True
    have "agree (cell_foot (xs ! i)) h0 h" using g0 assms(3) by (intro grows_agree) auto
    note old = cell_frame [OF this]
    have f: "cell_foot x \<subseteq> fresh_in h0 h1 - {?d}" using c(2) d g0 by (auto simp: fresh_in_def grows_def)
    then have "agree (cell_foot x) h1 ?h2" using off by (auto simp: agree_def)
    note new = cell_frame [OF this]
    from True assms(2) len f c(3,4) old new next2 show ?thesis by (simp add: arr fresh_in_def)
  next
    case False
    with that have j: "j < i" by simp
    let ?y = "my_arrays h ?d ! j"
    have y: "cell_foot ?y \<subseteq> fresh_in h0 h - {?d}" "peer_at h ?y = peer_at h0 (xs ! j)" "bgp_at h ?y = bgp_at h0 (xs ! j)"
      using assms(1) j by (auto simp: loop_inv_def)
    then have "agree (cell_foot ?y) h h1" using c(1) by (auto simp: fresh_in_def grows_def agree_def)
    moreover have "agree (cell_foot ?y) h1 ?h2" by (rule agree_mono [OF off]) (use y(1) in auto)
    ultimately have "agree (cell_foot ?y) h ?h2" by (rule agree_trans)
    note new = cell_frame [OF this]
    have "cell_foot ?y \<subseteq> fresh_in h0 ?h2 - {?d}" using y(1) c(1) next2 by (auto simp: fresh_in_def grows_def)
    with False y new show ?thesis by (simp add: arr)
  qed
  with g2 d c(1) len next2 show ?thesis by (auto simp: loop_inv_def arr fresh_in_def grows_def)
qed

lemma clone_loop_inv:
  "loop_inv h0 dst xs i h \<Longrightarrow> i + n = length xs \<Longrightarrow> elements h0 src = xs \<Longrightarrow> slice_foot src \<subseteq> {..<my_next h0} \<Longrightarrow>
   \<Union> (cell_foot ` set xs) \<subseteq> {..<my_next h0} \<Longrightarrow> loop_inv h0 dst xs (length xs) (clone_loop src dst i n h)"
proof (induction n arbitrary: i h)
  case (Suc n)
  have "elements h src = xs"
    using Suc.prems(1,3,4) elements_frame [of src h0 h] grows_agree [of h0 h "slice_foot src"] by (auto simp: loop_inv_def)
  moreover obtain h1 x where c: "clone_cell (xs ! i) h = (h1, x)" by fastforce
  moreover have i: "i < length xs" using Suc.prems(2) by simp
  then have "cell_foot (xs ! i) \<subseteq> {..<my_next h0}" using Suc.prems(5) nth_mem by blast
  note step = loop_inv_step [OF Suc.prems(1) i this c]
  from Suc.IH [OF step _ Suc.prems(3-5)] Suc.prems(2) show ?case using calculation by simp
qed simp

definition copied_deep :: "memory \<Rightarrow> memory \<Rightarrow> slice \<Rightarrow> slice \<Rightarrow> bool" where
  "copied_deep h h' s t \<longleftrightarrow>
     grows h h' \<and> deep_foot h' t \<subseteq> fresh_in h h' \<and>
     List.map_filter (peer_at h') (elements h' t) = List.map_filter (peer_at h) (elements h s) \<and>
     List.map_filter (bgp_at h') (elements h' t) = List.map_filter (bgp_at h) (elements h s)"

lemma map_filter_nth: "length xs = length ys \<Longrightarrow> (\<And>i. i < length xs \<Longrightarrow> f (xs ! i) = g (ys ! i)) \<Longrightarrow> List.map_filter f xs = List.map_filter g ys"
proof -
  assume "length xs = length ys" "\<And>i. i < length xs \<Longrightarrow> f (xs ! i) = g (ys ! i)"
  then have "map f xs = map g ys" by (auto intro: nth_equalityI)
  moreover have "List.map_filter k zs = List.map_filter id (map k zs)" for k :: "'d \<Rightarrow> 'e option" and zs
    by (induction zs) (auto simp: List.map_filter_simps split: option.split)
  ultimately show ?thesis by metis
qed

lemma copy_nested_copied:
  assumes "copy_nested s h = (h', t)" "deep_foot h s \<subseteq> {..<my_next h}"
  shows "copied_deep h h' s t"
proof -
  obtain h1 where c: "copy_slice s h = (h1, t)" and h': "h' = clone_loop s t 0 (sl_len t) h1"
    using assms(1) by (auto simp: copy_nested_def split: prod.splits)
  have foot: "slice_foot s \<subseteq> {..<my_next h}" "\<Union> (cell_foot ` set (elements h s)) \<subseteq> {..<my_next h}" using assms(2) by (auto simp: deep_foot_def)
  note step = copied_step [OF grows_refl foot(1) c]
  show ?thesis
  proof (cases "elements h s = []")
    case True
    with c have t: "t = nil_slice" "h1 = h" by (auto simp: copy_slice_def)
    then have "h' = h" "elements h t = []" "slice_foot t = {}" by (simp_all add: h' nil_slice_def elements_def slice_foot_def)
    with True show ?thesis by (simp add: copied_deep_def deep_foot_def)
  next
    case False
    then have a: "my_arrays h1 (sl_array t) = elements h s" "sl_array t = my_next h" "my_next h1 = my_next h + 1"
      using c by (auto simp: copy_slice_def)
    then have "loop_inv h t (elements h s) 0 h1" using step(2) by (simp add: loop_inv_def fresh_in_def)
    from clone_loop_inv [OF this _ refl foot, of "sl_len t"] step(3) have inv: "loop_inv h t (elements h s) (length (elements h s)) h'"
      by (simp add: h')
    then have e: "elements h' t = my_arrays h' (sl_array t)" using step(3) by (simp add: elements_def loop_inv_def)
    then have "deep_foot h' t \<subseteq> fresh_in h h'" using inv
      by (auto simp: deep_foot_def loop_inv_def slice_foot_def in_set_conv_nth split: if_splits; blast)
    with inv show ?thesis unfolding copied_deep_def e by (auto simp: loop_inv_def intro!: map_filter_nth)
  qed
qed

lemma copied_deep_step:
  assumes "grows h h1" "deep_foot h s \<subseteq> {..<my_next h}" "copy_nested s h1 = (h2, t)"
  shows "copied_deep h h2 s t" "grows h1 h2"
proof -
  have "agree (deep_foot h s) h h1" using assms(1,2) by (intro grows_agree) auto
  note e = deep_frame [OF this]
  then have "deep_foot h1 s \<subseteq> {..<my_next h1}" using assms(1,2) by (auto simp: grows_def)
  from copy_nested_copied [OF assms(3) this] have c: "copied_deep h1 h2 s t" .
  then show "grows h1 h2" by (simp add: copied_deep_def)
  moreover have "fresh_in h1 h2 \<subseteq> fresh_in h h2" using assms(1) by (auto simp: fresh_in_def grows_def)
  ultimately show "copied_deep h h2 s t" using c e grows_trans [OF assms(1)] by (auto simp: copied_deep_def)
qed

lemma copied_deep_grow:
  assumes "copied_deep h h1 s t" "grows h1 h2"
  shows "copied_deep h h2 s t"
proof -
  have "agree (deep_foot h1 t) h1 h2" using assms by (intro grows_agree) (auto simp: copied_deep_def fresh_in_def)
  note e = deep_frame [OF this]
  moreover have "fresh_in h h1 \<subseteq> fresh_in h h2" using assms(2) by (auto simp: fresh_in_def grows_def)
  ultimately show ?thesis using assms grows_trans by (fastforce simp: copied_deep_def)
qed

lemma clone_config_copied:
  assumes "clone_config c h = (h', c')" "allocated h c"
  shows "grows h h'" "config_foot h' c' \<subseteq> fresh_in h h'" "config_value h' c' = config_value h c"
proof -
  obtain h1 passkeys where 1: "copy_slice (cs_passkeys c) h = (h1, passkeys)" by fastforce
  obtain h2 ps where 2: "copy_nested (cs_peers c) h1 = (h2, ps)" by fastforce
  obtain h3 bs where 3: "copy_nested (cs_bgp_peers c) h2 = (h3, bs)" by fastforce
  obtain h4 networks where 4: "copy_slice (cs_networks c) h3 = (h4, networks)" by fastforce
  obtain h5 gateways where 5: "copy_slice (cs_gateways c) h4 = (h5, gateways)" by fastforce
  have c: "h' = h5" "c' = c\<lparr>cs_passkeys := passkeys, cs_peers := ps, cs_bgp_peers := bs, cs_networks := networks, cs_gateways := gateways\<rparr>"
    using assms(1) by (simp_all add: clone_config_def 1 2 3 4 5)
  have f: "slice_foot (cs_passkeys c) \<subseteq> {..<my_next h}" "deep_foot h (cs_peers c) \<subseteq> {..<my_next h}" "deep_foot h (cs_bgp_peers c) \<subseteq> {..<my_next h}"
    "slice_foot (cs_networks c) \<subseteq> {..<my_next h}" "slice_foot (cs_gateways c) \<subseteq> {..<my_next h}"
    using assms(2) by (auto simp: allocated_def config_foot_def)
  note c1 = copied_step [OF grows_refl f(1) 1]
  note c2 = copied_deep_step [OF c1(2) f(2) 2] note g2 = grows_trans [OF c1(2) c2(2)]
  note c3 = copied_deep_step [OF g2 f(3) 3] note g3 = grows_trans [OF g2 c3(2)]
  note c4 = copied_step [OF g3 f(4) 4] note g4 = grows_trans [OF g3 c4(2)]
  note c5 = copied_step [OF g4 f(5) 5]
  note g35 = grows_trans [OF c4(2) c5(2)] note g25 = grows_trans [OF c3(2) g35] note g15 = grows_trans [OF c2(2) g25]
  have e: "copied h h5 (cs_passkeys c) passkeys" "copied_deep h h5 (cs_peers c) ps" "copied_deep h h5 (cs_bgp_peers c) bs"
    "copied h h5 (cs_networks c) networks" "copied h h5 (cs_gateways c) gateways"
    by (rule copied_grow [OF c1(1) g15], rule copied_deep_grow [OF c2(1) g25], rule copied_deep_grow [OF c3(1) g35],
      rule copied_grow [OF c4(1) c5(2)], rule c5(1))
  show "grows h h'" using g4 c5(2) grows_trans unfolding c by blast
  show "config_foot h' c' \<subseteq> fresh_in h h'" using e by (simp add: c config_foot_def copied_def copied_deep_def)
  show "config_value h' c' = config_value h c" using e by (simp add: c config_value_def copied_def copied_deep_def)
qed

section \<open>The store and its snapshots\<close>

text \<open>
  The live configuration, the backup of a write that is under way, and the snapshots that were
  handed out, each with the value it had when it was taken or last edited by its owner.
\<close>

record shared =
  sh_memory :: memory
  sh_live :: config_struct
  sh_backup :: "(config_struct \<times> app_config) option"
  sh_snapshots :: "(config_struct \<times> app_config) list"

text \<open>What code that holds a configuration can do: write arrays it reaches, allocate, and reach
  afterwards only what it reached or allocated.\<close>

definition edited :: "memory \<Rightarrow> config_struct \<Rightarrow> memory \<Rightarrow> config_struct \<Rightarrow> bool" where
  "edited h c h' c' \<longleftrightarrow>
     my_next h \<le> my_next h' \<and> agree ({..<my_next h} - config_foot h c) h h' \<and> config_foot h' c' \<subseteq> config_foot h c \<union> fresh_in h h'"

definition read_snapshot :: "shared \<Rightarrow> shared" where
  "read_snapshot m =
     (case clone_config (sh_live m) (sh_memory m) of
        (h, c) \<Rightarrow> m\<lparr>sh_memory := h, sh_snapshots := sh_snapshots m @ [(c, config_value (sh_memory m) (sh_live m))]\<rparr>)"

definition begin_write :: "shared \<Rightarrow> shared" where
  "begin_write m =
     (case clone_config (sh_live m) (sh_memory m) of
        (h, c) \<Rightarrow> m\<lparr>sh_memory := h, sh_backup := Some (c, config_value (sh_memory m) (sh_live m))\<rparr>)"

inductive sharing :: "shared \<Rightarrow> bool" where
  loaded: "allocated h c \<Longrightarrow> sharing \<lparr>sh_memory = h, sh_live = c, sh_backup = None, sh_snapshots = []\<rparr>"
| taken: "sharing m \<Longrightarrow> sh_backup m = None \<Longrightarrow> sharing (read_snapshot m)"
| begun: "sharing m \<Longrightarrow> sh_backup m = None \<Longrightarrow> sharing (begin_write m)"
| altered: "sharing m \<Longrightarrow> sh_backup m \<noteq> None \<Longrightarrow> edited (sh_memory m) (sh_live m) h c \<Longrightarrow>
    sharing (m\<lparr>sh_memory := h, sh_live := c\<rparr>)"
| committed: "sharing m \<Longrightarrow> sharing (m\<lparr>sh_backup := None\<rparr>)"
| undone: "sharing m \<Longrightarrow> sh_backup m = Some (c, v) \<Longrightarrow> sharing (m\<lparr>sh_live := c, sh_backup := None\<rparr>)"
| used: "sharing m \<Longrightarrow> i < length (sh_snapshots m) \<Longrightarrow> edited (sh_memory m) (fst (sh_snapshots m ! i)) h c \<Longrightarrow>
    sharing (m\<lparr>sh_memory := h, sh_snapshots := (sh_snapshots m)[i := (c, config_value h c)]\<rparr>)"

text \<open>All the configurations that are held, the live one first.\<close>

definition holders :: "shared \<Rightarrow> config_struct list" where
  "holders m = sh_live m # map fst (case sh_backup m of None \<Rightarrow> [] | Some b \<Rightarrow> [b]) @ map fst (sh_snapshots m)"

definition separate :: "memory \<Rightarrow> config_struct list \<Rightarrow> bool" where
  "separate h cs \<longleftrightarrow> (\<forall>c \<in> set cs. allocated h c) \<and> sorted_wrt (\<lambda>c d. disjnt (config_foot h c) (config_foot h d)) cs"

lemma separate_cong:
  "(\<And>c. c \<in> set cs \<Longrightarrow> config_foot h' c = config_foot h c \<and> allocated h' c) \<Longrightarrow> separate h cs \<Longrightarrow> separate h' cs"
  by (auto simp: separate_def elim!: sorted_wrt_mono_rel [rotated])

lemma separate_insert:
  "separate h (us @ c # vs) \<longleftrightarrow> separate h (us @ vs) \<and> allocated h c \<and>
     (\<forall>d \<in> set us \<union> set vs. disjnt (config_foot h c) (config_foot h d))"
  by (auto simp: separate_def sorted_wrt_append intro: disjnt_sym)

text \<open>An edit through one holder leaves the others as they are.\<close>

lemma edited_frame:
  assumes "edited h c h' c'" "allocated h d" "disjnt (config_foot h c) (config_foot h d)"
  shows "config_value h' d = config_value h d" "config_foot h' d = config_foot h d" "allocated h' d" "disjnt (config_foot h' c') (config_foot h' d)"
proof -
  have "config_foot h d \<subseteq> {..<my_next h} - config_foot h c" using assms(2,3) unfolding allocated_def disjnt_def by blast
  then have "agree (config_foot h d) h h'" using assms(1) agree_mono unfolding edited_def by blast
  note f = config_frame [OF this]
  then show "config_value h' d = config_value h d" "config_foot h' d = config_foot h d" by simp_all
  show "allocated h' d" using assms(1,2) f(2) by (auto simp: allocated_def edited_def subset_eq)
  have "disjnt (fresh_in h h') (config_foot h d)" using assms(2) by (force simp: allocated_def fresh_in_def disjnt_def)
  then have "disjnt (config_foot h c \<union> fresh_in h h') (config_foot h d)" using assms(3) by (simp add: disjnt_Un1)
  then show "disjnt (config_foot h' c') (config_foot h' d)" using assms(1) unfolding f(2) edited_def by (meson disjnt_subset1)
qed

lemma values_frame: "(\<And>d. d \<in> set (map fst xs) \<Longrightarrow> f d = g d) \<Longrightarrow> \<forall>(c, v) \<in> set xs. g c = v \<Longrightarrow> \<forall>(c, v) \<in> set xs. f c = v"
  by force

lemma edited_allocated: "edited h c h' c' \<Longrightarrow> allocated h c \<Longrightarrow> allocated h' c'"
  by (force simp: edited_def allocated_def fresh_in_def)

lemma separate_edited:
  assumes "separate h (us @ c # vs)" "edited h c h' c'"
  shows "separate h' (us @ c' # vs)" "d \<in> set us \<union> set vs \<Longrightarrow> config_value h' d = config_value h d"
proof -
  from assms(1) have s: "separate h (us @ vs)" and a: "allocated h c" and d: "d \<in> set us \<union> set vs \<Longrightarrow> disjnt (config_foot h c) (config_foot h d) \<and> allocated h d" for d
    by (auto simp: separate_insert) (auto simp: separate_def)
  note frame = edited_frame [OF assms(2) conjunct2 [OF d] conjunct1 [OF d]]
  have "separate h' (us @ vs)" by (rule separate_cong [OF _ s]) (simp add: frame(2,3))
  then show "separate h' (us @ c' # vs)" using frame(4) edited_allocated [OF assms(2) a] by (simp add: separate_insert)
  show "d \<in> set us \<union> set vs \<Longrightarrow> config_value h' d = config_value h d" by (rule frame(1))
qed

text \<open>A clone is a new holder.\<close>

lemma separate_clone:
  assumes "separate h (us @ vs)" "c \<in> set (us @ vs)" "clone_config c h = (h', c')"
  shows "separate h' (us @ c' # vs)" "config_value h' c' = config_value h c" "d \<in> set (us @ vs) \<Longrightarrow> config_value h' d = config_value h d"
proof -
  have a: "d \<in> set (us @ vs) \<Longrightarrow> allocated h d" for d using assms(1) by (simp add: separate_def)
  note cl = clone_config_copied [OF assms(3) a [OF assms(2)]]
  have frame: "config_value h' d = config_value h d \<and> config_foot h' d = config_foot h d \<and> allocated h' d" if "d \<in> set (us @ vs)" for d
  proof -
    have "agree (config_foot h d) h h'" using a [OF that] by (intro grows_agree [OF cl(1)]) (auto simp: allocated_def)
    note f = config_frame [OF this]
    with a [OF that] cl(1) show ?thesis by (auto simp: allocated_def grows_def)
  qed
  have "separate h' (us @ vs)" using frame by (intro separate_cong [OF _ assms(1)]) blast
  moreover have "disjnt (config_foot h' c') (config_foot h' d)" if "d \<in> set (us @ vs)" for d
    using frame [OF that] a [OF that] cl(2) by (force simp: allocated_def fresh_in_def disjnt_def)
  moreover have "allocated h' c'" using cl(2) by (auto simp: allocated_def fresh_in_def)
  ultimately show "separate h' (us @ c' # vs)" by (auto simp: separate_insert)
  show "config_value h' c' = config_value h c" by (rule cl(3))
  show "d \<in> set (us @ vs) \<Longrightarrow> config_value h' d = config_value h d" using frame by blast
qed

lemma separate_drop: "separate h (us @ c # vs) \<Longrightarrow> separate h (us @ vs)"
  by (simp add: separate_insert)

definition expected :: "shared \<Rightarrow> (config_struct \<times> app_config) list" where
  "expected m = (case sh_backup m of None \<Rightarrow> [] | Some b \<Rightarrow> [b]) @ sh_snapshots m"

definition isolated :: "shared \<Rightarrow> bool" where
  "isolated m \<longleftrightarrow> separate (sh_memory m) (sh_live m # map fst (expected m)) \<and> (\<forall>(c, v) \<in> set (expected m). config_value (sh_memory m) c = v)"

lemma sharing_isolated: "sharing m \<Longrightarrow> isolated m"
proof (induction rule: sharing.induct)
  case (loaded h c)
  then show ?case by (simp add: isolated_def expected_def separate_def)
next
  case (taken m)
  obtain h c where c: "clone_config (sh_live m) (sh_memory m) = (h, c)" by fastforce
  let ?us = "sh_live m # map fst (sh_snapshots m)"
  have s: "separate (sh_memory m) (?us @ [])" "\<forall>(c, v) \<in> set (sh_snapshots m). config_value (sh_memory m) c = v"
    using taken by (simp_all add: isolated_def expected_def)
  note cl = separate_clone [OF s(1) _ c]
  have "\<forall>(d, v) \<in> set (sh_snapshots m). config_value h d = v" by (rule values_frame [OF _ s(2)]) (simp add: cl(3))
  with cl(1,2) taken(2) show ?case by (simp add: isolated_def expected_def read_snapshot_def c)
next
  case (begun m)
  obtain h c where c: "clone_config (sh_live m) (sh_memory m) = (h, c)" by fastforce
  have s: "separate (sh_memory m) ([sh_live m] @ map fst (sh_snapshots m))" "\<forall>(c, v) \<in> set (sh_snapshots m). config_value (sh_memory m) c = v"
    using begun by (simp_all add: isolated_def expected_def)
  note cl = separate_clone [OF s(1) _ c]
  have "\<forall>(d, v) \<in> set (sh_snapshots m). config_value h d = v" by (rule values_frame [OF _ s(2)]) (simp add: cl(3))
  with cl(1,2) show ?case by (simp add: isolated_def expected_def begin_write_def c)
next
  case (altered m h c)
  have s: "separate (sh_memory m) ([] @ sh_live m # map fst (expected m))" using altered by (simp add: isolated_def)
  note ed = separate_edited [OF s altered(3)]
  have "\<forall>(d, v) \<in> set (expected m). config_value h d = v"
    by (rule values_frame [where g = "config_value (sh_memory m)"]) (use ed(2) altered(4) in \<open>simp_all add: isolated_def\<close>)
  with ed(1) show ?case by (simp add: isolated_def expected_def)
next
  case (committed m)
  then show ?case using separate_drop [of "sh_memory m" "[sh_live m]"]
    by (auto simp: isolated_def expected_def split: option.splits)
next
  case (undone m c v)
  then show ?case using separate_drop [of "sh_memory m" "[]" "sh_live m"] by (auto simp: isolated_def expected_def)
next
  case (used m i h c)
  let ?xs = "sh_snapshots m" and ?b = "sh_live m # map fst (case sh_backup m of None \<Rightarrow> [] | Some b \<Rightarrow> [b])"
  let ?us = "take i ?xs" and ?vs = "drop (Suc i) ?xs"
  have xs: "?xs = ?us @ ?xs ! i # ?vs" using used(2) by (rule id_take_nth_drop)
  have "separate (sh_memory m) (?b @ map fst ?xs)" using used(4) by (simp add: isolated_def expected_def)
  then have s: "separate (sh_memory m) ((?b @ map fst ?us) @ fst (?xs ! i) # map fst ?vs)" by (subst (asm) xs) simp
  note ed = separate_edited [OF s used(3)]
  have old: "\<forall>(d, v) \<in> set (expected m). config_value (sh_memory m) d = v" using used(4) by (simp add: isolated_def)
  have "\<forall>(d, v) \<in> set (case sh_backup m of None \<Rightarrow> [] | Some b \<Rightarrow> [b]) \<union> set ?us \<union> set ?vs. config_value h d = v"
  proof clarify
    fix d v assume x: "(d, v) \<in> set (case sh_backup m of None \<Rightarrow> [] | Some b \<Rightarrow> [b]) \<union> set ?us \<union> set ?vs"
    then have "(d, v) \<in> set (expected m)" by (auto simp: expected_def dest: in_set_takeD in_set_dropD)
    moreover from x have "d \<in> set (?b @ map fst ?us) \<union> set (map fst ?vs)" by force
    ultimately show "config_value h d = v" using ed(2) old by force
  qed
  then have "\<forall>(d, v) \<in> set (expected (m\<lparr>sh_memory := h, sh_snapshots := ?xs[i := (c, config_value h c)]\<rparr>)). config_value h d = v"
    using used(2) by (auto simp: expected_def upd_conv_take_nth_drop)
  moreover have "separate h (sh_live m # map fst (expected (m\<lparr>sh_memory := h, sh_snapshots := ?xs[i := (c, config_value h c)]\<rparr>)))"
    using ed(1) used(2) by (simp add: expected_def upd_conv_take_nth_drop)
  ultimately show ?case by (simp add: isolated_def)
qed

text \<open>C5: whatever the store and the owners of snapshots do in any order, a snapshot keeps the value it had
  when \<^verbatim>\<open>Store.Read\<close> took it, or when its owner edited it last, and the backup of a write
  keeps the configuration from before the write, so a rollback restores it.\<close>

theorem snapshots_isolated:
  assumes "sharing m"
  shows "(\<forall>(c, v) \<in> set (sh_snapshots m). config_value (sh_memory m) c = v) \<and>
    (\<forall>c v. sh_backup m = Some (c, v) \<longrightarrow> config_value (sh_memory m) c = v)"
  using sharing_isolated [OF assms] by (auto simp: isolated_def expected_def)

definition sample_memory :: "vpn_gateway \<Rightarrow> memory" where
  "sample_memory g = \<lparr>my_arrays = (\<lambda>_. [])(0 := [Gateway_Cell g]), my_next = 1\<rparr>"

definition sample_struct :: config_struct where
  "sample_struct = \<lparr>cs_server = zero_server, cs_zerotier = zero_zerotier, cs_passkeys = nil_slice, cs_peers = nil_slice,
     cs_bgp_peers = nil_slice, cs_networks = nil_slice, cs_gateways = \<lparr>sl_array = 0, sl_len = 1\<rparr>\<rparr>"

definition sample_shared :: shared where
  "sample_shared = begin_write (read_snapshot
     \<lparr>sh_memory = sample_memory zero_gateway, sh_live = sample_struct, sh_backup = None, sh_snapshots = []\<rparr>)"

theorem snapshots_isolated_witness:
  "\<exists>h. let m = sample_shared\<lparr>sh_memory := h\<rparr> in
     cfg_gateways (config_value h (sh_live m)) = [zero_gateway\<lparr>g_id := ''g''\<rparr>] \<and>
     (\<forall>(c, v) \<in> set (sh_snapshots m). config_value h c = v \<and> cfg_gateways v = [zero_gateway])"
proof -
  define h where "h = set_cell \<lparr>sl_array = 0, sl_len = 1\<rparr> 0 (Gateway_Cell (zero_gateway\<lparr>g_id := ''g''\<rparr>)) (sh_memory sample_shared)"
  let ?m0 = "\<lparr>sh_memory = sample_memory zero_gateway, sh_live = sample_struct, sh_backup = None, sh_snapshots = []\<rparr>"
  note defs = sample_shared_def sample_memory_def sample_struct_def begin_write_def read_snapshot_def clone_config_def copy_slice_def
    copy_nested_def elements_def nil_slice_def Let_def
  have "sharing ?m0" by (rule sharing.loaded) (simp add: allocated_def config_foot_def deep_foot_def slice_foot_def elements_def defs)
  then have "sharing (read_snapshot ?m0)" by (rule sharing.taken) simp
  moreover have "sh_backup (read_snapshot ?m0) = None" by (simp add: read_snapshot_def split: prod.split)
  ultimately have "sharing sample_shared" unfolding sample_shared_def by (rule sharing.begun)
  moreover have live: "sh_live sample_shared = sample_struct" "sh_backup sample_shared \<noteq> None" by (simp_all add: defs)
  moreover have "edited (sh_memory sample_shared) sample_struct h sample_struct"
    by (auto simp: edited_def agree_def h_def set_cell_def config_foot_def deep_foot_def slice_foot_def sample_struct_def nil_slice_def elements_def)
  ultimately have "sharing (sample_shared\<lparr>sh_memory := h, sh_live := sample_struct\<rparr>)" by (metis sharing.altered)
  note iso = snapshots_isolated [OF this]
  have "cfg_gateways (config_value h sample_struct) = [zero_gateway\<lparr>g_id := ''g''\<rparr>]"
    by (simp add: h_def config_value_def set_cell_def defs List.map_filter_simps)
  moreover have "\<forall>(c, v) \<in> set (sh_snapshots sample_shared). cfg_gateways v = [zero_gateway]"
    by (simp add: defs config_value_def List.map_filter_simps)
  ultimately show ?thesis using iso live by (intro exI [of _ h]) (auto simp: Let_def)
qed

end
