(* ===== verification/Middleware.thy ===== *)
theory Middleware
  imports Models Complex_Main
begin

text \<open>
  The outer layers of the web server in \<^verbatim>\<open>handlers.go\<close>: \<^verbatim>\<open>gzipResponses\<close>, \<^verbatim>\<open>logErrors\<close> and the
  status recorder of the audit log.  A handler is the sequence of calls it makes on its response writer;
  the layers are functions on the state of the writers.  What the standard library computes from a
  text (media types, numbers, compression, sniffing, JSON) is the record \<open>http_lib\<close>.
\<close>

section \<open>The response writer of net/http\<close>

type_synonym header = "string \<Rightarrow> string list"

datatype call =
    Set_Header string string
  | Add_Header string string
  | Del_Header string
  | Write_Header nat
  | Write_Body string

record writer =
  rw_header :: header
  rw_status :: "nat option"
  rw_sent :: header
  rw_body :: string

definition header_get :: "header \<Rightarrow> string \<Rightarrow> string" where
  "header_get fs k = (case fs k of [] \<Rightarrow> [] | v # _ \<Rightarrow> v)"

definition body_allowed :: "nat \<Rightarrow> bool" where
  "body_allowed status \<longleftrightarrow> 200 \<le> status \<and> status \<noteq> 204 \<and> status \<noteq> 304"

definition new_writer :: writer where
  "new_writer = \<lparr>rw_header = (\<lambda>_. []), rw_status = None, rw_sent = (\<lambda>_. []), rw_body = []\<rparr>"

text \<open>The first status counts, and freezes the header; a body without a status means 200.\<close>

definition write_header :: "nat \<Rightarrow> writer \<Rightarrow> writer" where
  "write_header status w =
     (if rw_status w = None then w\<lparr>rw_status := Some status, rw_sent := rw_header w\<rparr> else w)"

definition write_body :: "string \<Rightarrow> writer \<Rightarrow> writer" where
  "write_body b w =
     (let w1 = (if rw_status w = None then write_header 200 w else w) in
      case rw_status w1 of
        None \<Rightarrow> w1
      | Some status \<Rightarrow> if body_allowed status then w1\<lparr>rw_body := rw_body w1 @ b\<rparr> else w1)"

fun header_call :: "call \<Rightarrow> header \<Rightarrow> header" where
  "header_call (Set_Header k v) fs = fs(k := [v])"
| "header_call (Add_Header k v) fs = fs(k := fs k @ [v])"
| "header_call (Del_Header k) fs = fs(k := [])"
| "header_call _ fs = fs"

fun writer_call :: "call \<Rightarrow> writer \<Rightarrow> writer" where
  "writer_call (Write_Header status) w = write_header status w"
| "writer_call (Write_Body b) w = write_body b w"
| "writer_call c w = w\<lparr>rw_header := header_call c (rw_header w)\<rparr>"

section \<open>The library\<close>

record http_lib =
  li_media :: "string \<Rightarrow> (string \<times> (string \<Rightarrow> string option)) option"
  li_float :: "string \<Rightarrow> rat option"
  li_detect :: "string \<Rightarrow> string"
  li_gzip :: "string list \<Rightarrow> string"
  li_json_error :: "string \<Rightarrow> string option"

section \<open>Compression\<close>

text \<open>The qualities for gzip and for any coding; the last mention of each wins.\<close>

definition accept_item :: "http_lib \<Rightarrow> string \<Rightarrow> rat \<times> rat \<Rightarrow> rat \<times> rat" where
  "accept_item lib item q =
     (case li_media lib (trim_space item) of
        None \<Rightarrow> q
      | Some (name, params) \<Rightarrow>
          (case (case params ''q'' of None \<Rightarrow> Some 1 | Some raw \<Rightarrow> li_float lib raw) of
             None \<Rightarrow> q
           | Some quality \<Rightarrow>
               if equal_fold name ''gzip'' then (quality, snd q)
               else if name = ''*'' then (fst q, quality) else q))"

definition accepts_gzip :: "http_lib \<Rightarrow> string list \<Rightarrow> bool" where
  "accepts_gzip lib values =
     (case fold (accept_item lib) (concat (map (split_char (CHR '','')) values)) (- 1, - 1) of
        (g, any) \<Rightarrow> if 0 \<le> g then 0 < g else 0 < any)"

definition is_compressible :: "http_lib \<Rightarrow> string \<Rightarrow> bool" where
  "is_compressible lib content_type =
     (case li_media lib content_type of
        None \<Rightarrow> False
      | Some (m, _) \<Rightarrow> has_prefix m ''text/'' \<or> m = ''application/json'' \<or> m = ''application/javascript''
          \<or> m = ''application/xml'' \<or> m = ''image/svg+xml'')"

text \<open>The compressor is the list of the pieces it was given.\<close>

record gzip_writer =
  gw_writer :: writer
  gw_chunks :: "string list option"
  gw_allow :: bool
  gw_wrote :: bool

definition gzip_header :: "http_lib \<Rightarrow> nat \<Rightarrow> gzip_writer \<Rightarrow> gzip_writer" where
  "gzip_header lib status g =
     (if gw_wrote g then g
      else (let w = gw_writer g in
        if gw_allow g \<and> status \<noteq> 204 \<and> status \<noteq> 304 \<and> is_compressible lib (header_get (rw_header w) ''Content-Type'')
        then g\<lparr>gw_wrote := True, gw_chunks := Some [],
               gw_writer := write_header status
                 (w\<lparr>rw_header := (rw_header w)(''Content-Length'' := [], ''Content-Encoding'' := [''gzip''])\<rparr>)\<rparr>
        else g\<lparr>gw_wrote := True, gw_writer := write_header status w\<rparr>))"

definition gzip_body :: "http_lib \<Rightarrow> string \<Rightarrow> gzip_writer \<Rightarrow> gzip_writer" where
  "gzip_body lib b g =
     (let g1 = (if gw_wrote g then g
                else gzip_header lib 200
                  (if header_get (rw_header (gw_writer g)) ''Content-Type'' = []
                   then g\<lparr>gw_writer := (gw_writer g)\<lparr>rw_header := (rw_header (gw_writer g))(''Content-Type'' := [li_detect lib b])\<rparr>\<rparr>
                   else g)) in
      case gw_chunks g1 of
        Some cs \<Rightarrow> g1\<lparr>gw_chunks := Some (cs @ [b])\<rparr>
      | None \<Rightarrow> g1\<lparr>gw_writer := write_body b (gw_writer g1)\<rparr>)"

fun gzip_call :: "http_lib \<Rightarrow> call \<Rightarrow> gzip_writer \<Rightarrow> gzip_writer" where
  "gzip_call lib (Write_Header status) g = gzip_header lib status g"
| "gzip_call lib (Write_Body b) g = gzip_body lib b g"
| "gzip_call lib c g = g\<lparr>gw_writer := writer_call c (gw_writer g)\<rparr>"

definition gzip_close :: "http_lib \<Rightarrow> gzip_writer \<Rightarrow> writer" where
  "gzip_close lib g =
     (case gw_chunks g of None \<Rightarrow> gw_writer g | Some cs \<Rightarrow> write_body (li_gzip lib cs) (gw_writer g))"

section \<open>The status recorder\<close>

record recorder =
  rd_status :: nat
  rd_detail :: string

definition new_recorder :: recorder where
  "new_recorder = \<lparr>rd_status = 200, rd_detail = []\<rparr>"

fun record_call :: "http_lib \<Rightarrow> header \<Rightarrow> call \<Rightarrow> recorder \<Rightarrow> recorder" where
  "record_call lib fs (Write_Header status) r = r\<lparr>rd_status := status\<rparr>"
| "record_call lib fs (Write_Body b) r =
     (if 400 \<le> rd_status r \<and> rd_detail r = [] then
        (if has_prefix (header_get fs ''Content-Type'') ''text/plain'' then r\<lparr>rd_detail := trim_space b\<rparr>
         else if has_prefix (header_get fs ''Content-Type'') ''application/json'' then
           (case li_json_error lib b of None \<Rightarrow> r | Some e \<Rightarrow> r\<lparr>rd_detail := e\<rparr>)
         else r)
      else r)"
| "record_call lib fs _ r = r"

section \<open>The layers together\<close>

record web_call =
  wc_method :: string
  wc_path :: string
  wc_remote :: string
  wc_range :: string
  wc_accept :: "string list"

text \<open>The recorders of the audit log and of the request log, and the compressing writer below them.\<close>

record layers =
  la_audit :: recorder
  la_log :: recorder
  la_gzip :: gzip_writer

definition layer_call :: "http_lib \<Rightarrow> layers \<Rightarrow> call \<Rightarrow> layers" where
  "layer_call lib l c =
     (let fs = rw_header (gw_writer (la_gzip l)) in
      l\<lparr>la_audit := record_call lib fs c (la_audit l), la_log := record_call lib fs c (la_log l), la_gzip := gzip_call lib c (la_gzip l)\<rparr>)"

definition open_layers :: "http_lib \<Rightarrow> web_call \<Rightarrow> layers" where
  "open_layers lib rq =
     \<lparr>la_audit = new_recorder, la_log = new_recorder,
      la_gzip = \<lparr>gw_writer = writer_call (Add_Header ''Vary'' ''Accept-Encoding'') new_writer, gw_chunks = None,
        gw_allow = (wc_method rq \<noteq> ''HEAD'' \<and> wc_range rq = [] \<and> accepts_gzip lib (wc_accept rq)), gw_wrote = False\<rparr>\<rparr>"

definition log_errors :: "web_call \<Rightarrow> recorder \<Rightarrow> string option" where
  "log_errors rq r =
     (if rd_status r < 400 then None
      else Some (nat_dec (rd_status r) @ '' '' @ wc_method rq @ '' '' @ wc_path rq @ '' from '' @ wc_remote rq
             @ (if rd_detail r = [] then [] else '': '' @ rd_detail r)))"

text \<open>What the client gets, the line of the request log, and the status the audit log sees.\<close>

definition serve_layers :: "http_lib \<Rightarrow> web_call \<Rightarrow> call list \<Rightarrow> writer \<times> string option \<times> nat" where
  "serve_layers lib rq cs =
     (let l = foldl (layer_call lib) (open_layers lib rq) cs in
      (gzip_close lib (la_gzip l), log_errors rq (la_log l), rd_status (la_audit l)))"

definition plain_writer :: "call list \<Rightarrow> writer" where
  "plain_writer cs = foldl (\<lambda>w c. writer_call c w) new_writer cs"

section \<open>The layers change nothing but the coding\<close>

definition coding_fields :: "string set" where
  "coding_fields = {''Vary'', ''Content-Encoding'', ''Content-Length'', ''Content-Type''}"

text \<open>The handlers of the program leave the coding to the layer.\<close>

fun leaves_coding :: "call \<Rightarrow> bool" where
  "leaves_coding (Set_Header k v) \<longleftrightarrow> k \<noteq> ''Content-Encoding''"
| "leaves_coding (Add_Header k v) \<longleftrightarrow> k \<noteq> ''Content-Encoding''"
| "leaves_coding _ \<longleftrightarrow> True"

fun decent_call :: "call \<Rightarrow> bool" where
  "decent_call (Write_Header status) \<longleftrightarrow> 200 \<le> status"
| "decent_call _ \<longleftrightarrow> True"

definition same_fields :: "header \<Rightarrow> header \<Rightarrow> bool" where
  "same_fields a b \<longleftrightarrow> (\<forall>k. k \<notin> coding_fields \<longrightarrow> a k = b k)"

definition simulates :: "gzip_writer \<Rightarrow> writer \<Rightarrow> bool" where
  "simulates g w \<longleftrightarrow>
     rw_status (gw_writer g) = rw_status w \<and> gw_wrote g = (rw_status w \<noteq> None) \<and>
     (\<forall>status. rw_status w = Some status \<longrightarrow> 200 \<le> status) \<and> (rw_status w = None \<longrightarrow> rw_body w = []) \<and>
     same_fields (rw_header (gw_writer g)) (rw_header w) \<and> same_fields (rw_sent (gw_writer g)) (rw_sent w) \<and>
     (case gw_chunks g of
        None \<Rightarrow> rw_body (gw_writer g) = rw_body w \<and> rw_sent (gw_writer g) ''Content-Encoding'' = [] \<and>
          (rw_status w = None \<longrightarrow> rw_header (gw_writer g) ''Content-Encoding'' = [])
      | Some cs \<Rightarrow> rw_body (gw_writer g) = [] \<and> concat cs = rw_body w \<and> rw_sent (gw_writer g) ''Content-Encoding'' = [''gzip''] \<and>
          (\<exists>status. rw_status w = Some status \<and> body_allowed status))"

lemma same_fields_call: "same_fields a b \<Longrightarrow> same_fields (header_call c a) (header_call c b)"
  by (cases c) (auto simp: same_fields_def)

lemma same_fields_upd [simp]: "k \<in> coding_fields \<Longrightarrow> same_fields (a(k := v)) b \<longleftrightarrow> same_fields a b"
  by (auto simp: same_fields_def)

lemma coding_fields_members [simp]: "''Vary'' \<in> coding_fields" "''Content-Encoding'' \<in> coding_fields"
  "''Content-Length'' \<in> coding_fields" "''Content-Type'' \<in> coding_fields"
  by (simp_all add: coding_fields_def)

lemma coding_call: "leaves_coding c \<Longrightarrow> a ''Content-Encoding'' = [] \<Longrightarrow> header_call c a ''Content-Encoding'' = []"
  by (cases c) auto

lemma simulates_header:
  assumes "simulates g w" "200 \<le> status"
  shows "simulates (gzip_header lib status g) (write_header status w)"
proof (cases "rw_status w = None")
  case True
  then have g: "gw_chunks g = None" "\<not> gw_wrote g" using assms(1) by (auto simp: simulates_def split: option.splits)
  show ?thesis
  proof (cases "gw_allow g \<and> status \<noteq> 204 \<and> status \<noteq> 304 \<and> is_compressible lib (header_get (rw_header (gw_writer g)) ''Content-Type'')")
    case c: True
    with True g assms show ?thesis
      by (simp add: simulates_def gzip_header_def write_header_def Let_def body_allowed_def)
  next
    case False
    with g(2) have "gzip_header lib status g = g\<lparr>gw_wrote := True, gw_writer := write_header status (gw_writer g)\<rparr>"
      by (auto simp: gzip_header_def Let_def)
    with True g assms show ?thesis by (simp add: simulates_def write_header_def)
  qed
next
  case False
  then obtain y where "rw_status w = Some y" by blast
  then have "write_header status w = w" "gzip_header lib status g = g"
    using assms(1) by (simp_all add: simulates_def gzip_header_def write_header_def)
  with assms(1) show ?thesis by simp
qed

lemma simulates_sniff:
  assumes "simulates g w" "rw_status w = None"
  shows "simulates (g\<lparr>gw_writer := (gw_writer g)\<lparr>rw_header := (rw_header (gw_writer g))(''Content-Type'' := v)\<rparr>\<rparr>) w"
  using assms by (auto simp: simulates_def same_fields_def coding_fields_def split: option.splits)

lemma simulates_wrote:
  assumes "simulates g w" "rw_status w = Some status"
  shows "simulates (case gw_chunks g of Some cs \<Rightarrow> g\<lparr>gw_chunks := Some (cs @ [b])\<rparr> | None \<Rightarrow> g\<lparr>gw_writer := write_body b (gw_writer g)\<rparr>)
    (write_body b w)"
  using assms by (auto simp: simulates_def write_body_def Let_def split: option.splits)

lemma simulates_body:
  assumes "simulates g w"
  shows "simulates (gzip_body lib b g) (write_body b w)"
proof (cases "rw_status w")
  case None
  let ?g = "if header_get (rw_header (gw_writer g)) ''Content-Type'' = []
    then g\<lparr>gw_writer := (gw_writer g)\<lparr>rw_header := (rw_header (gw_writer g))(''Content-Type'' := [li_detect lib b])\<rparr>\<rparr> else g"
  have "simulates ?g w" using assms simulates_sniff [OF assms None] by simp
  then have "simulates (gzip_header lib 200 ?g) (write_header 200 w)" by (rule simulates_header) simp
  moreover have "rw_status (write_header 200 w) = Some 200" using None by (simp add: write_header_def)
  ultimately have "simulates (case gw_chunks (gzip_header lib 200 ?g) of Some cs \<Rightarrow> (gzip_header lib 200 ?g)\<lparr>gw_chunks := Some (cs @ [b])\<rparr>
      | None \<Rightarrow> (gzip_header lib 200 ?g)\<lparr>gw_writer := write_body b (gw_writer (gzip_header lib 200 ?g))\<rparr>) (write_body b (write_header 200 w))"
    by (rule simulates_wrote)
  moreover have "write_body b (write_header 200 w) = write_body b w" using None by (simp add: write_body_def write_header_def)
  moreover have "\<not> gw_wrote g" using assms None by (simp add: simulates_def)
  ultimately show ?thesis by (simp add: gzip_body_def Let_def)
next
  case (Some status)
  then have "gw_wrote g" using assms by (simp add: simulates_def)
  with simulates_wrote [OF assms Some, of b] show ?thesis by (simp add: gzip_body_def Let_def)
qed

lemma simulates_call:
  assumes "simulates g w" "leaves_coding c" "decent_call c"
  shows "simulates (gzip_call lib c g) (writer_call c w)"
proof -
  have "simulates (g\<lparr>gw_writer := (gw_writer g)\<lparr>rw_header := header_call c (rw_header (gw_writer g))\<rparr>\<rparr>) (w\<lparr>rw_header := header_call c (rw_header w)\<rparr>)"
    using assms(1) same_fields_call coding_call [OF assms(2)] by (auto simp: simulates_def split: option.splits)
  with simulates_header [OF assms(1)] simulates_body [OF assms(1)] assms(3) show ?thesis by (cases c) auto
qed

lemma simulates_calls:
  "simulates (la_gzip l) w \<Longrightarrow> list_all leaves_coding cs \<Longrightarrow> list_all decent_call cs \<Longrightarrow>
   simulates (la_gzip (foldl (layer_call lib) l cs)) (foldl (\<lambda>w c. writer_call c w) w cs)"
proof (induction cs arbitrary: l w)
  case (Cons c cs)
  have "la_gzip (layer_call lib l c) = gzip_call lib c (la_gzip l)" by (simp add: layer_call_def Let_def)
  with Cons.prems have "simulates (la_gzip (layer_call lib l c)) (writer_call c w)" by (simp add: simulates_call)
  from Cons.IH [OF this] Cons.prems show ?case by simp
qed simp

text \<open>What a client makes of a response.\<close>

definition client_body :: "(string \<Rightarrow> string) \<Rightarrow> writer \<Rightarrow> string" where
  "client_body gunzip w = (if header_get (rw_sent w) ''Content-Encoding'' = ''gzip'' then gunzip (rw_body w) else rw_body w)"


text \<open>Nothing is compressed for a client that did not ask for it, for a part of a file, or without a body.\<close>

lemma gzip_call_chunks:
  "(gw_chunks g \<noteq> None \<longrightarrow> gw_allow g) \<Longrightarrow> (gw_chunks (gzip_call lib c g) \<noteq> None \<longrightarrow> gw_allow g) \<and> gw_allow (gzip_call lib c g) = gw_allow g"
  by (cases c) (auto simp: gzip_header_def gzip_body_def Let_def split: option.splits)

lemma layers_chunks:
  "(gw_chunks (la_gzip l) \<noteq> None \<longrightarrow> gw_allow (la_gzip l)) \<Longrightarrow>
   gw_chunks (la_gzip (foldl (layer_call lib) l cs)) \<noteq> None \<longrightarrow> gw_allow (la_gzip l)"
proof (induction cs arbitrary: l)
  case (Cons c cs)
  have "la_gzip (layer_call lib l c) = gzip_call lib c (la_gzip l)" by (simp add: layer_call_def Let_def)
  with Cons.IH [of "layer_call lib l c"] gzip_call_chunks [OF Cons.prems, of lib c] show ?case by simp
qed simp

lemma compressed_when_asked:
  assumes "gw_chunks (la_gzip (foldl (layer_call lib) (open_layers lib rq) cs)) \<noteq> None"
  shows "wc_method rq \<noteq> ''HEAD'' \<and> wc_range rq = [] \<and> accepts_gzip lib (wc_accept rq)"
  using layers_chunks [of "open_layers lib rq" lib cs] assms by (simp add: open_layers_def)

text \<open>A compressor for examples: it marks the text.\<close>

definition sample_lib :: http_lib where
  "sample_lib = \<lparr>li_media = (\<lambda>s. Some (s, \<lambda>_. None)), li_float = (\<lambda>_. None), li_detect = (\<lambda>_. ''text/plain''),
     li_gzip = (\<lambda>pieces. ''gz:'' @ concat pieces), li_json_error = (\<lambda>_. None)\<rparr>"

definition sample_call :: web_call where
  "sample_call = \<lparr>wc_method = ''GET'', wc_path = ''/peers'', wc_remote = ''10.0.0.9'', wc_range = [], wc_accept = [''gzip'']\<rparr>"

definition sample_page :: "call list" where
  "sample_page = [Set_Header ''Content-Type'' ''text/html'', Write_Header 404, Write_Body ''no '', Write_Body ''peer'']"


end
