(* ===== verification/Spec2Isabelle.thy ===== *)
theory Spec2Isabelle
  imports Gateway_Spec Bgp_Spec Program Edits_Spec Discovery Zerotier_Spec Pages_Spec Aliasing Middleware
begin

text \<open>
  \<^bold>\<open>wg-busy: a verification library.\<close>

  wg-busy is one Go process that owns a WireGuard interface \<^verbatim>\<open>wg0\<close> and everything around it: a
  web interface edits one configuration, and every accepted edit is validated, saved as YAML,
  rendered to \<^verbatim>\<open>wg0.conf\<close>, loaded into the running interface, and turned into policy routing,
  firewall rules and BGP peers.  Beside it run outbound VPN gateways, a ZeroTier service, a traffic
  collector and a BGP speaker, which call back into the store when what they know changes.

  \<^bold>\<open>The parts and their theories\<close>, in the order of the import graph.

  \<^item> \<^verbatim>\<open>Prelude\<close>, \<^verbatim>\<open>Slices\<close>, \<^verbatim>\<open>GoNet\<close>: what the program uses of Go's \<^verbatim>\<open>strings\<close>, \<^verbatim>\<open>strconv\<close>, \<^verbatim>\<open>sort\<close>
    and \<^verbatim>\<open>net\<close> packages, as executable functions (trimming, splitting, numbers, base 64, addresses
    and prefixes), with the locales \<open>keyed_lookup\<close> (lookup in a slice by a key), \<open>id_allocator\<close>
    (the least free table number) and \<open>key_order\<close> (comparison functions), and their interpretations
    on the functions of the program.
  \<^item> \<^verbatim>\<open>Models\<close>, \<^verbatim>\<open>Validation\<close> (\<^verbatim>\<open>internal/models/models.go\<close>): one record per struct, the lookups, the
    gateway resolution of policy routes, and every validator as the list of its errors.
  \<^item> \<^verbatim>\<open>Aliasing\<close> (\<^verbatim>\<open>AppConfig.Clone\<close>, \<^verbatim>\<open>Store.Read\<close>, the backup of \<^verbatim>\<open>Store.Write\<close>): the same
    configuration as slices and arrays in memory.  Its theorem justifies the rest of the library,
    where a configuration is a value.
  \<^item> \<^verbatim>\<open>Ipam\<close> (\<^verbatim>\<open>internal/ipam\<close>): the allocator of peer addresses.
  \<^item> \<^verbatim>\<open>Routing\<close>, \<^verbatim>\<open>Routing_Spec\<close> (\<^verbatim>\<open>internal/routing/routing.go\<close>): the \<^verbatim>\<open>ip rule\<close> entries and the
    strict egress chain as data, and what the kernel makes of them (\<open>walk\<close>).
    \<^verbatim>\<open>Routing_Cmds\<close>, \<^verbatim>\<open>Routing_Recon\<close>: their rendering as commands, the hooks of \<^verbatim>\<open>wg0.conf\<close>, and
    \<^verbatim>\<open>Reconcile\<close> over an arbitrary shell.
  \<^item> \<^verbatim>\<open>Wireguard\<close> (\<^verbatim>\<open>internal/wireguard\<close>): the calls of \<^verbatim>\<open>wg\<close> and \<^verbatim>\<open>wg-quick\<close>, the restart check, and
    the two configuration templates.
  \<^item> \<^verbatim>\<open>Bgp\<close>, \<^verbatim>\<open>Bgp_Spec\<close>, \<^verbatim>\<open>Bgp_Stats\<close> (\<^verbatim>\<open>internal/bgp\<close>): the runtime over an arbitrary BGP library,
    its filters and local routes; statistics, their cache, and the listeners.
  \<^item> \<^verbatim>\<open>Store\<close>, \<^verbatim>\<open>Store_Spec\<close> (\<^verbatim>\<open>internal/config/config.go\<close>): the store with all its operations, and
    the step relation \<open>store_step\<close> with one rule per operation.
  \<^item> \<^verbatim>\<open>Auth_Session\<close>, \<^verbatim>\<open>Cbor\<close>, \<^verbatim>\<open>Webauthn\<close> (\<^verbatim>\<open>internal/auth\<close>): sessions, challenges, the CBOR
    decoder with its panics, and the two WebAuthn ceremonies.
  \<^item> \<^verbatim>\<open>Gateway\<close>, \<^verbatim>\<open>Gateway_Spec\<close> (\<^verbatim>\<open>internal/gateway/manager.go\<close>): parser and renderer of imported
    gateways, and the manager of their tunnels over an arbitrary host.
  \<^item> \<^verbatim>\<open>Stats\<close>, \<^verbatim>\<open>Formatting\<close> (\<^verbatim>\<open>internal/wgstats\<close>): the collector, and values as text.
  \<^item> \<^verbatim>\<open>Zerotier\<close>, \<^verbatim>\<open>Zerotier_Spec\<close> (\<^verbatim>\<open>internal/zerotier\<close>): the client of the control API and the
    supervisor of the service, a tick being cut into stages.
  \<^item> \<^verbatim>\<open>Discovery\<close> (\<^verbatim>\<open>internal/network\<close>): the scan for devices behind a peer.
  \<^item> \<^verbatim>\<open>Edits\<close>, \<^verbatim>\<open>Http\<close>, \<^verbatim>\<open>Handlers\<close>, \<^verbatim>\<open>Pages\<close>, \<^verbatim>\<open>Middleware\<close> and their \<^verbatim>\<open>_Spec\<close> theories
    (\<^verbatim>\<open>internal/handlers\<close>): the edit each handler hands to the store, the requests and routes, the
    handlers that change state, the data of the pages that only read, and the layers around them.
  \<^item> \<^verbatim>\<open>Program\<close> (\<^verbatim>\<open>main.go\<close>): the start sequence, and the program as the free interleaving of requests,
    callbacks, polls and timers, with the shutdown at its end.

  \<^bold>\<open>How state and operations correspond.\<close>  A struct is a \<^verbatim>\<open>record\<close> with the fields in the order of the
  source and a prefix per type; a method takes the state and returns the new one, with the error as
  an option or a sum.  Unsigned fields of fixed width are words, counters that may wrap are wrapped
  explicitly, times are nanoseconds since the zero time.  What the process gets from outside is
  an argument: the clock and the random source (\<open>moment\<close>), the command runner (\<open>runner\<close>, \<open>responder\<close>),
  the file system and the services (\<open>env\<close>, \<open>world\<close>), the BGP library (\<open>bio\<close>, \<open>host\<close>), the ZeroTier
  service, cryptography, JSON, YAML and compression.  Facts about them appear as named hypotheses
  (\<open>codec_ok\<close>, \<open>rollbacks_succeed\<close>, \<open>fresh_sockets\<close>), each with a witness; that the pages only
  read (\<open>readers\<close>) is proved in \<^verbatim>\<open>Pages_Spec\<close>.
  A critical section is one step; what the program does outside a lock is a step of its own.

  \<^bold>\<open>What the lemmas show.\<close>

  \<^item> Configuration: the validator accepts exactly the configurations with the stated invariants; an
    accepted write is valid, a rejected one changes nothing; from the start on, in every
    interleaving, the configuration is valid, the restart flag is true to the interface, and the file
    on disk is the configuration in memory; clones share nothing.
  \<^item> Routing: the rules of a peer decide as the configuration says; a strict peer and a strict
    egress chain fail closed in every state of the tables; \<^verbatim>\<open>Reconcile\<close> keeps the guards up from the
    first removal to the last installation, whichever command fails.
  \<^item> Authentication: a login implies a signature over an unused challenge of this server by a registered
    key, cannot be replayed, and opens a session that lives as long as promised; without a session
    no request but the public ones has an effect, however its path is written.
  \<^item> Parsers: the CBOR decoder always terminates, inverts the encoder, and yields well-formed values
    only; an imported gateway is rendered to a text that parses to the same gateway and holds no hook.
  \<^item> Services: the BGP peers become those of the configuration and no local route leaks; a reported
    tunnel runs; ZeroTier ends in exactly the wanted networks and is restarted at a bounded pace;
    all traffic is accounted; a scan finds exactly the answering hosts within its bound; the served
    statistics are recent; no listener leaks.
  \<^item> Pages: keys reach neither the diagnostics page nor the polled rows; an assignment of a device is
    shown and carried out; compression and logging leave a response as the handler wrote it.

  \<^bold>\<open>Bounds and fuel.\<close>  The CBOR decoder recurses on fuel; one unit more than the number of bytes is
  proved to be enough, and more never changes the result.  The stages of a ZeroTier tick are run with
  fuel six, one for each stage.  All other recursion is on data or has a proved measure.

  \<^bold>\<open>Conventions.\<close>  Strings are lists of bytes, and letters change case in ASCII only.  Rates are exact
  quotients where Go divides in floating point; the conversion of a counter to a float is rounded to
  its 53 bits.  \<^verbatim>\<open>sort.Slice\<close> keeps ties in their order, which Go leaves open.  The iteration
  order of a map is an argument where it matters.  There is one BGP VRF, the default one.  A response is
  its status, its template and its error; the data of a page is a record of its own.  Bodies in JSON are
  given decoded.  The callbacks of the services run as steps of their own.

  \<^bold>\<open>Not modelled.\<close>  The HTML and JavaScript of the front end and the templates; the SVG of the
  sparklines; the log output, with \<^verbatim>\<open>bgp/log_adapter.go\<close>; the generation of keys, which is the random
  source and a library; the socket options and the accept loop of the listeners; the netlink wrappers
  of the BGP library; the stop of the ZeroTier service at the end of the process; the ZeroTier restart button,
  whose effect is the restart step of the supervisor.  Interfaces to third-party code are arguments.
\<close>

end
